theory Spec2Isabelle
  imports Complex_Main "HOL-Library.Sublist"
begin

chapter \<open>Definitions\<close>

section \<open>Numbers of the language\<close>

text \<open>
  A value of the type \<^verbatim>\<open>number\<close> is an IEEE 754 double: \<^verbatim>\<open>NaN\<close>, an infinity, or a finite
  double, kept as the rational it denotes. The sign of zero is not kept; nothing in this
  program tells the two zeros apart.
\<close>

datatype js_number = NaN | Finite rat | PosInfinity | NegInfinity

text \<open>The number of binary digits of a positive integer.\<close>

function bit_length :: "int \<Rightarrow> nat" where
  "bit_length n = (if n \<le> 0 then 0 else Suc (bit_length (n div 2)))"
  by pat_completeness auto

termination
  by (relation "measure nat") auto

text \<open>
  The binary exponent of a positive rational \<open>a\<close>: the integer \<open>e\<close> with
  \<open>2 ^ e \<le> a < 2 ^ (e + 1)\<close>. The difference of the bit lengths of numerator and
  denominator is \<open>e\<close> or \<open>e + 1\<close>.
\<close>

definition floor_log2 :: "rat \<Rightarrow> int" where
  "floor_log2 a =
     (let k = int (bit_length (fst (quotient_of a))) - int (bit_length (snd (quotient_of a)))
      in if 2 powi k \<le> a then k else k - 1)"

text \<open>
  The exponent of the last binary place of the doubles around a positive \<open>a\<close>: 53
  significant bits for a normal number, the fixed place \<open>2 ^ - 1074\<close> for a subnormal one.
\<close>

definition quantum :: "rat \<Rightarrow> int" where
  "quantum a = max (floor_log2 a - 52) (- 1074)"

text \<open>The nearest integer, a tie going to the even one.\<close>

definition round_half_even :: "rat \<Rightarrow> int" where
  "round_half_even y =
     (let f = \<lfloor>y\<rfloor>; d = y - of_int f
      in if d < 1 / 2 then f else if 1 / 2 < d then f + 1 else if even f then f else f + 1)"

text \<open>
  The double nearest to a rational (round to nearest, ties to even): the magnitude is
  rounded to a multiple of its last place, and a result of \<open>2 ^ 1024\<close> or more is an
  infinity.
\<close>

definition round_to_double :: "rat \<Rightarrow> js_number" where
  "round_to_double x =
     (if x = 0 then Finite 0
      else let a = \<bar>x\<bar>;
               r = of_int (round_half_even (a / 2 powi quantum a)) * 2 powi quantum a
           in if 2 ^ 1024 \<le> r then (if 0 < x then PosInfinity else NegInfinity)
              else Finite (if 0 < x then r else - r))"

text \<open>The operators \<^verbatim>\<open>*\<close> and \<^verbatim>\<open>+\<close> on numbers.\<close>

fun js_times :: "js_number \<Rightarrow> js_number \<Rightarrow> js_number" where
  "js_times NaN y = NaN"
| "js_times x NaN = NaN"
| "js_times (Finite a) (Finite b) = round_to_double (a * b)"
| "js_times (Finite a) PosInfinity =
     (if a = 0 then NaN else if 0 < a then PosInfinity else NegInfinity)"
| "js_times (Finite a) NegInfinity =
     (if a = 0 then NaN else if 0 < a then NegInfinity else PosInfinity)"
| "js_times PosInfinity (Finite b) =
     (if b = 0 then NaN else if 0 < b then PosInfinity else NegInfinity)"
| "js_times NegInfinity (Finite b) =
     (if b = 0 then NaN else if 0 < b then NegInfinity else PosInfinity)"
| "js_times PosInfinity PosInfinity = PosInfinity"
| "js_times PosInfinity NegInfinity = NegInfinity"
| "js_times NegInfinity PosInfinity = NegInfinity"
| "js_times NegInfinity NegInfinity = PosInfinity"

fun js_plus :: "js_number \<Rightarrow> js_number \<Rightarrow> js_number" where
  "js_plus NaN y = NaN"
| "js_plus x NaN = NaN"
| "js_plus (Finite a) (Finite b) = round_to_double (a + b)"
| "js_plus (Finite a) PosInfinity = PosInfinity"
| "js_plus (Finite a) NegInfinity = NegInfinity"
| "js_plus PosInfinity (Finite b) = PosInfinity"
| "js_plus NegInfinity (Finite b) = NegInfinity"
| "js_plus PosInfinity PosInfinity = PosInfinity"
| "js_plus PosInfinity NegInfinity = NaN"
| "js_plus NegInfinity PosInfinity = NaN"
| "js_plus NegInfinity NegInfinity = NegInfinity"

text \<open>
  The operator \<^verbatim>\<open>**\<close> with an exponent that is a natural number. Any base to the power 0
  is 1, \<^verbatim>\<open>NaN\<close> included. The language leaves the last place of a power to the
  implementation; the power of a finite base is taken here as the double nearest to the
  exact power, which is what every implementation returns when the exact power is a
  double or lies beyond the range of the doubles.
\<close>

fun js_power :: "js_number \<Rightarrow> nat \<Rightarrow> js_number" where
  "js_power x 0 = Finite 1"
| "js_power NaN (Suc n) = NaN"
| "js_power (Finite a) (Suc n) = round_to_double (a ^ Suc n)"
| "js_power PosInfinity (Suc n) = PosInfinity"
| "js_power NegInfinity (Suc n) = (if even n then NegInfinity else PosInfinity)"

text \<open>
  \<^verbatim>\<open>Math.round\<close>: the nearest integer, a tie going up; it returns \<^verbatim>\<open>NaN\<close> and the
  infinities unchanged. \<^verbatim>\<open>Math.min\<close> of two numbers is \<^verbatim>\<open>NaN\<close> when either is.
\<close>

fun Math_round :: "js_number \<Rightarrow> js_number" where
  "Math_round (Finite x) = Finite (of_int \<lfloor>x + 1 / 2\<rfloor>)"
| "Math_round x = x"

fun Math_min :: "js_number \<Rightarrow> js_number \<Rightarrow> js_number" where
  "Math_min NaN y = NaN"
| "Math_min x NaN = NaN"
| "Math_min NegInfinity y = NegInfinity"
| "Math_min x NegInfinity = NegInfinity"
| "Math_min PosInfinity y = y"
| "Math_min x PosInfinity = x"
| "Math_min (Finite a) (Finite b) = Finite (min a b)"

section \<open>Reconnect backoff (reconnect.ts)\<close>

text \<open>
  The fields of a policy are numbers. The attempt number is the reconnect counter, an
  integer; \<^verbatim>\<open>Math.max(attempt - 1, 0)\<close> is then a natural number. \<^verbatim>\<open>Math.random()\<close> is
  the explicit argument \<open>u\<close>.
\<close>

record BackoffPolicy =
  initialMs :: js_number
  maxMs :: js_number
  factor :: js_number
  jitter :: js_number

definition DEFAULT_RECONNECT_POLICY :: BackoffPolicy where
  "DEFAULT_RECONNECT_POLICY =
     \<lparr>initialMs = Finite 1000, maxMs = Finite 30000, factor = Finite 2,
      jitter = Finite (25 / 100)\<rparr>"

definition computeBackoff :: "BackoffPolicy \<Rightarrow> int \<Rightarrow> js_number \<Rightarrow> js_number" where
  "computeBackoff policy attempt u =
     (let base = js_times (initialMs policy)
                   (js_power (factor policy) (nat (max (attempt - 1) 0)));
          jit = js_times (js_times base (jitter policy)) u
      in Math_min (maxMs policy) (Math_round (js_plus base jit)))"

text \<open>
  The delay as the specification words it, in exact arithmetic, for comparison: the base
  delay \<open>base(k)\<close> and \<open>min(maxDelay, round(base(k) * (1 + jitterFraction * U)))\<close>.
\<close>

definition spec_base :: "rat \<Rightarrow> rat \<Rightarrow> int \<Rightarrow> rat" where
  "spec_base initialDelay fac k = initialDelay * fac ^ nat (max (k - 1) 0)"

definition spec_delay :: "rat \<Rightarrow> rat \<Rightarrow> rat \<Rightarrow> rat \<Rightarrow> int \<Rightarrow> rat \<Rightarrow> rat" where
  "spec_delay initialDelay maxDelay fac jitterFraction k U =
     min maxDelay
       (of_int \<lfloor>spec_base initialDelay fac k * (1 + jitterFraction * U) + 1 / 2\<rfloor>)"

section \<open>JSON values and the server message schema (schemas/protocol.ts)\<close>

text \<open>
  A value produced by \<^verbatim>\<open>JSON.parse\<close>. A number is a finite double, kept as the rational
  it denotes. An object is the list of its own properties in insertion order, each key
  once. \<^verbatim>\<open>JSON.parse\<close> itself is a built-in of the language:
  the functions that call it take it as the argument \<open>parse\<close>, \<open>None\<close> being a
  \<^verbatim>\<open>SyntaxError\<close>.
\<close>

datatype json =
    JNull
  | JBool bool
  | JNum rat
  | JStr string
  | JArr "json list"
  | JObj "(string \<times> json) list"

text \<open>Property read \<^verbatim>\<open>o[k]\<close> on a parsed object; \<open>None\<close> is \<^verbatim>\<open>undefined\<close>.\<close>

definition obj_get :: "(string \<times> json) list \<Rightarrow> string \<Rightarrow> json option" where
  "obj_get kvs k = map_of kvs k"

definition SIXERR_PROTOCOL_VERSION :: rat where
  "SIXERR_PROTOCOL_VERSION = 2"

datatype ServerMessage =
    ServerRequest string "json option"
  | ServerPing rat
  | ServerAuthOk string
  | ServerAuthError string
  | ServerJwtRefresh string
  | ServerPriceUpdateAck string string

text \<open>
  \<^verbatim>\<open>z.strictObject(shape)\<close> rejects an object that has a key outside its shape. The field
  validators: \<^verbatim>\<open>z.string()\<close>, \<^verbatim>\<open>z.string().min(1)\<close>, \<^verbatim>\<open>z.number().int()\<close>,
  \<^verbatim>\<open>z.literal(SIXERR_PROTOCOL_VERSION)\<close>. The library is Zod 4, whose
  \<^verbatim>\<open>z.number().int()\<close> accepts the safe integers only: the integers from
  \<^verbatim>\<open>Number.MIN_SAFE_INTEGER\<close> to \<^verbatim>\<open>Number.MAX_SAFE_INTEGER\<close>, which is \<open>2 ^ 53 - 1\<close>. A key
  validated by \<^verbatim>\<open>z.unknown()\<close> accepts every value, \<^verbatim>\<open>undefined\<close> (an absent key)
  included.
\<close>

definition strict_keys :: "string list \<Rightarrow> (string \<times> json) list \<Rightarrow> bool" where
  "strict_keys shape kvs = list_all (\<lambda>kv. fst kv \<in> set shape) kvs"

definition z_string :: "json option \<Rightarrow> string option" where
  "z_string v = (case v of Some (JStr s) \<Rightarrow> Some s | _ \<Rightarrow> None)"

definition z_string_min1 :: "json option \<Rightarrow> string option" where
  "z_string_min1 v = (case v of Some (JStr s) \<Rightarrow> (if s = [] then None else Some s) | _ \<Rightarrow> None)"

definition MAX_SAFE_INTEGER :: rat where
  "MAX_SAFE_INTEGER = 9007199254740991"

definition z_number_int :: "json option \<Rightarrow> rat option" where
  "z_number_int v =
     (case v of
        Some (JNum n) \<Rightarrow>
          (if of_int \<lfloor>n\<rfloor> = n \<and> - MAX_SAFE_INTEGER \<le> n \<and> n \<le> MAX_SAFE_INTEGER
           then Some n else None)
      | _ \<Rightarrow> None)"

definition z_literal_num :: "rat \<Rightarrow> json option \<Rightarrow> bool" where
  "z_literal_num c v = (case v of Some (JNum n) \<Rightarrow> n = c | _ \<Rightarrow> False)"

definition ServerRequestMessageSchema :: "(string \<times> json) list \<Rightarrow> ServerMessage option" where
  "ServerRequestMessageSchema kvs =
     (if \<not> strict_keys [''type'', ''id'', ''body''] kvs then None
      else case z_string_min1 (obj_get kvs ''id'') of
             None \<Rightarrow> None
           | Some i \<Rightarrow> Some (ServerRequest i (obj_get kvs ''body'')))"

definition ServerPingMessageSchema :: "(string \<times> json) list \<Rightarrow> ServerMessage option" where
  "ServerPingMessageSchema kvs =
     (if \<not> strict_keys [''type'', ''ts''] kvs then None
      else case z_number_int (obj_get kvs ''ts'') of
             None \<Rightarrow> None
           | Some t \<Rightarrow> Some (ServerPing t))"

definition ServerAuthOkMessageSchema :: "(string \<times> json) list \<Rightarrow> ServerMessage option" where
  "ServerAuthOkMessageSchema kvs =
     (if \<not> strict_keys [''type'', ''pluginId'', ''protocol''] kvs then None
      else case z_string_min1 (obj_get kvs ''pluginId'') of
             None \<Rightarrow> None
           | Some p \<Rightarrow>
               (if z_literal_num SIXERR_PROTOCOL_VERSION (obj_get kvs ''protocol'')
                then Some (ServerAuthOk p) else None))"

definition ServerAuthErrorMessageSchema :: "(string \<times> json) list \<Rightarrow> ServerMessage option" where
  "ServerAuthErrorMessageSchema kvs =
     (if \<not> strict_keys [''type'', ''message''] kvs then None
      else case z_string (obj_get kvs ''message'') of
             None \<Rightarrow> None
           | Some m \<Rightarrow> Some (ServerAuthError m))"

definition ServerJwtRefreshMessageSchema :: "(string \<times> json) list \<Rightarrow> ServerMessage option" where
  "ServerJwtRefreshMessageSchema kvs =
     (if \<not> strict_keys [''type'', ''jwt''] kvs then None
      else case z_string_min1 (obj_get kvs ''jwt'') of
             None \<Rightarrow> None
           | Some t \<Rightarrow> Some (ServerJwtRefresh t))"

definition ServerPriceUpdateAckMessageSchema ::
  "(string \<times> json) list \<Rightarrow> ServerMessage option" where
  "ServerPriceUpdateAckMessageSchema kvs =
     (if \<not> strict_keys [''type'', ''inputTokenPrice'', ''outputTokenPrice''] kvs then None
      else case z_string_min1 (obj_get kvs ''inputTokenPrice'') of
             None \<Rightarrow> None
           | Some i \<Rightarrow>
               (case z_string_min1 (obj_get kvs ''outputTokenPrice'') of
                  None \<Rightarrow> None
                | Some o' \<Rightarrow> Some (ServerPriceUpdateAck i o')))"

text \<open>
  \<^verbatim>\<open>z.discriminatedUnion("type", [...])\<close>: the input must be an object whose \<^verbatim>\<open>type\<close> is
  the literal of one of the six members; that member then validates the whole object.
  \<open>None\<close> is \<^verbatim>\<open>safeParse\<close> returning \<^verbatim>\<open>success: false\<close>.
\<close>

definition ServerMessageSchema :: "json \<Rightarrow> ServerMessage option" where
  "ServerMessageSchema j =
     (case j of
        JObj kvs \<Rightarrow>
          (case obj_get kvs ''type'' of
             Some (JStr t) \<Rightarrow>
               (if t = ''request'' then ServerRequestMessageSchema kvs
                else if t = ''ping'' then ServerPingMessageSchema kvs
                else if t = ''auth_ok'' then ServerAuthOkMessageSchema kvs
                else if t = ''auth_error'' then ServerAuthErrorMessageSchema kvs
                else if t = ''jwt_refresh'' then ServerJwtRefreshMessageSchema kvs
                else if t = ''price_update_ack'' then ServerPriceUpdateAckMessageSchema kvs
                else None)
           | _ \<Rightarrow> None)
      | _ \<Rightarrow> None)"

section \<open>Strings as the relay uses them\<close>

definition NL :: char where
  "NL = CHR 0x0A"

text \<open>
  \<^verbatim>\<open>s.split(sep)\<close> for a non-empty separator: the pieces between the occurrences of \<open>sep\<close>
  found from left to right; there is always at least one piece.
\<close>

fun split_acc :: "string \<Rightarrow> string \<Rightarrow> string \<Rightarrow> string list" where
  "split_acc sep acc [] = [rev acc]"
| "split_acc sep acc (c # cs) =
     (if sep \<noteq> [] \<and> prefix sep (c # cs)
      then rev acc # split_acc sep [] (drop (length sep) (c # cs))
      else split_acc sep (c # acc) cs)"

definition split :: "string \<Rightarrow> string \<Rightarrow> string list" where
  "split sep s = split_acc sep [] s"

text \<open>
  A string is the list of its code units, and the model has the code units below 256.
  Among them the white space and line terminators of the language, which \<^verbatim>\<open>s.trim()\<close>
  and the conversions from strings to numbers strip, are tab, line feed, vertical tab,
  form feed, carriage return, space and the no-break space.
\<close>

definition is_space :: "char \<Rightarrow> bool" where
  "is_space c =
     (c \<in> {CHR 0x09, CHR 0x0A, CHR 0x0B, CHR 0x0C, CHR 0x0D, CHR '' '', CHR 0xA0})"

definition trim :: "string \<Rightarrow> string" where
  "trim s = rev (dropWhile is_space (rev (dropWhile is_space s)))"

text \<open>The decimal digits of a number, as a template literal prints an integer.\<close>

fun show_nat :: "nat \<Rightarrow> string" where
  "show_nat n =
     (if n < 10 then [''0123456789'' ! n]
      else show_nat (n div 10) @ [''0123456789'' ! (n mod 10)])"

section \<open>The gateway client (openclaw-client.ts)\<close>

record OpenClawClientConfig =
  gatewayUrl :: string
  gatewayToken :: string
  agentId :: "string option"
  timeoutMs :: "rat option"
  defaultModel :: "string option"

text \<open>An \<^verbatim>\<open>Error\<close> object: its name and its message.\<close>

datatype js_error = JsError string string

fun err_message :: "js_error \<Rightarrow> string" where
  "err_message (JsError n m) = m"

text \<open>\<^verbatim>\<open>String(err)\<close>.\<close>

fun error_to_string :: "js_error \<Rightarrow> string" where
  "error_to_string (JsError n m) = (if m = [] then n else n @ '': '' @ m)"

text \<open>
  What the gateway does with one non-streaming call, as the listeners of
  \<^verbatim>\<open>forwardToOpenClaw\<close> see it: the request fails (the \<^verbatim>\<open>error\<close> event of the request,
  which a timeout also leads to), or a response arrives with its status code (possibly
  undefined) and its whole body.
\<close>

datatype unary_exchange =
    UnaryRequestError js_error
  | UnaryResponse "nat option" string

fun show_status :: "nat option \<Rightarrow> string" where
  "show_status None = ''undefined''"
| "show_status (Some n) = show_nat n"

text \<open>The test \<^verbatim>\<open>res.statusCode !== undefined && res.statusCode >= 400\<close>.\<close>

definition is_error_status :: "nat option \<Rightarrow> bool" where
  "is_error_status statusCode = (case statusCode of None \<Rightarrow> False | Some n \<Rightarrow> n \<ge> 400)"

text \<open>\<open>Inl\<close> is the promise rejected, \<open>Inr\<close> the promise resolved.\<close>

definition forwardToOpenClaw ::
  "(string \<Rightarrow> json option) \<Rightarrow> (json \<Rightarrow> string) \<Rightarrow> OpenClawClientConfig \<Rightarrow> json
     \<Rightarrow> (json \<Rightarrow> unary_exchange) \<Rightarrow> js_error + json" where
  "forwardToOpenClaw parse stringify cfg requestBody gateway =
     (case gateway requestBody of
        UnaryRequestError err \<Rightarrow> Inl err
      | UnaryResponse statusCode raw \<Rightarrow>
          (case parse raw of
             None \<Rightarrow>
               Inl (JsError ''Error''
                      (''OpenClaw Gateway returned invalid JSON (status '' @ show_status statusCode
                       @ ''): '' @ take 200 raw))
           | Some parsed \<Rightarrow>
               (if is_error_status statusCode
                then Inl (JsError ''Error''
                            (''OpenClaw Gateway error (status '' @ show_status statusCode
                             @ ''): '' @ stringify parsed))
                else Inr parsed)))"

text \<open>
  What the gateway does with one streaming call, as the listeners of
  \<^verbatim>\<open>streamFromOpenClaw\<close> hear it. Either the request fails before any response (the
  \<^verbatim>\<open>error\<close> event of the request, which a timeout also leads to). Or a response arrives
  with its status code and the chunks of its body, followed by the first terminating
  event that has a listener: \<^verbatim>\<open>end\<close>, or an \<^verbatim>\<open>error\<close> event (of the response or of the
  request when the status is below 400; of the request only when it is an error status,
  where the response gets no \<^verbatim>\<open>error\<close> listener). No listener is ever removed and no
  flag records that the call has settled, so the \<^verbatim>\<open>error\<close> events that listeners hear
  after that first one are part of the exchange: when the request is destroyed in the
  middle of a body, by its timeout or by a reset of the connection, the request emits
  \<^verbatim>\<open>error\<close> and the response then emits \<^verbatim>\<open>error\<close> (aborted) as well.

  An exchange in which no listener hears any terminating event (a body with an error
  status that is cut) never settles the promise; it is not a value of this type.
\<close>

datatype stream_finish = StreamEnd | StreamFailure js_error

datatype stream_exchange =
    StreamRequestError js_error
  | StreamResponse "nat option" "string list" stream_finish "js_error list"

text \<open>
  \<^verbatim>\<open>StreamCallbacks\<close>. The callbacks change the state of their caller, of type \<open>'s\<close>;
  \<^verbatim>\<open>onEvent\<close> is called inside \<^verbatim>\<open>try { ... } catch\<close>, so an exception it raises is
  swallowed after the effects it already had.
\<close>

record 's StreamCallbacks =
  onEvent :: "json \<Rightarrow> 's \<Rightarrow> 's"
  onError :: "js_error \<Rightarrow> 's \<Rightarrow> 's"
  onDone :: "'s \<Rightarrow> 's"

text \<open>The \<^verbatim>\<open>data:\<close> lines of one block, joined by line feeds.\<close>

fun collect_data :: "string \<Rightarrow> string list \<Rightarrow> string" where
  "collect_data dataStr [] = dataStr"
| "collect_data dataStr (line # lines) =
     (if prefix ''event: '' line then collect_data dataStr lines
      else if prefix ''data: '' line
           then collect_data (dataStr @ (if dataStr \<noteq> [] then [NL] else []) @ drop 6 line) lines
           else collect_data dataStr lines)"

definition process_part ::
  "(string \<Rightarrow> json option) \<Rightarrow> 's StreamCallbacks \<Rightarrow> 's \<Rightarrow> string \<Rightarrow> 's" where
  "process_part parse callbacks s part =
     (if trim part = [] then s
      else if trim part = ''data: [DONE]'' then s
      else let dataStr = collect_data [] (split [NL] part)
           in if dataStr \<noteq> []
              then (case parse dataStr of
                      Some parsed \<Rightarrow> onEvent callbacks parsed s
                    | None \<Rightarrow> s)
              else s)"

text \<open>
  The listener for \<^verbatim>\<open>data\<close>: the state is the buffer and the caller's state. A chunk is
  taken as the text that the streaming decoder yields for it.
\<close>

definition on_data ::
  "(string \<Rightarrow> json option) \<Rightarrow> 's StreamCallbacks \<Rightarrow> string \<times> 's \<Rightarrow> string \<Rightarrow> string \<times> 's" where
  "on_data parse callbacks st chunk =
     (let buffer = fst st @ chunk;
          parts = split [NL, NL] buffer
      in (last parts, foldl (process_part parse callbacks) (snd st) (butlast parts)))"

text \<open>
  The promise is resolved by the first terminating event; later calls of \<^verbatim>\<open>resolve\<close>
  have no effect, but the callback before each of them is called all the same.
\<close>

definition streamFromOpenClaw ::
  "(string \<Rightarrow> json option) \<Rightarrow> OpenClawClientConfig \<Rightarrow> json \<Rightarrow> 's StreamCallbacks
     \<Rightarrow> (json \<Rightarrow> stream_exchange) \<Rightarrow> 's \<Rightarrow> 's" where
  "streamFromOpenClaw parse cfg requestBody callbacks gateway s =
     (case gateway requestBody of
        StreamRequestError err \<Rightarrow> onError callbacks err s
      | StreamResponse statusCode chunks fin later \<Rightarrow>
          (let settled =
                 (if is_error_status statusCode
                  then (case fin of
                          StreamEnd \<Rightarrow>
                            onError callbacks
                              (JsError ''Error''
                                 (''OpenClaw Gateway error (status '' @ show_status statusCode
                                  @ ''): '' @ take 500 (concat chunks))) s
                        | StreamFailure err \<Rightarrow> onError callbacks err s)
                  else let s1 = snd (foldl (on_data parse callbacks) ([], s) chunks)
                       in (case fin of
                             StreamEnd \<Rightarrow> onDone callbacks s1
                           | StreamFailure err \<Rightarrow> onError callbacks err s1))
           in foldl (\<lambda>s' err. onError callbacks err s') settled later))"

section \<open>The request relay (request-forwarder.ts)\<close>

text \<open>
  The object spread \<^verbatim>\<open>{ ...body }\<close>: the own properties of an object, the indexed
  elements of an array or of a string, nothing for any other value (\<open>None\<close> is
  \<^verbatim>\<open>undefined\<close>).
\<close>

definition object_spread :: "json option \<Rightarrow> (string \<times> json) list" where
  "object_spread body =
     (case body of
        Some (JObj kvs) \<Rightarrow> kvs
      | Some (JArr xs) \<Rightarrow> zip (map show_nat [0..<length xs]) xs
      | Some (JStr s) \<Rightarrow> zip (map show_nat [0..<length s]) (map (\<lambda>c. JStr [c]) s)
      | _ \<Rightarrow> [])"

text \<open>The assignment \<^verbatim>\<open>o[k] = v\<close>.\<close>

definition obj_set :: "(string \<times> json) list \<Rightarrow> string \<Rightarrow> json \<Rightarrow> (string \<times> json) list" where
  "obj_set kvs k v =
     (if k \<in> fst ` set kvs then map (\<lambda>kv. if fst kv = k then (k, v) else kv) kvs
      else kvs @ [(k, v)])"

text \<open>Truthiness of a value read from parsed JSON.\<close>

fun truthy :: "json option \<Rightarrow> bool" where
  "truthy None = False"
| "truthy (Some JNull) = False"
| "truthy (Some (JBool b)) = b"
| "truthy (Some (JNum n)) = (n \<noteq> 0)"
| "truthy (Some (JStr s)) = (s \<noteq> [])"
| "truthy (Some (JArr xs)) = True"
| "truthy (Some (JObj kvs)) = True"

text \<open>Property read on any value: only an object parsed from JSON has named properties.\<close>

fun get_prop :: "json option \<Rightarrow> string \<Rightarrow> json option" where
  "get_prop (Some (JObj kvs)) k = obj_get kvs k"
| "get_prop _ k = None"

text \<open>The four messages the relay sends.\<close>

definition response_message :: "string \<Rightarrow> json \<Rightarrow> json" where
  "response_message requestId body =
     JObj [(''type'', JStr ''response''), (''id'', JStr requestId), (''body'', body)]"

definition stream_event_message :: "string \<Rightarrow> json \<Rightarrow> json" where
  "stream_event_message requestId event =
     JObj [(''type'', JStr ''stream_event''), (''id'', JStr requestId), (''event'', event)]"

definition stream_end_message :: "string \<Rightarrow> json \<Rightarrow> json" where
  "stream_end_message requestId usage =
     JObj [(''type'', JStr ''stream_end''), (''id'', JStr requestId), (''usage'', usage)]"

definition plugin_error_message :: "string \<Rightarrow> string \<Rightarrow> json" where
  "plugin_error_message requestId message =
     JObj [(''type'', JStr ''error''), (''id'', JStr requestId),
           (''code'', JStr ''plugin_error''), (''message'', JStr message)]"

definition zero_usage :: json where
  "zero_usage =
     JObj [(''input_tokens'', JNum 0), (''output_tokens'', JNum 0), (''total_tokens'', JNum 0)]"

text \<open>
  The state the three callbacks share: the retained usage and, in order, the messages
  handed to \<^verbatim>\<open>sendMessage\<close>.
\<close>

record relay_state =
  usage :: json
  sent :: "json list"

text \<open>
  The test \<^verbatim>\<open>evt.type === "response.completed" && evt.response?.usage\<close>: the usage that
  a completed event carries, if it carries a truthy one.
\<close>

definition completed_usage :: "json \<Rightarrow> json option" where
  "completed_usage event =
     (if get_prop (Some event) ''type'' = Some (JStr ''response.completed'')
      then (case get_prop (get_prop (Some event) ''response'') ''usage'' of
              Some u \<Rightarrow> (if truthy (Some u) then Some u else None)
            | None \<Rightarrow> None)
      else None)"

text \<open>
  \<^verbatim>\<open>onEvent\<close> first sends, then looks for the usage. On the event \<^verbatim>\<open>null\<close> the property
  read raises after the send; the caller swallows the exception, and the usage stays.
\<close>

definition relay_onEvent :: "string \<Rightarrow> json \<Rightarrow> relay_state \<Rightarrow> relay_state" where
  "relay_onEvent requestId event s =
     (let s1 = s\<lparr>sent := sent s @ [stream_event_message requestId event]\<rparr>
      in case completed_usage event of
           Some u \<Rightarrow> s1\<lparr>usage := u\<rparr>
         | None \<Rightarrow> s1)"

definition relay_onError :: "string \<Rightarrow> js_error \<Rightarrow> relay_state \<Rightarrow> relay_state" where
  "relay_onError requestId err s =
     s\<lparr>sent := sent s @ [plugin_error_message requestId (err_message err)]\<rparr>"

definition relay_onDone :: "string \<Rightarrow> relay_state \<Rightarrow> relay_state" where
  "relay_onDone requestId s = s\<lparr>sent := sent s @ [stream_end_message requestId (usage s)]\<rparr>"

definition relay_callbacks :: "string \<Rightarrow> relay_state StreamCallbacks" where
  "relay_callbacks requestId =
     \<lparr>onEvent = relay_onEvent requestId, onError = relay_onError requestId,
      onDone = relay_onDone requestId\<rparr>"

text \<open>The local gateway: what it answers to a non-streaming and to a streaming call.\<close>

record gateway =
  unary :: "json \<Rightarrow> unary_exchange"
  streaming :: "json \<Rightarrow> stream_exchange"

datatype promise = Fulfilled | Rejected js_error

definition forward_body :: "json option \<Rightarrow> OpenClawClientConfig \<Rightarrow> (string \<times> json) list" where
  "forward_body body openClawConfig =
     (let forwardBody = object_spread body
      in if obj_get forwardBody ''model'' = Some (JStr ''default'')
            \<or> \<not> truthy (obj_get forwardBody ''model'')
         then obj_set forwardBody ''model''
                (JStr (case defaultModel openClawConfig of
                         None \<Rightarrow> ''kimi-coding/k2p5''
                       | Some m \<Rightarrow> m))
         else forwardBody)"

definition isStreaming :: "(string \<times> json) list \<Rightarrow> bool" where
  "isStreaming forwardBody = (obj_get forwardBody ''stream'' = Some (JBool True))"

text \<open>
  The result: the messages handed to \<^verbatim>\<open>sendMessage\<close> for the request, in order, those
  that the callbacks send after the promise has settled included, and how the returned
  promise settles. The \<^verbatim>\<open>catch\<close> block turns a rejection of \<^verbatim>\<open>forwardToOpenClaw\<close> into
  an error message; \<^verbatim>\<open>streamFromOpenClaw\<close> never rejects.
\<close>

definition handleIncomingRequest ::
  "(string \<Rightarrow> json option) \<Rightarrow> (json \<Rightarrow> string) \<Rightarrow> string \<Rightarrow> json option
     \<Rightarrow> OpenClawClientConfig \<Rightarrow> gateway \<Rightarrow> json list \<times> promise" where
  "handleIncomingRequest parse stringify requestId body openClawConfig gw =
     (let forwardBody = forward_body body openClawConfig
      in if isStreaming forwardBody
         then (sent (streamFromOpenClaw parse openClawConfig (JObj forwardBody)
                       (relay_callbacks requestId) (streaming gw)
                       \<lparr>usage = zero_usage, sent = []\<rparr>),
               Fulfilled)
         else (case forwardToOpenClaw parse stringify openClawConfig
                      (JObj (obj_set forwardBody ''stream'' (JBool False))) (unary gw) of
                 Inr response \<Rightarrow> ([response_message requestId response], Fulfilled)
               | Inl err \<Rightarrow>
                   ([plugin_error_message requestId
                       (if err_message err \<noteq> [] then err_message err else error_to_string err)],
                    Fulfilled)))"

section \<open>What the relay is compared with\<close>

text \<open>
  The events that \<^verbatim>\<open>streamFromOpenClaw\<close> decodes from the chunks of a response body, in the
  order in which it hands them to \<^verbatim>\<open>onEvent\<close>: the listener for \<^verbatim>\<open>data\<close> run with
  callbacks that only record.
\<close>

definition recorder :: "json list StreamCallbacks" where
  "recorder = \<lparr>onEvent = (\<lambda>event evs. evs @ [event]), onError = (\<lambda>err evs. evs),
               onDone = (\<lambda>evs. evs)\<rparr>"

definition decoded_events :: "(string \<Rightarrow> json option) \<Rightarrow> string list \<Rightarrow> json list" where
  "decoded_events parse chunks = snd (foldl (on_data parse recorder) ([], []) chunks)"

text \<open>
  The usage carried by the last event of the list that is a \<^verbatim>\<open>response.completed\<close> event
  with a usage; the zero counters when there is none.
\<close>

definition last_usage :: "json \<Rightarrow> json list \<Rightarrow> json" where
  "last_usage none evs =
     (case rev (List.map_filter completed_usage evs) of
        [] \<Rightarrow> none
      | u # us \<Rightarrow> u)"

definition final_usage :: "json list \<Rightarrow> json" where
  "final_usage evs = last_usage zero_usage evs"

definition msg_type :: "json \<Rightarrow> json option" where
  "msg_type msg = get_prop (Some msg) ''type''"

text \<open>A terminal message for a request: a response, a stream end or an error with its id.\<close>

definition is_terminal :: "string \<Rightarrow> json \<Rightarrow> bool" where
  "is_terminal requestId msg =
     (get_prop (Some msg) ''id'' = Some (JStr requestId)
      \<and> msg_type msg \<in> {Some (JStr ''response''), Some (JStr ''stream_end''),
                         Some (JStr ''error'')})"

definition relay_messages ::
  "(string \<Rightarrow> json option) \<Rightarrow> (json \<Rightarrow> string) \<Rightarrow> string \<Rightarrow> json option
     \<Rightarrow> OpenClawClientConfig \<Rightarrow> gateway \<Rightarrow> json list" where
  "relay_messages parse stringify requestId body cfg gw =
     fst (handleIncomingRequest parse stringify requestId body cfg gw)"

text \<open>
  The two calls of the gateway that the relay can make for a request: the body it sends
  with a non-streaming call and what the gateway does with it, and what the gateway does
  with the streaming call.
\<close>

definition unary_call :: "json option \<Rightarrow> OpenClawClientConfig \<Rightarrow> gateway \<Rightarrow> unary_exchange" where
  "unary_call body cfg gw =
     unary gw (JObj (obj_set (forward_body body cfg) ''stream'' (JBool False)))"

definition stream_call :: "json option \<Rightarrow> OpenClawClientConfig \<Rightarrow> gateway \<Rightarrow> stream_exchange" where
  "stream_call body cfg gw = streaming gw (JObj (forward_body body cfg))"

text \<open>
  The error events that the listeners of the call hear after the one that settled it, and
  the message that the relay sends for each.
\<close>

definition later_errors :: "json option \<Rightarrow> OpenClawClientConfig \<Rightarrow> gateway \<Rightarrow> js_error list" where
  "later_errors body cfg gw =
     (if isStreaming (forward_body body cfg)
      then (case stream_call body cfg gw of
              StreamRequestError err \<Rightarrow> []
            | StreamResponse statusCode chunks fin later \<Rightarrow> later)
      else [])"

definition error_messages :: "string \<Rightarrow> js_error list \<Rightarrow> json list" where
  "error_messages requestId errs =
     map (\<lambda>err. plugin_error_message requestId (err_message err)) errs"

text \<open>The event that one block of the stream decodes to, and the events of a chunk.\<close>

definition part_event :: "(string \<Rightarrow> json option) \<Rightarrow> string \<Rightarrow> json option" where
  "part_event parse part =
     (if trim part = [] then None
      else if trim part = ''data: [DONE]'' then None
      else let dataStr = collect_data [] (split [NL] part)
           in if dataStr \<noteq> [] then parse dataStr else None)"

definition chunk_events :: "(string \<Rightarrow> json option) \<Rightarrow> string \<Rightarrow> string \<Rightarrow> json list" where
  "chunk_events parse buffer chunk =
     List.map_filter (part_event parse) (butlast (split [NL, NL] (buffer @ chunk)))"

fun all_events :: "(string \<Rightarrow> json option) \<Rightarrow> string \<Rightarrow> string list \<Rightarrow> json list" where
  "all_events parse buffer [] = []"
| "all_events parse buffer (chunk # chunks) =
     chunk_events parse buffer chunk
     @ all_events parse (last (split [NL, NL] (buffer @ chunk))) chunks"

section \<open>The connection client (ws-client.ts, class PluginClient)\<close>

datatype ConnectionStatus = connecting | authenticating | connected | reconnecting | disconnected

text \<open>The \<^verbatim>\<open>readyState\<close> of a socket of the \<^verbatim>\<open>ws\<close> library.\<close>

datatype ReadyState = CONNECTING | OPEN | CLOSING | CLOSED

record PluginClientConfig =
  serverUrl :: string
  jwt :: string
  pricing :: "(string \<times> string) option"
  agentName :: "string option"
  agentDescription :: "string option"
  onJwtRefresh :: bool
  onPriceUpdateAck :: bool
  openClawConfig :: OpenClawClientConfig

text \<open>
  What the client does to the outside, in the order it does it: the calls of the status
  callback and of the optional callbacks, the sockets it creates, writes to and closes,
  the timers it sets and clears, the relay tasks it launches and the lines it logs.
\<close>

datatype effect =
    StatusChange ConnectionStatus "string option" nat
  | NewSocket nat string
  | SocketSend nat json
  | SocketClose nat nat string
  | SetTimeout nat js_number
  | ClearTimeout nat
  | JwtRefreshCallback string
  | PriceUpdateAckCallback string string
  | RelayStart string "json option"
  | ConsoleError
  | ConsoleLog

text \<open>
  The fields of the class, followed by the part of the runtime the class reads and drives:
  \<open>sockets\<close> holds the \<^verbatim>\<open>readyState\<close> of every socket created so far (a socket is
  named by its index), \<open>timers\<close> the pending \<^verbatim>\<open>setTimeout\<close> handles.
  The fields \<^verbatim>\<open>onJwtRefresh\<close> and \<^verbatim>\<open>onPriceUpdateAck\<close> of the configuration say whether
  the optional callback is present.
\<close>

record PluginClient =
  ws :: "nat option"
  status :: ConnectionStatus
  reconnectAttempt :: int
  closed :: bool
  requestCount :: nat
  pluginId :: "string option"
  reconnectTimer :: "nat option"
  policy :: BackoffPolicy
  config :: PluginClientConfig
  sockets :: "ReadyState list"
  timers :: "nat list"
  nextTimer :: nat

definition new_PluginClient :: "PluginClientConfig \<Rightarrow> BackoffPolicy option \<Rightarrow> PluginClient" where
  "new_PluginClient cfg reconnectPolicy =
     \<lparr>ws = None, status = disconnected, reconnectAttempt = 0, closed = True,
      requestCount = 0, pluginId = None, reconnectTimer = None,
      policy = (case reconnectPolicy of None \<Rightarrow> DEFAULT_RECONNECT_POLICY | Some p \<Rightarrow> p),
      config = cfg, sockets = [], timers = [], nextTimer = 0\<rparr>"

definition readyState :: "PluginClient \<Rightarrow> nat \<Rightarrow> ReadyState" where
  "readyState c s = (if s < length (sockets c) then sockets c ! s else CLOSED)"

definition set_readyState :: "nat \<Rightarrow> ReadyState \<Rightarrow> PluginClient \<Rightarrow> PluginClient" where
  "set_readyState s r c = c\<lparr>sockets := (sockets c)[s := r]\<rparr>"

text \<open>\<^verbatim>\<open>ws.close(code, reason)\<close>: a socket that is not yet closed starts closing.\<close>

definition socket_close :: "nat \<Rightarrow> PluginClient \<Rightarrow> PluginClient" where
  "socket_close s c = (if readyState c s = CLOSED then c else set_readyState s CLOSING c)"

definition getStatus :: "PluginClient \<Rightarrow> ConnectionStatus" where
  "getStatus c = status c"

definition getPluginId :: "PluginClient \<Rightarrow> string option" where
  "getPluginId c = pluginId c"

definition getRequestCount :: "PluginClient \<Rightarrow> nat" where
  "getRequestCount c = requestCount c"

definition setStatus :: "ConnectionStatus \<Rightarrow> PluginClient \<Rightarrow> PluginClient \<times> effect list" where
  "setStatus s c = (c\<lparr>status := s\<rparr>, [StatusChange s (pluginId c) (requestCount c)])"

text \<open>
  \<^verbatim>\<open>sendMessage\<close> writes only to the current socket and only when it is open; a failure
  of \<^verbatim>\<open>ws.send\<close> is caught and logged. The message is kept as the value that is
  serialised.
\<close>

definition sendMessage :: "json \<Rightarrow> PluginClient \<Rightarrow> effect list" where
  "sendMessage msg c =
     (case ws c of
        None \<Rightarrow> []
      | Some s \<Rightarrow> (if readyState c s \<noteq> OPEN then [] else [SocketSend s msg]))"

definition updatePricing :: "string \<Rightarrow> string \<Rightarrow> PluginClient \<Rightarrow> PluginClient \<times> effect list" where
  "updatePricing inputTokenPrice outputTokenPrice c =
     (c, sendMessage (JObj [(''type'', JStr ''price_update''),
                            (''inputTokenPrice'', JStr inputTokenPrice),
                            (''outputTokenPrice'', JStr outputTokenPrice)]) c)"

definition connect :: "PluginClient \<Rightarrow> PluginClient \<times> effect list" where
  "connect c =
     (if closed c then (c, [])
      else let (c1, e1) = setStatus connecting c;
               s = length (sockets c1);
               c2 = c1\<lparr>sockets := sockets c1 @ [CONNECTING], ws := Some s\<rparr>
           in (c2, e1 @ [NewSocket s (serverUrl (config c))]))"

definition start :: "PluginClient \<Rightarrow> PluginClient \<times> effect list" where
  "start c = connect (c\<lparr>closed := False\<rparr>)"

definition stop :: "PluginClient \<Rightarrow> PluginClient \<times> effect list" where
  "stop c =
     (let c1 = c\<lparr>closed := True\<rparr>;
          (c2, e2) = (case reconnectTimer c1 of
                        None \<Rightarrow> (c1, [])
                      | Some t \<Rightarrow> (c1\<lparr>reconnectTimer := None, timers := removeAll t (timers c1)\<rparr>,
                                   [ClearTimeout t]));
          (c3, e3) = (case ws c2 of
                        None \<Rightarrow> (c2, [])
                      | Some s \<Rightarrow> ((socket_close s c2)\<lparr>ws := None\<rparr>,
                                   [SocketClose s 1000 ''plugin stopping'']));
          (c4, e4) = setStatus disconnected c3
      in (c4, e2 @ e3 @ e4))"

definition scheduleReconnect :: "js_number \<Rightarrow> PluginClient \<Rightarrow> PluginClient \<times> effect list" where
  "scheduleReconnect u c =
     (if closed c then setStatus disconnected c
      else let (c1, e1) = setStatus reconnecting c;
               c2 = c1\<lparr>reconnectAttempt := reconnectAttempt c1 + 1\<rparr>;
               delayMs = computeBackoff (policy c2) (reconnectAttempt c2) u;
               t = nextTimer c2;
               c3 = c2\<lparr>reconnectTimer := Some t, timers := timers c2 @ [t], nextTimer := t + 1\<rparr>
           in (c3, e1 @ [SetTimeout t delayMs, ConsoleLog]))"

text \<open>The message sent when a socket opens.\<close>

definition auth_message :: "PluginClientConfig \<Rightarrow> json" where
  "auth_message cfg =
     JObj ([(''type'', JStr ''auth''), (''jwt'', JStr (jwt cfg)),
            (''protocol'', JNum SIXERR_PROTOCOL_VERSION)]
           @ (case pricing cfg of
                None \<Rightarrow> []
              | Some (i, o') \<Rightarrow> [(''inputTokenPrice'', JStr i), (''outputTokenPrice'', JStr o')])
           @ (case agentName cfg of
                None \<Rightarrow> []
              | Some n \<Rightarrow> (if n = [] then [] else [(''agentName'', JStr n)]))
           @ (case agentDescription cfg of
                None \<Rightarrow> []
              | Some d \<Rightarrow> (if d = [] then [] else [(''agentDescription'', JStr d)])))"

text \<open>The four listeners that \<^verbatim>\<open>connect\<close> registers on the socket \<open>s\<close> it creates.\<close>

definition on_open :: "nat \<Rightarrow> PluginClient \<Rightarrow> PluginClient \<times> effect list" where
  "on_open s c =
     (let (c1, e1) = setStatus authenticating (set_readyState s OPEN c)
      in (c1, e1 @ sendMessage (auth_message (config c1)) c1))"

definition on_close :: "nat \<Rightarrow> nat \<Rightarrow> js_number \<Rightarrow> PluginClient \<Rightarrow> PluginClient \<times> effect list" where
  "on_close s code u c =
     (let c1 = (set_readyState s CLOSED c)\<lparr>ws := None\<rparr>;
          c2 = (if code = 1012 then c1\<lparr>reconnectAttempt := 0\<rparr> else c1)
      in scheduleReconnect u c2)"

definition on_error :: "nat \<Rightarrow> PluginClient \<Rightarrow> PluginClient \<times> effect list" where
  "on_error s c = (c, [ConsoleError])"

definition handleMessage ::
  "(string \<Rightarrow> json option) \<Rightarrow> string \<Rightarrow> PluginClient \<Rightarrow> PluginClient \<times> effect list" where
  "handleMessage parse raw c =
     (case parse raw of
        None \<Rightarrow> (c, [])
      | Some parsed \<Rightarrow>
          (case ServerMessageSchema parsed of
             None \<Rightarrow> (c, [])
           | Some (ServerAuthOk p) \<Rightarrow>
               setStatus connected (c\<lparr>pluginId := Some p, reconnectAttempt := 0\<rparr>)
           | Some (ServerAuthError m) \<Rightarrow>
               (let c1 = c\<lparr>closed := True\<rparr>;
                    (c2, e2) = (case ws c1 of
                                  None \<Rightarrow> (c1, [])
                                | Some s \<Rightarrow> ((socket_close s c1)\<lparr>ws := None\<rparr>,
                                             [SocketClose s 1000 ''auth failed'']));
                    (c3, e3) = setStatus disconnected c2
                in (c3, e2 @ e3 @ [ConsoleError]))
           | Some (ServerJwtRefresh t) \<Rightarrow>
               (c\<lparr>config := (config c)\<lparr>jwt := t\<rparr>\<rparr>,
                if onJwtRefresh (config c) then [JwtRefreshCallback t] else [])
           | Some (ServerPriceUpdateAck i o') \<Rightarrow>
               (c\<lparr>config := (config c)\<lparr>pricing := Some (i, o')\<rparr>\<rparr>,
                if onPriceUpdateAck (config c) then [PriceUpdateAckCallback i o'] else [])
           | Some (ServerPing t) \<Rightarrow>
               (c, sendMessage (JObj [(''type'', JStr ''pong''), (''ts'', JNum t)]) c)
           | Some (ServerRequest i body) \<Rightarrow> (c, [RelayStart i body])))"

definition on_message ::
  "(string \<Rightarrow> json option) \<Rightarrow> nat \<Rightarrow> string \<Rightarrow> PluginClient \<Rightarrow> PluginClient \<times> effect list" where
  "on_message parse s raw c = handleMessage parse raw c"

text \<open>
  The continuation \<^verbatim>\<open>.then(...)\<close> that the request case attaches to the promise of
  \<^verbatim>\<open>handleIncomingRequest\<close>; it runs when that promise is fulfilled.
\<close>

definition on_relay_fulfilled :: "PluginClient \<Rightarrow> PluginClient \<times> effect list" where
  "on_relay_fulfilled c =
     (let c1 = c\<lparr>requestCount := requestCount c + 1\<rparr>
      in (c1, [StatusChange connected (pluginId c1) (requestCount c1)]))"

text \<open>The handler \<^verbatim>\<open>.catch(...)\<close> of the same promise, should it be rejected.\<close>

definition on_relay_rejected :: "js_error \<Rightarrow> PluginClient \<Rightarrow> PluginClient \<times> effect list" where
  "on_relay_rejected err c = (c, [ConsoleError])"

definition on_relay_settled :: "promise \<Rightarrow> PluginClient \<Rightarrow> PluginClient \<times> effect list" where
  "on_relay_settled p c =
     (case p of Fulfilled \<Rightarrow> on_relay_fulfilled c | Rejected err \<Rightarrow> on_relay_rejected err c)"

text \<open>The callback of \<^verbatim>\<open>setTimeout\<close>; a handle that was cleared never fires.\<close>

definition on_timer :: "nat \<Rightarrow> PluginClient \<Rightarrow> PluginClient \<times> effect list" where
  "on_timer t c =
     (if t \<in> set (timers c) then connect (c\<lparr>timers := removeAll t (timers c)\<rparr>) else (c, []))"

text \<open>
  Everything that can happen to a client: a call of its public interface, an event of one
  of its sockets (a close event carries the close code and the draw of \<^verbatim>\<open>Math.random\<close>
  that \<^verbatim>\<open>scheduleReconnect\<close> will use), a timer firing, a relay task sending a message,
  the promise of a relay task settling.
\<close>

datatype event =
    Start
  | Stop
  | UpdatePricing string string
  | WsOpen nat
  | WsMessage nat string
  | WsClose nat nat js_number
  | WsError nat
  | TimerFired nat
  | RelaySend json
  | RelaySettled promise

fun step :: "(string \<Rightarrow> json option) \<Rightarrow> event \<Rightarrow> PluginClient \<Rightarrow> PluginClient \<times> effect list" where
  "step parse Start c = start c"
| "step parse Stop c = stop c"
| "step parse (UpdatePricing i o') c = updatePricing i o' c"
| "step parse (WsOpen s) c = on_open s c"
| "step parse (WsMessage s raw) c = on_message parse s raw c"
| "step parse (WsClose s code u) c = on_close s code u c"
| "step parse (WsError s) c = on_error s c"
| "step parse (TimerFired t) c = on_timer t c"
| "step parse (RelaySend msg) c = (c, sendMessage msg c)"
| "step parse (RelaySettled p) c = on_relay_settled p c"

fun run :: "(string \<Rightarrow> json option) \<Rightarrow> event list \<Rightarrow> PluginClient \<Rightarrow> PluginClient \<times> effect list" where
  "run parse [] c = (c, [])"
| "run parse (ev # evs) c =
     (let (c1, e1) = step parse ev c;
          (c2, e2) = run parse evs c1
      in (c2, e1 @ e2))"


section \<open>Predicates on frames, events and effects used in the statements\<close>

definition validated :: "(string \<Rightarrow> json option) \<Rightarrow> string \<Rightarrow> ServerMessage option" where
  "validated parse raw = (case parse raw of None \<Rightarrow> None | Some j \<Rightarrow> ServerMessageSchema j)"

definition is_auth_error :: "(string \<Rightarrow> json option) \<Rightarrow> string \<Rightarrow> bool" where
  "is_auth_error parse raw =
     (case validated parse raw of Some (ServerAuthError m) \<Rightarrow> True | _ \<Rightarrow> False)"

definition is_auth_ok :: "(string \<Rightarrow> json option) \<Rightarrow> string \<Rightarrow> bool" where
  "is_auth_ok parse raw =
     (case validated parse raw of Some (ServerAuthOk p) \<Rightarrow> True | _ \<Rightarrow> False)"

fun is_auth_error_event :: "(string \<Rightarrow> json option) \<Rightarrow> event \<Rightarrow> bool" where
  "is_auth_error_event parse (WsMessage s raw) = is_auth_error parse raw"
| "is_auth_error_event parse ev = False"

fun is_auth_ok_event :: "(string \<Rightarrow> json option) \<Rightarrow> event \<Rightarrow> bool" where
  "is_auth_ok_event parse (WsMessage s raw) = is_auth_ok parse raw"
| "is_auth_ok_event parse ev = False"

fun is_open_event :: "event \<Rightarrow> bool" where
  "is_open_event (WsOpen s) = True"
| "is_open_event ev = False"

fun is_reconnect_effect :: "effect \<Rightarrow> bool" where
  "is_reconnect_effect (NewSocket s url) = True"
| "is_reconnect_effect (SetTimeout t d) = True"
| "is_reconnect_effect e = False"

text \<open>The number of relay promises that are fulfilled in a sequence of events.\<close>

definition fulfilled_count :: "event list \<Rightarrow> nat" where
  "fulfilled_count evs = length (filter (\<lambda>ev. ev = RelaySettled Fulfilled) evs)"

text \<open>The literals of the six members of the server message union, and their shapes.\<close>

definition known_types :: "string list" where
  "known_types =
     [''request'', ''ping'', ''auth_ok'', ''auth_error'', ''jwt_refresh'', ''price_update_ack'']"

definition shape_of :: "string \<Rightarrow> string list" where
  "shape_of t =
     (if t = ''request'' then [''type'', ''id'', ''body'']
      else if t = ''ping'' then [''type'', ''ts'']
      else if t = ''auth_ok'' then [''type'', ''pluginId'', ''protocol'']
      else if t = ''auth_error'' then [''type'', ''message'']
      else if t = ''jwt_refresh'' then [''type'', ''jwt'']
      else if t = ''price_update_ack'' then [''type'', ''inputTokenPrice'', ''outputTokenPrice'']
      else [])"

section \<open>A concrete client, for the closed examples\<close>

definition example_config :: PluginClientConfig where
  "example_config =
     \<lparr>serverUrl = ''ws://127.0.0.1:8080'', jwt = ''test-token'', pricing = None,
      agentName = None, agentDescription = None, onJwtRefresh = False,
      onPriceUpdateAck = False,
      openClawConfig = \<lparr>gatewayUrl = ''http://127.0.0.1:18789'', gatewayToken = ''test-token'',
                        agentId = None, timeoutMs = None, defaultModel = None\<rparr>\<rparr>"

text \<open>Six frames, named instead of spelled out, and the value each parses to.\<close>

definition example_frames :: "(string \<times> json) list" where
  "example_frames =
     [(''AUTH_OK'', JObj [(''type'', JStr ''auth_ok''), (''pluginId'', JStr ''p-1''),
                          (''protocol'', JNum 2)]),
      (''AUTH_ERROR'', JObj [(''type'', JStr ''auth_error''),
                             (''message'', JStr ''Invalid API key'')]),
      (''AUTH_OK_V1'', JObj [(''type'', JStr ''auth_ok''), (''pluginId'', JStr ''p-1''),
                             (''protocol'', JNum 1)]),
      (''UNKNOWN_TYPE'', JObj [(''type'', JStr ''shutdown'')]),
      (''PING_EXTRA'', JObj [(''type'', JStr ''ping''), (''ts'', JNum 7), (''seq'', JNum 1)]),
      (''PING_UNSAFE'', JObj [(''type'', JStr ''ping''), (''ts'', JNum 9007199254740992)])]"

definition example_parse :: "string \<Rightarrow> json option" where
  "example_parse raw = map_of example_frames raw"

text \<open>The client after \<^verbatim>\<open>start()\<close>, the opening of its socket and a valid \<^verbatim>\<open>auth_ok\<close>.\<close>

definition example_connected :: PluginClient where
  "example_connected =
     fst (run example_parse [Start, WsOpen 0, WsMessage 0 ''AUTH_OK'']
            (new_PluginClient example_config None))"

section \<open>A concrete gateway, for the closed examples\<close>

text \<open>Two payloads of \<^verbatim>\<open>data:\<close> lines, named instead of spelled out.\<close>

definition example_delta :: json where
  "example_delta =
     JObj [(''type'', JStr ''response.output_text.delta''), (''delta'', JStr ''Hi'')]"

definition example_usage :: json where
  "example_usage =
     JObj [(''input_tokens'', JNum 3), (''output_tokens'', JNum 5), (''total_tokens'', JNum 8)]"

definition example_completed :: json where
  "example_completed =
     JObj [(''type'', JStr ''response.completed''),
           (''response'', JObj [(''usage'', example_usage)])]"

definition example_sse_parse :: "string \<Rightarrow> json option" where
  "example_sse_parse raw =
     map_of [(''DELTA'', example_delta), (''COMPLETED'', example_completed)] raw"

text \<open>
  A body in two chunks: the first block is cut in the middle of its blank line, the last
  block is the termination sentinel.
\<close>

definition example_chunks :: "string list" where
  "example_chunks =
     [''data: DELTA'' @ [NL],
      [NL] @ ''event: response.completed'' @ [NL] @ ''data: COMPLETED'' @ [NL, NL]
        @ ''data: [DONE]'' @ [NL, NL]]"

definition example_stringify :: "json \<Rightarrow> string" where
  "example_stringify j = ''{}''"

text \<open>
  A gateway that refuses non-streaming calls and answers a streaming call with the two
  chunks, finished as given and with no later event; and one whose streaming call times
  out after the two chunks: the request is destroyed with the timeout error and the
  response is aborted.
\<close>

definition example_gateway :: "stream_finish \<Rightarrow> gateway" where
  "example_gateway fin =
     \<lparr>unary = (\<lambda>req. UnaryRequestError (JsError ''Error'' ''connect ECONNREFUSED'')),
      streaming = (\<lambda>req. StreamResponse (Some 200) example_chunks fin [])\<rparr>"

definition example_timeout_gateway :: gateway where
  "example_timeout_gateway =
     \<lparr>unary = (\<lambda>req. UnaryRequestError (JsError ''Error'' ''connect ECONNREFUSED'')),
      streaming = (\<lambda>req. StreamResponse (Some 200) example_chunks
                    (StreamFailure
                       (JsError ''Error'' ''OpenClaw Gateway streaming request timed out''))
                    [JsError ''Error'' ''aborted''])\<rparr>"

definition example_stream_body :: "json option" where
  "example_stream_body = Some (JObj [(''model'', JStr ''default''), (''stream'', JBool True)])"

definition example_unary_body :: "json option" where
  "example_unary_body = Some (JObj [(''input'', JStr ''Hello'')])"

section \<open>Numbers read from strings\<close>

text \<open>
  The conversion \<^verbatim>\<open>Number(s)\<close>: the string is trimmed of white space, the empty string is
  0, and a numeric literal is the double nearest to the value it denotes (for a decimal
  literal of more than 20 significant digits the language allows the last place to
  differ; it is taken as correctly rounded). Anything else is \<^verbatim>\<open>NaN\<close>.
\<close>

fun negate :: "js_number \<Rightarrow> js_number" where
  "negate NaN = NaN"
| "negate (Finite r) = Finite (- r)"
| "negate PosInfinity = NegInfinity"
| "negate NegInfinity = PosInfinity"

definition is_digit :: "char \<Rightarrow> bool" where
  "is_digit c = (c \<in> set ''0123456789'')"

text \<open>The value of a digit in a radix up to 16, if it is one.\<close>

definition digit_in :: "nat \<Rightarrow> char \<Rightarrow> nat option" where
  "digit_in radix c =
     (let v = (if c \<in> set ''0123456789'' then Some (of_char c - 48)
               else if c \<in> set ''abcdef'' then Some (of_char c - 87)
               else if c \<in> set ''ABCDEF'' then Some (of_char c - 55)
               else None)
      in case v of None \<Rightarrow> None | Some n \<Rightarrow> (if n < radix then Some n else None))"

fun radix_acc :: "nat \<Rightarrow> nat \<Rightarrow> string \<Rightarrow> nat option" where
  "radix_acc radix acc [] = Some acc"
| "radix_acc radix acc (c # cs) =
     (case digit_in radix c of
        None \<Rightarrow> None
      | Some d \<Rightarrow> radix_acc radix (radix * acc + d) cs)"

text \<open>A non-empty run of digits of the radix, and nothing else.\<close>

definition radix_value :: "nat \<Rightarrow> string \<Rightarrow> nat option" where
  "radix_value radix ds = (if ds = [] then None else radix_acc radix 0 ds)"

text \<open>\<^verbatim>\<open>0x\<close>, \<^verbatim>\<open>0o\<close> and \<^verbatim>\<open>0b\<close> literals (the letter in either case).\<close>

definition non_decimal_literal :: "string \<Rightarrow> nat option" where
  "non_decimal_literal t =
     (case t of
        c0 # c1 # ds \<Rightarrow>
          (if c0 \<noteq> CHR ''0'' then None
           else if c1 = CHR ''x'' \<or> c1 = CHR ''X'' then radix_value 16 ds
           else if c1 = CHR ''o'' \<or> c1 = CHR ''O'' then radix_value 8 ds
           else if c1 = CHR ''b'' \<or> c1 = CHR ''B'' then radix_value 2 ds
           else None)
      | _ \<Rightarrow> None)"

text \<open>An optional sign followed by decimal digits, and nothing else.\<close>

definition signed_integer :: "string \<Rightarrow> int option" where
  "signed_integer s =
     (case s of
        [] \<Rightarrow> None
      | c # ds \<Rightarrow>
          (if c = CHR ''+'' then map_option int (radix_value 10 ds)
           else if c = CHR ''-'' then map_option (\<lambda>n. - int n) (radix_value 10 ds)
           else map_option int (radix_value 10 s)))"

text \<open>The optional exponent part at the end of a decimal literal.\<close>

definition exponent_part :: "string \<Rightarrow> int option" where
  "exponent_part r =
     (case r of
        [] \<Rightarrow> Some 0
      | c # r' \<Rightarrow> (if c = CHR ''e'' \<or> c = CHR ''E'' then signed_integer r' else None))"

definition scale10 :: "rat \<Rightarrow> int \<Rightarrow> rat" where
  "scale10 m e = (if 0 \<le> e then m * 10 ^ nat e else m / 10 ^ nat (- e))"

text \<open>
  \<^verbatim>\<open>Infinity\<close>, digits with an optional fraction, or a fraction with at least one digit,
  followed by an optional exponent.
\<close>

definition unsigned_decimal :: "string \<Rightarrow> js_number" where
  "unsigned_decimal r =
     (if r = ''Infinity'' then PosInfinity
      else let ip = takeWhile is_digit r;
               r1 = dropWhile is_digit r;
               dot = (r1 \<noteq> [] \<and> hd r1 = CHR ''.'');
               fp = (if dot then takeWhile is_digit (tl r1) else []);
               r2 = (if dot then dropWhile is_digit (tl r1) else r1)
           in if ip = [] \<and> fp = [] then NaN
              else (case exponent_part r2 of
                      None \<Rightarrow> NaN
                    | Some e \<Rightarrow>
                        (case radix_value 10 (ip @ fp) of
                           None \<Rightarrow> NaN
                         | Some m \<Rightarrow> round_to_double (scale10 (of_nat m) (e - int (length fp))))))"

definition js_Number :: "string \<Rightarrow> js_number" where
  "js_Number s =
     (let t = trim s
      in if t = [] then Finite 0
         else (case non_decimal_literal t of
                 Some n \<Rightarrow> round_to_double (of_nat n)
               | None \<Rightarrow>
                   (if hd t = CHR ''+'' then unsigned_decimal (tl t)
                    else if hd t = CHR ''-'' then negate (unsigned_decimal (tl t))
                    else unsigned_decimal t)))"

text \<open>\<^verbatim>\<open>BigInt(s)\<close> for a string; \<open>None\<close> is the \<^verbatim>\<open>SyntaxError\<close>.\<close>

definition js_BigInt_of_string :: "string \<Rightarrow> int option" where
  "js_BigInt_of_string s =
     (let t = trim s
      in if t = [] then Some 0
         else (case non_decimal_literal t of
                 Some n \<Rightarrow> Some (int n)
               | None \<Rightarrow> signed_integer t))"

text \<open>\<^verbatim>\<open>BigInt(n)\<close> for a number; \<open>None\<close> is the \<^verbatim>\<open>RangeError\<close> for a non-integer.\<close>

definition js_BigInt_of_number :: "rat \<Rightarrow> int option" where
  "js_BigInt_of_number n = (if of_int \<lfloor>n\<rfloor> = n then Some \<lfloor>n\<rfloor> else None)"

text \<open>The decimal digits of an integer, as \<^verbatim>\<open>toString\<close> prints a bigint.\<close>

definition show_int :: "int \<Rightarrow> string" where
  "show_int k = (if k < 0 then CHR ''-'' # show_nat (nat (- k)) else show_nat (nat k))"

section \<open>The payment authorizer (permit2.ts)\<close>

record Permit2PaymentRequirements =
  scheme :: string
  network :: string
  asset :: string
  payTo :: string
  permit2Terminal :: string
  maxCost :: string
  inputTokenPrice :: string
  outputTokenPrice :: string
  platformFeeBps :: rat
  maxTimeoutSeconds :: rat

record PaymentRequiredResponse =
  x402Version :: rat
  error_text :: string
  accepts :: "Permit2PaymentRequirements list option"

text \<open>The domain and the message of the typed data; its type table is a constant.\<close>

record Permit2TypedData =
  domain_chainId :: js_number
  domain_verifyingContract :: string
  permitted_token :: string
  permitted_amount :: int
  spender :: string
  nonce :: int
  deadline :: int

record PaymentSigner =
  address :: string
  signTypedData :: "Permit2TypedData \<Rightarrow> js_error + string"

definition PERMIT2_ADDRESS :: string where
  "PERMIT2_ADDRESS = ''0x000000000022D473030F116dDEE9F6B43aC78BA3''"

definition parseChainId :: "string \<Rightarrow> js_error + js_number" where
  "parseChainId net =
     (let parts = split '':'' net;
          ident = js_Number (last parts)
      in if ident = NaN
         then Inl (JsError ''Error'' (''Cannot parse chain ID from network: '' @ net))
         else Inr ident)"

text \<open>
  \<^verbatim>\<open>signPermit2Payment\<close>. The two readings of \<^verbatim>\<open>Date.now()\<close> are the arguments \<open>now1\<close> and
  \<open>now2\<close> (milliseconds); \<^verbatim>\<open>JSON.stringify\<close> and \<^verbatim>\<open>btoa\<close> are arguments as well.
\<close>

definition signPermit2Payment ::
  "(json \<Rightarrow> string) \<Rightarrow> (string \<Rightarrow> js_error + string) \<Rightarrow> int \<Rightarrow> int \<Rightarrow> PaymentSigner
     \<Rightarrow> Permit2PaymentRequirements \<Rightarrow> string \<Rightarrow> js_error + string" where
  "signPermit2Payment stringify btoa now1 now2 signer requirements maxAmount =
     (case parseChainId (network requirements) of
        Inl err \<Rightarrow> Inl err
      | Inr chainId \<Rightarrow>
          (case js_BigInt_of_number (of_int (now2 div 1000) + maxTimeoutSeconds requirements) of
             None \<Rightarrow> Inl (JsError ''RangeError'' ''The number cannot be converted to a BigInt'')
           | Some dl \<Rightarrow>
               (case js_BigInt_of_string maxAmount of
                  None \<Rightarrow> Inl (JsError ''SyntaxError'' (''Cannot convert '' @ maxAmount @ '' to a BigInt''))
                | Some amount \<Rightarrow>
                    (case signTypedData signer
                            \<lparr>domain_chainId = chainId,
                             domain_verifyingContract = PERMIT2_ADDRESS,
                             permitted_token = asset requirements,
                             permitted_amount = amount,
                             spender = permit2Terminal requirements,
                             nonce = now1, deadline = dl\<rparr> of
                       Inl err \<Rightarrow> Inl err
                     | Inr signature \<Rightarrow>
                         btoa (stringify
                           (JObj [(''sender'', JStr (address signer)),
                                  (''permit'',
                                   JObj [(''permitted'',
                                          JObj [(''token'', JStr (asset requirements)),
                                                (''amount'', JStr maxAmount)]),
                                         (''nonce'', JStr (show_int now1)),
                                         (''deadline'', JNum (of_int dl))]),
                                  (''signature'', JStr signature)]))))))"

section \<open>The marketplace client (sixerr-client.ts)\<close>

record http_request =
  req_url :: string
  req_method :: string
  req_headers :: "(string \<times> string) list"
  req_body :: string

record http_response =
  res_status :: nat
  res_content_type :: "string option"
  res_body :: string

record SixerrClientConfig =
  cfg_serverUrl :: "string option"
  cfg_signer :: PaymentSigner
  cfg_maxAmount :: "string option"

text \<open>
  What \<^verbatim>\<open>postWith402Handling\<close> needs from outside: \<^verbatim>\<open>fetch\<close> (\<open>Inl\<close> when it rejects),
  the reading of a response body as a payment-required body (\<^verbatim>\<open>res.json()\<close>, \<open>None\<close>
  when it rejects), the two serialisers and the clock.
\<close>

record platform =
  fetch :: "http_request \<Rightarrow> js_error + http_response"
  payment_json :: "string \<Rightarrow> PaymentRequiredResponse option"
  JSON_stringify :: "json \<Rightarrow> string"
  btoa :: "string \<Rightarrow> js_error + string"
  now1 :: int
  now2 :: int

text \<open>
  The result: the HTTP calls issued, in order, and the outcome of the promise (\<open>Inl\<close>
  rejected, \<open>Inr\<close> resolved with a response).
\<close>

definition postWith402Handling ::
  "platform \<Rightarrow> SixerrClientConfig \<Rightarrow> string \<Rightarrow> string \<Rightarrow> string option
     \<Rightarrow> http_request list \<times> (js_error + http_response)" where
  "postWith402Handling pf cfg url body maxAmountOverride =
     (let headers = [(''Content-Type'', ''application/json'')];
          first = \<lparr>req_url = url, req_method = ''POST'', req_headers = headers, req_body = body\<rparr>
      in case fetch pf first of
           Inl err \<Rightarrow> ([first], Inl err)
         | Inr firstRes \<Rightarrow>
             (if res_status firstRes \<noteq> 402 then ([first], Inr firstRes)
              else case payment_json pf (res_body firstRes) of
                     None \<Rightarrow> ([first], Inl (JsError ''SyntaxError'' ''Unexpected token''))
                   | Some paymentBody \<Rightarrow>
                       (case (case accepts paymentBody of
                                None \<Rightarrow> None
                              | Some as \<Rightarrow> find (\<lambda>a. scheme a = ''permit2'') as) of
                          None \<Rightarrow>
                            ([first],
                             Inl (JsError ''Error''
                                    ''Server returned 402 but no Permit2 payment scheme found''))
                        | Some requirements \<Rightarrow>
                            (let maxAmount =
                                   (case maxAmountOverride of
                                      Some m \<Rightarrow> m
                                    | None \<Rightarrow>
                                        (case cfg_maxAmount cfg of
                                           Some m \<Rightarrow> m
                                         | None \<Rightarrow> maxCost requirements))
                             in case signPermit2Payment (JSON_stringify pf) (btoa pf)
                                       (now1 pf) (now2 pf) (cfg_signer cfg) requirements
                                       maxAmount of
                                  Inl err \<Rightarrow> ([first], Inl err)
                                | Inr xPayment \<Rightarrow>
                                    (let retry = \<lparr>req_url = url, req_method = ''POST'',
                                                  req_headers = headers @ [(''X-PAYMENT'', xPayment)],
                                                  req_body = body\<rparr>
                                     in ([first, retry], fetch pf retry))))))"

text \<open>The server URL with one trailing slash removed, and the two public entry points.\<close>

definition client_serverUrl :: "SixerrClientConfig \<Rightarrow> string" where
  "client_serverUrl cfg =
     (let u = (case cfg_serverUrl cfg of None \<Rightarrow> ''https://sixerr.ai'' | Some u \<Rightarrow> u)
      in if u \<noteq> [] \<and> last u = CHR ''/'' then butlast u else u)"

definition respondRaw ::
  "platform \<Rightarrow> SixerrClientConfig \<Rightarrow> json \<Rightarrow> string option
     \<Rightarrow> http_request list \<times> (js_error + http_response)" where
  "respondRaw pf cfg rawBody agent =
     (let url = (case agent of
                   None \<Rightarrow> client_serverUrl cfg @ ''/v1/responses''
                 | Some a \<Rightarrow> (if a = [] then client_serverUrl cfg @ ''/v1/responses''
                             else client_serverUrl cfg @ ''/v1/responses/'' @ a))
      in postWith402Handling pf cfg url (JSON_stringify pf rawBody) None)"

section \<open>The signing proxy (http-proxy.ts)\<close>

text \<open>
  An incoming request as the handler reads it: \<^verbatim>\<open>req.url\<close> and \<^verbatim>\<open>req.method\<close> (possibly
  undefined) and what \<^verbatim>\<open>readBody\<close> yields (\<open>Inl\<close> when the request stream fails).
\<close>

record proxy_request =
  px_url :: "string option"
  px_method :: "string option"
  px_body :: "js_error + string"

text \<open>
  The response of the marketplace as the proxy reads it: status, content type header,
  whether \<^verbatim>\<open>upstream.body\<close> is present, and what \<^verbatim>\<open>upstream.text()\<close> yields.
\<close>

record upstream =
  up_status :: nat
  up_content_type :: "string option"
  up_has_body :: bool
  up_text :: "js_error + string"

text \<open>The two methods of the client that the proxy calls, and the trace of its calls.\<close>

record proxy_client =
  client_listProviders :: "js_error + json"
  client_respondRaw :: "json \<Rightarrow> string option \<Rightarrow> js_error + upstream"

datatype upstream_call = CallListProviders | CallRespondRaw json "string option"

datatype proxy_body = BodyText string | BodyPiped

record proxy_response =
  out_status :: nat
  out_headers :: "(string \<times> string) list"
  out_body :: proxy_body

definition json_reply :: "(json \<Rightarrow> string) \<Rightarrow> nat \<Rightarrow> json \<Rightarrow> proxy_response" where
  "json_reply stringify code j =
     \<lparr>out_status = code, out_headers = [(''Content-Type'', ''application/json'')],
      out_body = BodyText (stringify j)\<rparr>"

text \<open>\<^verbatim>\<open>s.includes(sub)\<close>.\<close>

fun str_includes :: "string \<Rightarrow> string \<Rightarrow> bool" where
  "str_includes sub [] = (sub = [])"
| "str_includes sub (c # cs) = (if prefix sub (c # cs) then True else str_includes sub cs)"

text \<open>
  The match of the regular expression \<^verbatim>\<open>^\/v1\/responses(?:\/([^/?]+))?$\<close>: \<open>None\<close> when
  the url does not match, otherwise the captured segment, if there is one.
\<close>

definition responsesMatch :: "string \<Rightarrow> string option option" where
  "responsesMatch url =
     (if url = ''/v1/responses'' then Some None
      else if prefix ''/v1/responses/'' url
           then (let seg = drop (length ''/v1/responses/'') url
                 in if seg \<noteq> [] \<and> list_all (\<lambda>c. c \<noteq> CHR ''/'' \<and> c \<noteq> CHR ''?'') seg
                    then Some (Some seg) else None)
           else None)"

text \<open>
  The handlers return the calls made to the client and the response written; \<open>Inl\<close> is an
  exception that leaves the handler.
\<close>

definition handleResponses ::
  "(string \<Rightarrow> json option) \<Rightarrow> (json \<Rightarrow> string) \<Rightarrow> proxy_client \<Rightarrow> proxy_request \<Rightarrow> string option
     \<Rightarrow> upstream_call list \<times> (js_error + proxy_response)" where
  "handleResponses parse stringify client req agent =
     (case (case px_body req of Inl err \<Rightarrow> None | Inr bodyText \<Rightarrow> parse bodyText) of
        None \<Rightarrow> ([], Inr (json_reply stringify 400 (JObj [(''error'', JStr ''Invalid JSON body'')])))
      | Some rawBody \<Rightarrow>
          (case client_respondRaw client rawBody agent of
             Inl err \<Rightarrow>
               ([CallRespondRaw rawBody agent],
                Inr (json_reply stringify 502 (JObj [(''error'', JStr (err_message err))])))
           | Inr up \<Rightarrow>
               (let contentType = (case up_content_type up of
                                     None \<Rightarrow> ''application/json''
                                   | Some t \<Rightarrow> t)
                in if str_includes ''text/event-stream'' contentType \<and> up_has_body up
                   then ([CallRespondRaw rawBody agent],
                         Inr \<lparr>out_status = up_status up,
                              out_headers = [(''Content-Type'', ''text/event-stream''),
                                             (''Cache-Control'', ''no-cache''),
                                             (''Connection'', ''keep-alive'')],
                              out_body = BodyPiped\<rparr>)
                   else (case up_text up of
                           Inl err \<Rightarrow> ([CallRespondRaw rawBody agent], Inl err)
                         | Inr body \<Rightarrow>
                             ([CallRespondRaw rawBody agent],
                              Inr \<lparr>out_status = up_status up,
                                   out_headers = [(''Content-Type'', contentType)],
                                   out_body = BodyText body\<rparr>)))))"

text \<open>\<^verbatim>\<open>req.url ?? "/"\<close> and \<^verbatim>\<open>req.method ?? "GET"\<close>.\<close>

definition request_url :: "proxy_request \<Rightarrow> string" where
  "request_url req = (case px_url req of None \<Rightarrow> ''/'' | Some u \<Rightarrow> u)"

definition request_method :: "proxy_request \<Rightarrow> string" where
  "request_method req = (case px_method req of None \<Rightarrow> ''GET'' | Some m \<Rightarrow> m)"

definition handleRequest ::
  "(string \<Rightarrow> json option) \<Rightarrow> (json \<Rightarrow> string) \<Rightarrow> proxy_client \<Rightarrow> proxy_request
     \<Rightarrow> upstream_call list \<times> (js_error + proxy_response)" where
  "handleRequest parse stringify client req =
     (let url = request_url req;
          method = request_method req
      in if method = ''GET'' \<and> url = ''/v1/providers''
         then (case client_listProviders client of
                 Inr providers \<Rightarrow> ([CallListProviders], Inr (json_reply stringify 200 providers))
               | Inl err \<Rightarrow>
                   ([CallListProviders],
                    Inr (json_reply stringify 502 (JObj [(''error'', JStr (err_message err))]))))
         else (case (if method = ''POST'' then responsesMatch url else None) of
                 Some agent \<Rightarrow> handleResponses parse stringify client req agent
               | None \<Rightarrow>
                   ([], Inr (json_reply stringify 404 (JObj [(''error'', JStr ''Not found'')])))))"

text \<open>The request listener of \<^verbatim>\<open>createHttpProxy\<close>: an exception becomes the status 500.\<close>

definition proxy_listener ::
  "(string \<Rightarrow> json option) \<Rightarrow> (json \<Rightarrow> string) \<Rightarrow> proxy_client \<Rightarrow> proxy_request
     \<Rightarrow> upstream_call list \<times> proxy_response" where
  "proxy_listener parse stringify client req =
     (case handleRequest parse stringify client req of
        (calls, Inr response) \<Rightarrow> (calls, response)
      | (calls, Inl err) \<Rightarrow>
          (calls, json_reply stringify 500 (JObj [(''error'', JStr ''Internal proxy error'')])))"

section \<open>A concrete marketplace, for the closed examples\<close>

definition example_requirements :: "string \<Rightarrow> Permit2PaymentRequirements" where
  "example_requirements net =
     \<lparr>scheme = ''permit2'', network = net, asset = ''0xA55E7'', payTo = ''0xPAYEE'',
      permit2Terminal = ''0x7E2A1'', maxCost = ''10000'', inputTokenPrice = ''1'',
      outputTokenPrice = ''2'', platformFeeBps = 100, maxTimeoutSeconds = 300\<rparr>"

definition example_signer :: PaymentSigner where
  "example_signer = \<lparr>address = ''0x5E2DE2'', signTypedData = (\<lambda>d. Inr ''0x516'')\<rparr>"

definition example_client_config :: SixerrClientConfig where
  "example_client_config =
     \<lparr>cfg_serverUrl = None, cfg_signer = example_signer, cfg_maxAmount = None\<rparr>"

definition example_402 :: http_response where
  "example_402 =
     \<lparr>res_status = 402, res_content_type = Some ''application/json'',
      res_body = ''PAYMENT_REQUIRED''\<rparr>"

text \<open>
  A server that answers every call with 402 and offers the permit2 scheme on the network
  given.
\<close>

definition example_platform :: "string \<Rightarrow> platform" where
  "example_platform net =
     \<lparr>fetch = (\<lambda>req. Inr example_402),
      payment_json = (\<lambda>s. if s = ''PAYMENT_REQUIRED''
                           then Some \<lparr>x402Version = 1, error_text = ''Payment required'',
                                      accepts = Some [example_requirements net]\<rparr>
                           else None),
      JSON_stringify = example_stringify,
      btoa = (\<lambda>s. Inr s),
      now1 = 1700000000123, now2 = 1700000000456\<rparr>"

text \<open>The first call of \<^verbatim>\<open>postWith402Handling\<close> and its retry with the payment attached.\<close>

definition first_request :: "string \<Rightarrow> string \<Rightarrow> http_request" where
  "first_request url body =
     \<lparr>req_url = url, req_method = ''POST'',
      req_headers = [(''Content-Type'', ''application/json'')], req_body = body\<rparr>"

definition retry_request :: "string \<Rightarrow> string \<Rightarrow> string \<Rightarrow> http_request" where
  "retry_request url body xPayment =
     \<lparr>req_url = url, req_method = ''POST'',
      req_headers = [(''Content-Type'', ''application/json''), (''X-PAYMENT'', xPayment)],
      req_body = body\<rparr>"

text \<open>The amount: the override, else the configured ceiling, else the stated maximum.\<close>

definition chosen_amount ::
  "string option \<Rightarrow> SixerrClientConfig \<Rightarrow> Permit2PaymentRequirements \<Rightarrow> string" where
  "chosen_amount maxAmountOverride cfg requirements =
     (case maxAmountOverride of
        Some m \<Rightarrow> m
      | None \<Rightarrow> (case cfg_maxAmount cfg of Some m \<Rightarrow> m | None \<Rightarrow> maxCost requirements))"

definition sign_for ::
  "platform \<Rightarrow> SixerrClientConfig \<Rightarrow> Permit2PaymentRequirements \<Rightarrow> string option
     \<Rightarrow> js_error + string" where
  "sign_for pf cfg requirements maxAmountOverride =
     signPermit2Payment (JSON_stringify pf) (btoa pf) (now1 pf) (now2 pf) (cfg_signer cfg)
       requirements (chosen_amount maxAmountOverride cfg requirements)"

text \<open>A run of decimal digits and its value.\<close>

definition digits_value :: "string \<Rightarrow> nat" where
  "digits_value ds = foldl (\<lambda>acc c. 10 * acc + (of_char c - 48)) 0 ds"

definition all_digits :: "string \<Rightarrow> bool" where
  "all_digits ds = (ds \<noteq> [] \<and> list_all is_digit ds)"

text \<open>A proxy client whose two methods fail, and one that answers.\<close>

definition failing_client :: proxy_client where
  "failing_client =
     \<lparr>client_listProviders = Inl (JsError ''Error'' ''Failed to fetch providers (503)''),
      client_respondRaw = (\<lambda>b a. Inl (JsError ''TypeError'' ''fetch failed''))\<rparr>"

definition example_body_parse :: "string \<Rightarrow> json option" where
  "example_body_parse raw = map_of [(''BODY'', JObj [(''input'', JStr ''Hello'')])] raw"

chapter \<open>Theorems\<close>

section \<open>Rounding to a double\<close>

declare bit_length.simps [simp del]

lemma bit_length_bounds:
  "0 < n \<Longrightarrow> 2 ^ (bit_length n - 1) \<le> n \<and> n < 2 ^ bit_length n"
proof (induction n rule: bit_length.induct)
  case (1 n)
  show ?case
  proof (cases "n div 2 \<le> 0")
    case True
    with 1(2) have "n = 1"
      by presburger
    then show ?thesis
      by (simp add: bit_length.simps[of 1] bit_length.simps[of 0])
  next
    case False
    then have pos: "0 < n div 2" by simp
    from 1(1)[OF _ pos] 1(2)
    have lo: "2 ^ (bit_length (n div 2) - 1) \<le> n div 2" and hi: "n div 2 < 2 ^ bit_length (n div 2)"
      by simp_all
    have bl: "bit_length n = Suc (bit_length (n div 2))"
      using 1(2) by (simp add: bit_length.simps[of n])
    have bpos: "0 < bit_length (n div 2)"
      using pos by (simp add: bit_length.simps[of "n div 2"])
    have "2 ^ (bit_length n - 1) = 2 * (2::int) ^ (bit_length (n div 2) - 1)"
      using bpos by (simp add: bl flip: power_Suc)
    also have "\<dots> \<le> 2 * (n div 2)"
      using lo by simp
    also have "\<dots> \<le> n" by presburger
    finally have a: "2 ^ (bit_length n - 1) \<le> n" .
    have "n < 2 * (n div 2 + 1)" by presburger
    also have "\<dots> \<le> 2 * 2 ^ bit_length (n div 2)"
      using hi by simp
    finally have b: "n < 2 ^ bit_length n"
      by (simp add: bl)
    from a b show ?thesis ..
  qed
qed

lemma bit_length_powi:
  assumes "0 < n"
  shows "(2::rat) powi (int (bit_length n) - 1) \<le> of_int n"
    and "of_int n < (2::rat) powi int (bit_length n)"
proof -
  let ?b = "bit_length n"
  from bit_length_bounds[OF assms]
  have lo: "2 ^ (?b - 1) \<le> n" and hi: "n < 2 ^ ?b"
    by simp_all
  have bpos: "0 < ?b"
    using assms by (simp add: bit_length.simps[of n])
  have "(2::rat) powi (int ?b - 1) = 2 powi int (?b - 1)"
    using bpos by (simp add: of_nat_diff)
  also have "\<dots> = of_int (2 ^ (?b - 1))"
    by simp
  also have "\<dots> \<le> of_int n"
    using lo by (simp only: of_int_le_iff)
  finally show "(2::rat) powi (int ?b - 1) \<le> of_int n" .
  have "(of_int n :: rat) < of_int (2 ^ ?b)"
    using hi by (simp only: of_int_less_iff)
  also have "\<dots> = 2 powi int ?b"
    by simp
  finally show "of_int n < (2::rat) powi int ?b" .
qed

text \<open>The binary exponent is what its name says.\<close>

lemma floor_log2_bounds:
  assumes "0 < a"
  shows "2 powi floor_log2 a \<le> a" and "a < 2 powi (floor_log2 a + 1)"
proof -
  obtain n d where nd: "quotient_of a = (n, d)"
    by (cases "quotient_of a")
  then have d: "0 < d" and a: "a = of_int n / of_int d"
    by (simp_all add: quotient_of_denom_pos quotient_of_div)
  have n: "0 < n"
    using assms d a by (simp add: zero_less_divide_iff)
  let ?bn = "int (bit_length n)" and ?bd = "int (bit_length d)"
  let ?k = "?bn - ?bd"
  note bn = bit_length_powi[OF n] and bd = bit_length_powi[OF d]
  have dpos: "(0::rat) < of_int d" using d by simp
  have npos: "(0::rat) \<le> of_int n" using n by simp
  have p: "(0::rat) < 2 powi (?bd - 1)" by simp
  have "a < 2 powi ?bn / 2 powi (?bd - 1)"
    unfolding a by (rule frac_less[OF npos bn(2) p bd(1)])
  also have "\<dots> = 2 powi (?bn - (?bd - 1))"
    by (subst power_int_diff) simp_all
  also have "?bn - (?bd - 1) = ?k + 1"
    by simp
  finally have hi: "a < 2 powi (?k + 1)" .
  have "?k - 1 = (?bn - 1) - ?bd"
    by simp
  then have "2 powi (?k - 1) = (2::rat) powi ((?bn - 1) - ?bd)"
    by (simp only:)
  also have "\<dots> = (2::rat) powi (?bn - 1) / 2 powi ?bd"
    by (subst power_int_diff) simp_all
  also have "\<dots> \<le> of_int n / of_int d"
    using bd(2) by (intro frac_le[OF npos bn(1) dpos]) simp
  finally have lo: "2 powi (?k - 1) \<le> a"
    by (simp add: a)
  show "2 powi floor_log2 a \<le> a"
    using lo by (simp add: floor_log2_def nd Let_def)
  show "a < 2 powi (floor_log2 a + 1)"
    using hi by (simp add: floor_log2_def nd Let_def)
qed

lemma powi2_less_imp:
  assumes "(2::rat) powi m < 2 powi n"
  shows "m < n"
proof (rule ccontr)
  assume "\<not> m < n"
  then have "n \<le> m" by simp
  then have "(2::rat) powi n \<le> 2 powi m"
    by (intro power_int_increasing) simp_all
  with assms show False by simp
qed

lemma floor_log2_eqI:
  assumes "2 powi e \<le> a" and "a < 2 powi (e + 1)"
  shows "floor_log2 a = e"
proof -
  have "(0::rat) < 2 powi e" by simp
  then have pos: "0 < a" using assms(1) by (rule less_le_trans)
  note b = floor_log2_bounds[OF pos]
  have "(2::rat) powi floor_log2 a < 2 powi (e + 1)"
    using b(1) assms(2) by simp
  then have "floor_log2 a < e + 1"
    by (rule powi2_less_imp)
  moreover have "(2::rat) powi e < 2 powi (floor_log2 a + 1)"
    using b(2) assms(1) by simp
  then have "e < floor_log2 a + 1"
    by (rule powi2_less_imp)
  ultimately show ?thesis by simp
qed

lemma floor_log2_mono:
  assumes "0 < x" and "x \<le> y"
  shows "floor_log2 x \<le> floor_log2 y"
proof -
  have ypos: "0 < y" using assms by simp
  have "2 powi floor_log2 x \<le> x"
    by (rule floor_log2_bounds(1)[OF assms(1)])
  also note assms(2)
  also note floor_log2_bounds(2)[OF ypos]
  finally have "floor_log2 x < floor_log2 y + 1"
    by (rule powi2_less_imp)
  then show ?thesis by simp
qed

lemma round_half_even_of_int: "round_half_even (of_int n) = n"
  by (simp add: round_half_even_def)

lemma round_half_even_bounds: "\<lfloor>y\<rfloor> \<le> round_half_even y" "round_half_even y \<le> \<lfloor>y\<rfloor> + 1"
  by (simp_all add: round_half_even_def Let_def)

lemma round_half_even_ge:
  assumes "of_int n \<le> y"
  shows "n \<le> round_half_even y"
proof -
  have "n \<le> \<lfloor>y\<rfloor>"
    using assms by (simp add: le_floor_iff)
  with round_half_even_bounds(1)[of y] show ?thesis
    by simp
qed

lemma round_half_even_le:
  assumes "y \<le> of_int n"
  shows "round_half_even y \<le> n"
proof (cases "y = of_int n")
  case True
  then show ?thesis
    by (simp add: round_half_even_of_int)
next
  case False
  with assms have "y < of_int n"
    by simp
  then have "\<lfloor>y\<rfloor> < n"
    by (simp add: floor_less_iff)
  with round_half_even_bounds(2)[of y] show ?thesis
    by simp
qed

lemma powi2_split:
  assumes "q \<le> e"
  shows "(2::rat) powi e = of_int (2 ^ nat (e - q)) * 2 powi q"
proof -
  have "(2::rat) powi e = 2 powi ((e - q) + q)"
    by simp
  also have "\<dots> = 2 powi (e - q) * 2 powi q"
    by (subst power_int_add) simp_all
  also have "(2::rat) powi (e - q) = 2 ^ nat (e - q)"
    using assms by (simp add: power_int_def)
  finally show ?thesis
    by simp
qed

lemma scaled_ge:
  assumes "of_int N * 2 powi q \<le> (x::rat)"
  shows "of_int N * 2 powi q \<le> of_int (round_half_even (x / 2 powi q)) * (2::rat) powi q"
proof -
  have "of_int N \<le> x / 2 powi q"
    using assms by (simp add: pos_le_divide_eq)
  then have "N \<le> round_half_even (x / 2 powi q)"
    by (rule round_half_even_ge)
  then have "(of_int N :: rat) \<le> of_int (round_half_even (x / 2 powi q))"
    by (simp only: of_int_le_iff)
  then show ?thesis
    by (intro mult_right_mono) simp_all
qed

lemma scaled_le:
  assumes "(x::rat) \<le> of_int N * 2 powi q"
  shows "of_int (round_half_even (x / 2 powi q)) * 2 powi q \<le> of_int N * (2::rat) powi q"
proof -
  have "x / 2 powi q \<le> of_int N"
    using assms by (simp add: pos_divide_le_eq)
  then have "round_half_even (x / 2 powi q) \<le> N"
    by (rule round_half_even_le)
  then have "(of_int (round_half_even (x / 2 powi q)) :: rat) \<le> of_int N"
    by (simp only: of_int_le_iff)
  then show ?thesis
    by (intro mult_right_mono) simp_all
qed

lemma round_to_double_pos:
  assumes "0 < x"
  shows "round_to_double x =
     (if (2::rat) ^ 1024 \<le> of_int (round_half_even (x / 2 powi quantum x)) * 2 powi quantum x
      then PosInfinity
      else Finite (of_int (round_half_even (x / 2 powi quantum x)) * 2 powi quantum x))"
  using assms by (simp add: round_to_double_def Let_def)

lemma round_to_double_neg:
  assumes "x < 0"
  shows "round_to_double x =
     (if (2::rat) ^ 1024 \<le> of_int (round_half_even (- x / 2 powi quantum (- x))) * 2 powi quantum (- x)
      then NegInfinity
      else Finite (- (of_int (round_half_even (- x / 2 powi quantum (- x))) * 2 powi quantum (- x))))"
  using assms by (simp add: round_to_double_def Let_def abs_if)

lemma round_to_double_not_NaN: "round_to_double x \<noteq> NaN"
  by (simp add: round_to_double_def Let_def)

text \<open>The double nearest to a positive value, from its binary exponent.\<close>

lemma round_to_double_eval:
  assumes "2 powi e \<le> x" and "x < 2 powi (e + 1)"
    and "round_half_even (x / 2 powi max (e - 52) (- 1074)) = m"
    and "of_int m * 2 powi max (e - 52) (- 1074) < (2::rat) ^ 1024"
  shows "round_to_double x = Finite (of_int m * 2 powi max (e - 52) (- 1074))"
proof -
  have e: "floor_log2 x = e"
    using assms(1,2) by (rule floor_log2_eqI)
  have "(0::rat) < 2 powi e"
    by simp
  then have pos: "0 < x"
    using assms(1) by (rule less_le_trans)
  show ?thesis
    using assms(3,4) unfolding round_to_double_pos[OF pos] quantum_def e by simp
qed

text \<open>
  A value with a significand below \<open>2 ^ 53\<close>, an exponent of at least \<open>- 1074\<close> and a
  magnitude below \<open>2 ^ 1024\<close> is a double: rounding returns it.
\<close>

lemma round_to_double_representable:
  assumes x: "x = of_int m * 2 powi q'" and m: "\<bar>m\<bar> < 2 ^ 53" and q': "- 1074 \<le> q'"
    and fin: "\<bar>x\<bar> < 2 ^ 1024"
  shows "round_to_double x = Finite x"
proof (cases "x = 0")
  case True
  then show ?thesis
    by (simp add: round_to_double_def)
next
  case False
  let ?a = "\<bar>x\<bar>"
  let ?e = "floor_log2 ?a"
  let ?q = "quantum ?a"
  have apos: "0 < ?a" using False by simp
  have a: "?a = of_int \<bar>m\<bar> * 2 powi q'"
    by (simp add: x abs_mult)
  have "(of_int \<bar>m\<bar> :: rat) < of_int (2 ^ 53)"
    using m by (simp only: of_int_less_iff)
  then have "?a < 2 ^ 53 * 2 powi q'"
    unfolding a by (intro mult_strict_right_mono) simp_all
  also have "\<dots> = 2 powi (53 + q')"
    by (subst power_int_add) simp_all
  finally have "2 powi ?e < (2::rat) powi (53 + q')"
    using floor_log2_bounds(1)[OF apos] by simp
  then have "?e < 53 + q'"
    by (rule powi2_less_imp)
  then have qle: "?q \<le> q'"
    using q' by (simp add: quantum_def)
  have "?a / 2 powi ?q = of_int \<bar>m\<bar> * (2 powi q' / 2 powi ?q)"
    by (simp add: a)
  also have "2 powi q' / 2 powi ?q = (of_int (2 ^ nat (q' - ?q)) :: rat)"
    using powi2_split[OF qle] by simp
  finally have "?a / 2 powi ?q = of_int (\<bar>m\<bar> * 2 ^ nat (q' - ?q))"
    by simp
  then have "of_int (round_half_even (?a / 2 powi ?q)) * 2 powi ?q = ?a / 2 powi ?q * 2 powi ?q"
    by (simp only: round_half_even_of_int)
  also have "\<dots> = ?a"
    by simp
  finally have r: "of_int (round_half_even (?a / 2 powi ?q)) * 2 powi ?q = ?a" .
  show ?thesis
    using False fin unfolding round_to_double_def Let_def r
    by (auto simp: abs_if split: if_splits)
qed

lemma round_to_double_of_int:
  assumes "\<bar>n\<bar> \<le> 2 ^ 53"
  shows "round_to_double (of_int n) = Finite (of_int n)"
proof (cases "\<bar>n\<bar> < 2 ^ 53")
  case True
  have "\<bar>of_int n :: rat\<bar> = of_int \<bar>n\<bar>" by simp
  also have "\<dots> < of_int (2 ^ 53)"
    using True by (simp only: of_int_less_iff)
  also have "\<dots> < 2 ^ 1024" by simp
  finally have "\<bar>of_int n :: rat\<bar> < 2 ^ 1024" .
  then show ?thesis
    using True by (intro round_to_double_representable[where m = n and q' = 0]) simp_all
next
  case False
  with assms have "\<bar>n\<bar> = 2 ^ 53" by simp
  then consider "n = 2 ^ 53" | "n = - (2 ^ 53)"
    by (auto simp: abs_if split: if_splits)
  then show ?thesis
  proof cases
    case 1
    show ?thesis
      unfolding 1
      by (rule round_to_double_representable[where m = "2 ^ 52" and q' = 1]) simp_all
  next
    case 2
    show ?thesis
      unfolding 2
      by (rule round_to_double_representable[where m = "- (2 ^ 52)" and q' = 1]) simp_all
  qed
qed

text \<open>A value of magnitude \<open>2 ^ 1024\<close> or more rounds to an infinity.\<close>

lemma round_to_double_overflow:
  assumes "2 ^ 1024 \<le> \<bar>x\<bar>"
  shows "round_to_double x = (if 0 < x then PosInfinity else NegInfinity)"
proof -
  let ?a = "\<bar>x\<bar>"
  let ?e = "floor_log2 ?a"
  let ?q = "quantum ?a"
  have "(0::rat) < 2 ^ 1024" by simp
  then have apos: "0 < ?a" using assms by (rule less_le_trans)
  then have nz: "x \<noteq> 0" by simp
  note b = floor_log2_bounds[OF apos]
  have "(2::rat) powi 1024 < 2 powi (?e + 1)"
    using assms b(2) by simp
  then have "1024 < ?e + 1"
    by (rule powi2_less_imp)
  then have e: "1024 \<le> ?e" and q: "?q = ?e - 52"
    by (simp_all add: quantum_def)
  have qe: "?q \<le> ?e" by (simp add: q)
  have "of_int (2 ^ nat (?e - ?q)) * 2 powi ?q \<le> ?a"
    using b(1) powi2_split[OF qe] by simp
  from scaled_ge[OF this]
  have "(2::rat) powi ?e \<le> of_int (round_half_even (?a / 2 powi ?q)) * 2 powi ?q"
    using powi2_split[OF qe] by simp
  moreover have "(2::rat) powi 1024 \<le> 2 powi ?e"
    using e by (intro power_int_increasing) simp_all
  ultimately have "2 ^ 1024 \<le> of_int (round_half_even (?a / 2 powi ?q)) * (2::rat) powi ?q"
    by simp
  then show ?thesis
    using nz unfolding round_to_double_def Let_def by simp
qed

lemma double_grid:
  assumes "0 < c" and "round_to_double c = Finite c"
  shows "c = of_int (round_half_even (c / 2 powi quantum c)) * 2 powi quantum c"
    and "c < 2 ^ 1024"
    and "- 1074 \<le> floor_log2 c"
proof -
  let ?M = "round_half_even (c / 2 powi quantum c)"
  from assms(2) show c: "c = of_int ?M * 2 powi quantum c"
    unfolding round_to_double_pos[OF assms(1)] by (simp split: if_splits)
  from assms(2) have "\<not> 2 ^ 1024 \<le> of_int ?M * (2::rat) powi quantum c"
    unfolding round_to_double_pos[OF assms(1)] by (simp split: if_splits)
  with c show "c < 2 ^ 1024"
    by simp
  have "0 < of_int ?M * (2::rat) powi quantum c"
    using assms(1) c by simp
  moreover have "(0::rat) < 2 powi quantum c"
    by simp
  ultimately have "0 < (of_int ?M :: rat)"
    by (simp only: zero_less_mult_pos2)
  then have "1 \<le> ?M"
    by simp
  then have "(1::rat) \<le> of_int ?M"
    by simp
  then have "1 * 2 powi quantum c \<le> of_int ?M * (2::rat) powi quantum c"
    by (intro mult_right_mono) simp_all
  then have "(2::rat) powi quantum c \<le> c"
    using c by simp
  moreover have "(2::rat) powi (- 1074) \<le> 2 powi quantum c"
    by (intro power_int_increasing) (simp_all add: quantum_def)
  ultimately have "(2::rat) powi (- 1074) < 2 powi (floor_log2 c + 1)"
    using floor_log2_bounds(2)[OF assms(1)] by simp
  then have "- 1074 < floor_log2 c + 1"
    by (rule powi2_less_imp)
  then show "- 1074 \<le> floor_log2 c"
    by simp
qed

text \<open>
  Rounding does not cross a double: at or above a positive double the result is at or
  above it, and from zero up to a double the result is in that range.
\<close>

lemma round_to_double_lower:
  assumes c: "0 < c" and rep: "round_to_double c = Finite c" and le: "c \<le> x"
  shows "round_to_double x = PosInfinity \<or> (\<exists>r. round_to_double x = Finite r \<and> c \<le> r)"
proof -
  have x: "0 < x" using c le by simp
  let ?r = "of_int (round_half_even (x / 2 powi quantum x)) * (2::rat) powi quantum x"
  note grid = double_grid[OF c rep]
  have mono: "floor_log2 c \<le> floor_log2 x"
    by (rule floor_log2_mono[OF c le])
  have "c \<le> ?r"
  proof (cases "floor_log2 x = floor_log2 c")
    case True
    then have q: "quantum x = quantum c"
      by (simp add: quantum_def)
    have "of_int (round_half_even (c / 2 powi quantum c)) * 2 powi quantum x \<le> x"
      using grid(1) le by (simp add: q)
    from scaled_ge[OF this] show ?thesis
      using grid(1) by (simp add: q)
  next
    case False
    with mono have lt: "floor_log2 c + 1 \<le> floor_log2 x"
      by simp
    have qe: "quantum x \<le> floor_log2 x"
      using grid(3) mono by (simp add: quantum_def)
    have "of_int (2 ^ nat (floor_log2 x - quantum x)) * 2 powi quantum x \<le> x"
      using floor_log2_bounds(1)[OF x] powi2_split[OF qe] by simp
    from scaled_ge[OF this] have "2 powi floor_log2 x \<le> ?r"
      using powi2_split[OF qe] by simp
    moreover have "(2::rat) powi (floor_log2 c + 1) \<le> 2 powi floor_log2 x"
      using lt by (intro power_int_increasing) simp_all
    ultimately show ?thesis
      using floor_log2_bounds(2)[OF c] by simp
  qed
  then show ?thesis
    unfolding round_to_double_pos[OF x] by simp
qed

lemma round_to_double_upper:
  assumes x: "0 \<le> x" and rep: "round_to_double c = Finite c" and le: "x \<le> c"
  shows "\<exists>r. round_to_double x = Finite r \<and> 0 \<le> r \<and> r \<le> c"
proof (cases "x = 0")
  case True
  then show ?thesis
    using x le by (simp add: round_to_double_def)
next
  case False
  then have xpos: "0 < x" using x by simp
  then have c: "0 < c" using le by simp
  let ?r = "of_int (round_half_even (x / 2 powi quantum x)) * (2::rat) powi quantum x"
  note grid = double_grid[OF c rep]
  have mono: "floor_log2 x \<le> floor_log2 c"
    by (rule floor_log2_mono[OF xpos le])
  have "0 \<le> x / 2 powi quantum x"
    using x by simp
  then have "of_int 0 \<le> x / 2 powi quantum x"
    by simp
  then have "0 \<le> round_half_even (x / 2 powi quantum x)"
    by (rule round_half_even_ge)
  then have nonneg: "0 \<le> ?r"
    by simp
  have "?r \<le> c"
  proof (cases "floor_log2 x = floor_log2 c")
    case True
    then have q: "quantum x = quantum c"
      by (simp add: quantum_def)
    have "x \<le> of_int (round_half_even (c / 2 powi quantum c)) * 2 powi quantum x"
      using grid(1) le by (simp add: q)
    from scaled_le[OF this] show ?thesis
      using grid(1) by (simp add: q)
  next
    case False
    with mono have lt: "floor_log2 x + 1 \<le> floor_log2 c"
      by simp
    let ?t = "max (floor_log2 x + 1) (quantum x)"
    have qt: "quantum x \<le> ?t" by simp
    have "x < 2 powi (floor_log2 x + 1)"
      by (rule floor_log2_bounds(2)[OF xpos])
    also have "\<dots> \<le> 2 powi ?t"
      by (intro power_int_increasing) simp_all
    finally have "x \<le> of_int (2 ^ nat (?t - quantum x)) * 2 powi quantum x"
      using powi2_split[OF qt] by simp
    from scaled_le[OF this] have "?r \<le> 2 powi ?t"
      using powi2_split[OF qt] by simp
    moreover have "?t \<le> floor_log2 c"
      using lt grid(3) mono by (simp add: quantum_def)
    then have "(2::rat) powi ?t \<le> 2 powi floor_log2 c"
      by (intro power_int_increasing) simp_all
    ultimately show ?thesis
      using floor_log2_bounds(1)[OF c] by simp
  qed
  with grid(2) nonneg show ?thesis
    unfolding round_to_double_pos[OF xpos] by simp
qed

section \<open>Backoff\<close>

lemma floor_half: "\<lfloor>1 / 2 :: rat\<rfloor> = 0"
  by (simp add: floor_eq_iff)

lemma Math_round_of_int: "Math_round (Finite (of_int b)) = Finite (of_int b)"
  by (simp add: floor_half)

lemma Math_round_between:
  assumes "of_int lo \<le> x" and "x \<le> of_int hi"
  shows "\<exists>t. Math_round (Finite x) = Finite t \<and> of_int lo \<le> t \<and> t \<le> of_int hi"
proof -
  have "lo \<le> \<lfloor>x + 1 / 2\<rfloor>"
    using assms(1) by (simp add: le_floor_iff)
  moreover have "\<lfloor>x + 1 / 2\<rfloor> \<le> \<lfloor>of_int hi + 1 / 2 :: rat\<rfloor>"
    using assms(2) by (intro floor_mono) simp
  then have "\<lfloor>x + 1 / 2\<rfloor> \<le> hi"
    by (simp add: floor_half)
  ultimately have "(of_int lo :: rat) \<le> of_int \<lfloor>x + 1 / 2\<rfloor>"
    and "(of_int \<lfloor>x + 1 / 2\<rfloor> :: rat) \<le> of_int hi"
    by (simp_all only: of_int_le_iff)
  then show ?thesis
    by simp
qed

lemma Math_min_NaN: "Math_min x NaN = NaN"
  by (cases x) simp_all

text \<open>A small integer times a power of two is a double as long as it is in range.\<close>

lemma multiple_double:
  assumes "\<bar>m\<bar> < 2 ^ j" and "j \<le> 53" and "n + j \<le> 1024"
  shows "round_to_double (of_int m * 2 ^ n) = Finite (of_int m * 2 ^ n)"
proof (rule round_to_double_representable[where m = m and q' = "int n"])
  show "of_int m * (2::rat) ^ n = of_int m * 2 powi int n"
    by simp
  have "(2::int) ^ j \<le> 2 ^ 53"
    using assms(2) by (intro power_increasing) simp_all
  with assms(1) show "\<bar>m\<bar> < 2 ^ 53"
    by simp
  show "- 1074 \<le> int n"
    by simp
  have "(of_int \<bar>m\<bar> :: rat) < of_int (2 ^ j)"
    using assms(1) by (simp only: of_int_less_iff)
  then have "of_int \<bar>m\<bar> * (2::rat) ^ n < 2 ^ j * 2 ^ n"
    by (intro mult_strict_right_mono) simp_all
  also have "\<dots> = 2 ^ (n + j)"
    by (simp add: power_add)
  also have "\<dots> \<le> 2 ^ 1024"
    using assms(3) by (intro power_increasing) simp_all
  finally show "\<bar>of_int m * (2::rat) ^ n\<bar> < 2 ^ 1024"
    by (simp add: abs_mult)
qed

lemma power2_double:
  assumes "n \<le> 1023"
  shows "js_power (Finite 2) n = Finite (2 ^ n)"
proof (cases n)
  case 0
  then show ?thesis by simp
next
  case (Suc k)
  have "round_to_double (of_int 1 * 2 ^ n) = Finite (of_int 1 * 2 ^ n)"
    using assms by (intro multiple_double[where j = 1]) simp_all
  then show ?thesis
    by (simp add: Suc)
qed

lemma power2_overflow:
  assumes "1024 \<le> n"
  shows "js_power (Finite 2) n = PosInfinity"
proof -
  obtain k where n: "n = Suc k"
    using assms by (cases n) simp_all
  have "(2::rat) ^ 1024 \<le> 2 ^ n"
    using assms by (intro power_increasing) simp_all
  then have "round_to_double (2 ^ n) = PosInfinity"
    by (simp add: round_to_double_overflow)
  then show ?thesis
    by (simp add: n)
qed

text \<open>
  The base delay for an initial delay of 1000 and a factor of 2: finite up to the exponent
  1014, infinite from the exponent 1015 on.
\<close>

lemma base_finite:
  assumes "n \<le> 1014"
  shows "js_times (Finite 1000) (js_power (Finite 2) n) = Finite (1000 * 2 ^ n)"
proof -
  have "round_to_double (of_int 1000 * 2 ^ n) = Finite (of_int 1000 * 2 ^ n)"
    using assms by (intro multiple_double[where j = 10]) simp_all
  then show ?thesis
    using assms by (simp add: power2_double)
qed

lemma base_infinite:
  assumes "1015 \<le> n"
  shows "js_times (Finite 1000) (js_power (Finite 2) n) = PosInfinity"
proof (cases "n \<le> 1023")
  case True
  have "(2::rat) ^ 1015 \<le> 2 ^ n"
    using assms by (intro power_increasing) simp_all
  then have "1000 * (2::rat) ^ 1015 \<le> 1000 * 2 ^ n"
    by simp
  moreover have "(2::rat) ^ 1024 \<le> 1000 * 2 ^ 1015"
    by simp
  ultimately have "(2::rat) ^ 1024 \<le> \<bar>1000 * 2 ^ n\<bar>"
    by simp
  then have "round_to_double (1000 * 2 ^ n) = PosInfinity"
    by (simp add: round_to_double_overflow)
  then show ?thesis
    using True by (simp add: power2_double)
next
  case False
  then show ?thesis
    by (simp add: power2_overflow)
qed

lemma no_jitter_values:
  assumes "4000 \<le> m"
  shows "computeBackoff \<lparr>initialMs = Finite 1000, maxMs = Finite m, factor = Finite 2,
                         jitter = Finite 0\<rparr> 1 (Finite r) = Finite 1000"
    and "computeBackoff \<lparr>initialMs = Finite 1000, maxMs = Finite m, factor = Finite 2,
                         jitter = Finite 0\<rparr> 2 (Finite r) = Finite 2000"
    and "computeBackoff \<lparr>initialMs = Finite 1000, maxMs = Finite m, factor = Finite 2,
                         jitter = Finite 0\<rparr> 3 (Finite r) = Finite 4000"
proof -
  have zero: "round_to_double 0 = Finite 0"
    by (simp add: round_to_double_def)
  have ints: "round_to_double 1000 = Finite 1000" "round_to_double 2000 = Finite 2000"
    "round_to_double 4000 = Finite 4000"
    using round_to_double_of_int[of 1000] round_to_double_of_int[of 2000]
      round_to_double_of_int[of 4000]
    by simp_all
  have base: "js_times (Finite 1000) (js_power (Finite 2) 0) = Finite 1000"
    "js_times (Finite 1000) (js_power (Finite 2) 1) = Finite 2000"
    "js_times (Finite 1000) (js_power (Finite 2) 2) = Finite 4000"
    using base_finite[of 0] base_finite[of 1] base_finite[of 2] by simp_all
  have round: "Math_round (Finite 1000) = Finite 1000" "Math_round (Finite 2000) = Finite 2000"
    "Math_round (Finite 4000) = Finite 4000"
    using Math_round_of_int[of 1000] Math_round_of_int[of 2000] Math_round_of_int[of 4000]
    by simp_all
  have e: "nat (max (1 - 1) 0) = 0" "nat (max (2 - 1) 0) = 1" "nat (max (3 - 1) 0) = 2"
    by simp_all
  show "computeBackoff \<lparr>initialMs = Finite 1000, maxMs = Finite m, factor = Finite 2,
                         jitter = Finite 0\<rparr> 1 (Finite r) = Finite 1000"
    unfolding computeBackoff_def Let_def using assms
    by (simp only: BackoffPolicy.simps e base js_times.simps js_plus.simps mult_zero_right
          mult_zero_left add_0_right zero ints round Math_min.simps) simp
  show "computeBackoff \<lparr>initialMs = Finite 1000, maxMs = Finite m, factor = Finite 2,
                         jitter = Finite 0\<rparr> 2 (Finite r) = Finite 2000"
    unfolding computeBackoff_def Let_def using assms
    by (simp only: BackoffPolicy.simps e base js_times.simps js_plus.simps mult_zero_right
          mult_zero_left add_0_right zero ints round Math_min.simps) simp
  show "computeBackoff \<lparr>initialMs = Finite 1000, maxMs = Finite m, factor = Finite 2,
                         jitter = Finite 0\<rparr> 3 (Finite r) = Finite 4000"
    unfolding computeBackoff_def Let_def using assms
    by (simp only: BackoffPolicy.simps e base js_times.simps js_plus.simps mult_zero_right
          mult_zero_left add_0_right zero ints round Math_min.simps) simp
qed

text \<open>With a jitter of 0 an infinite base delay gives \<^verbatim>\<open>NaN\<close>, whatever the cap.\<close>

lemma no_jitter_NaN:
  assumes "1016 \<le> k"
  shows "computeBackoff \<lparr>initialMs = Finite 1000, maxMs = mx, factor = Finite 2,
                         jitter = Finite 0\<rparr> k u = NaN"
proof -
  have "1015 \<le> nat (max (k - 1) 0)"
    using assms by simp
  then have "js_times (Finite 1000) (js_power (Finite 2) (nat (max (k - 1) 0))) = PosInfinity"
    by (rule base_infinite)
  then show ?thesis
    by (simp add: computeBackoff_def Let_def Math_min_NaN)
qed

lemma default_NaN:
  assumes "1016 \<le> k"
  shows "computeBackoff DEFAULT_RECONNECT_POLICY k (Finite 0) = NaN"
proof -
  have "1015 \<le> nat (max (k - 1) 0)"
    using assms by simp
  then have "js_times (Finite 1000) (js_power (Finite 2) (nat (max (k - 1) 0))) = PosInfinity"
    by (rule base_infinite)
  then show ?thesis
    by (simp add: computeBackoff_def Let_def DEFAULT_RECONNECT_POLICY_def)
qed

lemma default_infinite_base:
  assumes "1016 \<le> k" and "0 < r"
  shows "computeBackoff DEFAULT_RECONNECT_POLICY k (Finite r) = Finite 30000"
proof -
  have "1015 \<le> nat (max (k - 1) 0)"
    using assms by simp
  then have "js_times (Finite 1000) (js_power (Finite 2) (nat (max (k - 1) 0))) = PosInfinity"
    by (rule base_infinite)
  then show ?thesis
    using assms(2) by (simp add: computeBackoff_def Let_def DEFAULT_RECONNECT_POLICY_def)
qed

text \<open>
  The default policy while the base delay is finite: the jitter is between 0 and a quarter
  of the base delay, so the sum is at least the base delay.
\<close>

lemma default_jitter:
  assumes "0 \<le> r" and "r < 1" and "n \<le> 1014"
  shows "\<exists>j. js_times (js_times (Finite (1000 * 2 ^ n)) (Finite (25 / 100))) (Finite r) = Finite j
             \<and> 0 \<le> j \<and> j \<le> 250 * 2 ^ n"
proof -
  have rep: "round_to_double (of_int 250 * 2 ^ n) = Finite (of_int 250 * 2 ^ n)"
    using assms(3) by (intro multiple_double[where j = 8]) simp_all
  have quarter: "js_times (Finite (1000 * 2 ^ n)) (Finite (25 / 100)) = Finite (250 * 2 ^ n)"
    using rep by simp
  have "0 \<le> 250 * 2 ^ n * r" and "250 * 2 ^ n * r \<le> 250 * 2 ^ n"
    using assms(1,2) by (simp_all add: mult_le_cancel_left1)
  from round_to_double_upper[OF this(1) _ this(2)] rep
  show ?thesis
    unfolding quarter by simp
qed

lemma default_sum_lower:
  assumes "0 \<le> j" and "n \<le> 1014"
  shows "js_plus (Finite (1000 * 2 ^ n)) (Finite j) = PosInfinity
         \<or> (\<exists>s. js_plus (Finite (1000 * 2 ^ n)) (Finite j) = Finite s \<and> 1000 * 2 ^ n \<le> s)"
proof -
  have rep: "round_to_double (1000 * 2 ^ n) = Finite (1000 * 2 ^ n)"
    using multiple_double[of 1000 10 n] assms(2) by simp
  have "(0::rat) < 1000 * 2 ^ n"
    by simp
  from round_to_double_lower[OF this rep, of "1000 * 2 ^ n + j"] assms(1)
  show ?thesis
    by simp
qed

lemma default_sum_upper:
  assumes "0 \<le> j" and "j \<le> 250 * 2 ^ n" and "n \<le> 1013"
  shows "\<exists>s. js_plus (Finite (1000 * 2 ^ n)) (Finite j) = Finite s \<and> s \<le> 1250 * 2 ^ n"
proof -
  have rep: "round_to_double (1250 * 2 ^ n) = Finite (1250 * 2 ^ n)"
    using multiple_double[of 1250 11 n] assms(3) by simp
  have "(0::rat) \<le> 1000 * 2 ^ n + j"
    using assms(1) by simp
  from round_to_double_upper[OF this rep] assms(2)
  show ?thesis
    by auto
qed

lemma default_capped:
  assumes "0 \<le> r" and "r < 1" and "6 \<le> k" and "k \<le> 1015 \<or> 0 < r"
  shows "computeBackoff DEFAULT_RECONNECT_POLICY k (Finite r) = Finite 30000"
proof (cases "k \<le> 1015")
  case False
  with assms show ?thesis
    by (simp add: default_infinite_base)
next
  case True
  let ?n = "nat (max (k - 1) 0)"
  have n: "5 \<le> ?n" "?n \<le> 1014"
    using assms(3) True by simp_all
  have base: "js_times (Finite 1000) (js_power (Finite 2) ?n) = Finite (1000 * 2 ^ ?n)"
    by (rule base_finite[OF n(2)])
  obtain j where j: "js_times (js_times (Finite (1000 * 2 ^ ?n)) (Finite (25 / 100))) (Finite r)
      = Finite j" "0 \<le> j"
    using default_jitter[OF assms(1,2) n(2)] by blast
  have "(2::rat) ^ 5 \<le> 2 ^ ?n"
    using n(1) by (intro power_increasing) simp_all
  then have big: "(30000::rat) \<le> 1000 * 2 ^ ?n"
    by simp
  have eq: "computeBackoff DEFAULT_RECONNECT_POLICY k (Finite r)
      = Math_min (Finite 30000) (Math_round (js_plus (Finite (1000 * 2 ^ ?n)) (Finite j)))"
    by (simp only: computeBackoff_def Let_def DEFAULT_RECONNECT_POLICY_def BackoffPolicy.simps
          base j(1))
  from default_sum_lower[OF j(2) n(2)] show ?thesis
  proof
    assume "js_plus (Finite (1000 * 2 ^ ?n)) (Finite j) = PosInfinity"
    then show ?thesis
      unfolding eq by simp
  next
    assume "\<exists>s. js_plus (Finite (1000 * 2 ^ ?n)) (Finite j) = Finite s \<and> 1000 * 2 ^ ?n \<le> s"
    then obtain s where s: "js_plus (Finite (1000 * 2 ^ ?n)) (Finite j) = Finite s"
      and "1000 * 2 ^ ?n \<le> s"
      by blast
    with big have "of_int 30000 \<le> s"
      by simp
    then have "30000 \<le> \<lfloor>s + 1 / 2\<rfloor>"
      by (simp add: le_floor_iff)
    then have "(of_int 30000 :: rat) \<le> of_int \<lfloor>s + 1 / 2\<rfloor>"
      by (simp only: of_int_le_iff)
    then show ?thesis
      unfolding eq s by (simp add: min_def)
  qed
qed

lemma default_bounds:
  assumes "0 \<le> r" and "r < 1" and "k \<le> 1015 \<or> 0 < r"
  shows "\<exists>d. computeBackoff DEFAULT_RECONNECT_POLICY k (Finite r) = Finite d
             \<and> min 30000 (spec_base 1000 2 k) \<le> d
             \<and> d \<le> min 30000 (spec_base 1000 2 k * (1 + 25 / 100))"
proof (cases "6 \<le> k")
  case True
  let ?n = "nat (max (k - 1) 0)"
  have "(2::rat) ^ 5 \<le> 2 ^ ?n"
    using True by (intro power_increasing) simp_all
  then have "(30000::rat) \<le> 1000 * 2 ^ ?n"
    by simp
  then have "min 30000 (spec_base 1000 2 k) = 30000"
    and "min 30000 (spec_base 1000 2 k * (1 + 25 / 100)) = 30000"
    by (simp_all add: spec_base_def)
  then show ?thesis
    using default_capped[OF assms(1,2) True assms(3)] by simp
next
  case False
  let ?n = "nat (max (k - 1) 0)"
  have n: "?n \<le> 1013" "?n \<le> 1014"
    using False by simp_all
  have base: "js_times (Finite 1000) (js_power (Finite 2) ?n) = Finite (1000 * 2 ^ ?n)"
    by (rule base_finite[OF n(2)])
  obtain j where j: "js_times (js_times (Finite (1000 * 2 ^ ?n)) (Finite (25 / 100))) (Finite r)
      = Finite j" "0 \<le> j" "j \<le> 250 * 2 ^ ?n"
    using default_jitter[OF assms(1,2) n(2)] by blast
  have eq: "computeBackoff DEFAULT_RECONNECT_POLICY k (Finite r)
      = Math_min (Finite 30000) (Math_round (js_plus (Finite (1000 * 2 ^ ?n)) (Finite j)))"
    by (simp only: computeBackoff_def Let_def DEFAULT_RECONNECT_POLICY_def BackoffPolicy.simps
          base j(1))
  obtain s where s: "js_plus (Finite (1000 * 2 ^ ?n)) (Finite j) = Finite s"
    and hi: "s \<le> 1250 * 2 ^ ?n"
    using default_sum_upper[OF j(2,3) n(1)] by blast
  from default_sum_lower[OF j(2) n(2)] s have lo: "1000 * 2 ^ ?n \<le> s"
    by simp
  have "of_int (1000 * 2 ^ ?n) \<le> s" and "s \<le> of_int (1250 * 2 ^ ?n)"
    using lo hi by simp_all
  from Math_round_between[OF this]
  obtain t where t: "Math_round (Finite s) = Finite t" "1000 * 2 ^ ?n \<le> t" "t \<le> 1250 * 2 ^ ?n"
    by auto
  have "computeBackoff DEFAULT_RECONNECT_POLICY k (Finite r) = Finite (min 30000 t)"
    unfolding eq s t(1) by simp
  moreover have "min 30000 (spec_base 1000 2 k) \<le> min 30000 t"
    using t(2) by (simp add: spec_base_def min_def)
  moreover have "min 30000 t \<le> min 30000 (spec_base 1000 2 k * (1 + 25 / 100))"
    using t(3) by (simp add: spec_base_def min_def)
  ultimately show ?thesis
    by blast
qed

lemma default_first_delay:
  "computeBackoff DEFAULT_RECONNECT_POLICY 1 (Finite 0) = Finite 1000"
proof -
  have zero: "round_to_double 0 = Finite 0"
    by (simp add: round_to_double_def)
  have ints: "round_to_double 1000 = Finite 1000" "round_to_double 250 = Finite 250"
    using round_to_double_of_int[of 1000] round_to_double_of_int[of 250] by simp_all
  have base: "js_times (Finite 1000) (js_power (Finite 2) 0) = Finite 1000"
    using base_finite[of 0] by simp
  have quarter: "js_times (Finite 1000) (Finite (25 / 100)) = Finite 250"
    using ints(2) by simp
  have round: "Math_round (Finite 1000) = Finite 1000"
    using Math_round_of_int[of 1000] by simp
  have e: "nat (max (1 - 1) 0) = 0"
    by simp
  show ?thesis
    unfolding computeBackoff_def Let_def DEFAULT_RECONNECT_POLICY_def
    by (simp only: BackoffPolicy.simps e base quarter) (simp add: zero ints round del: Math_round.simps)
qed

lemma spec_delay_capped:
  assumes "0 \<le> jf" and "0 \<le> U" and "6 \<le> k"
  shows "spec_delay 1000 30000 2 jf k U = 30000"
proof -
  let ?n = "nat (max (k - 1) 0)"
  have "(2::rat) ^ 5 \<le> 2 ^ ?n"
    using assms(3) by (intro power_increasing) simp_all
  then have "(30000::rat) \<le> 1000 * 2 ^ ?n"
    by simp
  also have "\<dots> = 1000 * 2 ^ ?n * 1"
    by simp
  also have "\<dots> \<le> 1000 * 2 ^ ?n * (1 + jf * U)"
    using assms(1,2) by (intro mult_left_mono) simp_all
  finally have "(30000::rat) \<le> 1000 * 2 ^ ?n * (1 + jf * U)" .
  then have "(30000::rat) \<le> 1000 * 2 ^ ?n * (1 + jf * U) + 1 / 2"
    by linarith
  then have "of_int 30000 \<le> 1000 * 2 ^ ?n * (1 + jf * U) + 1 / 2"
    by (simp only: of_int_numeral)
  then have "30000 \<le> \<lfloor>1000 * 2 ^ ?n * (1 + jf * U) + 1 / 2\<rfloor>"
    by (simp only: le_floor_iff)
  then have "(of_int 30000 :: rat) \<le> of_int \<lfloor>1000 * 2 ^ ?n * (1 + jf * U) + 1 / 2\<rfloor>"
    by (simp only: of_int_le_iff)
  then show ?thesis
    by (simp add: spec_delay_def spec_base_def min_def)
qed

text \<open>
  The literal \<^verbatim>\<open>0.15\<close> denotes the double \<open>5404319552844595 / 2 ^ 55\<close>, just below 0.15;
  ten times it, rounded, is the double 1.5.
\<close>

lemma literal_015: "round_to_double (15 / 100) = Finite (5404319552844595 / 2 ^ 55)"
proof -
  have p: "(2::rat) powi max (- 3 - 52) (- 1074) = 1 / 2 ^ 55"
    by (simp add: power_int_minus_divide)
  have fl: "\<lfloor>15 / 100 * 2 ^ 55 :: rat\<rfloor> = 5404319552844595"
    by (simp add: floor_eq_iff)
  have "round_to_double (15 / 100)
      = Finite (of_int 5404319552844595 * 2 powi max (- 3 - 52) (- 1074))"
  proof (rule round_to_double_eval[where e = "- 3"])
    show "round_half_even (15 / 100 / 2 powi max (- 3 - 52) (- 1074)) = 5404319552844595"
      unfolding p using fl by (simp add: round_half_even_def Let_def)
  qed (simp_all add: power_int_minus_divide)
  then show ?thesis
    unfolding p by simp
qed

lemma literal_015_times_10:
  "js_times (Finite (5404319552844595 / 2 ^ 55)) (Finite 10) = Finite (3 / 2)"
proof -
  have p: "(2::rat) powi max (0 - 52) (- 1074) = 1 / 2 ^ 52"
    by (simp add: power_int_minus_divide)
  have fl: "\<lfloor>5404319552844595 / 2 ^ 55 * 10 * 2 ^ 52 :: rat\<rfloor> = 6755399441055743"
    by (simp add: floor_eq_iff)
  have "round_to_double (5404319552844595 / 2 ^ 55 * 10)
      = Finite (of_int 6755399441055744 * 2 powi max (0 - 52) (- 1074))"
  proof (rule round_to_double_eval[where e = 0])
    show "round_half_even (5404319552844595 / 2 ^ 55 * 10 / 2 powi max (0 - 52) (- 1074))
        = 6755399441055744"
      unfolding p using fl by (simp add: round_half_even_def Let_def)
  qed (simp_all add: power_int_minus_divide)
  then show ?thesis
    unfolding p by simp
qed

lemma rounded_product_delay:
  "computeBackoff \<lparr>initialMs = Finite (5404319552844595 / 2 ^ 55), maxMs = Finite 30000,
                    factor = Finite 10, jitter = Finite 0\<rparr> 2 (Finite r) = Finite 2"
proof -
  have zero: "round_to_double 0 = Finite 0"
    by (simp add: round_to_double_def)
  have ten: "js_power (Finite 10) 1 = Finite 10"
    using round_to_double_of_int[of 10] by simp
  have half: "round_to_double (3 / 2) = Finite (3 / 2)"
    by (rule round_to_double_representable[where m = 3 and q' = "- 1"]) simp_all
  have e: "nat (max (2 - 1) 0) = 1"
    by simp
  have base: "js_times (Finite (5404319552844595 / 2 ^ 55))
                (js_power (Finite 10) (nat (max (2 - 1) 0))) = Finite (3 / 2)"
    by (simp only: e ten literal_015_times_10)
  have jit: "js_times (js_times (Finite (3 / 2)) (Finite 0)) (Finite r) = Finite 0"
    by (simp add: zero)
  have sum: "js_plus (Finite (3 / 2)) (Finite 0) = Finite (3 / 2)"
    by (simp add: half)
  have rnd: "Math_round (Finite (3 / 2)) = Finite 2"
    by simp
  show ?thesis
    unfolding computeBackoff_def Let_def
    by (simp only: BackoffPolicy.simps base jit sum rnd Math_min.simps) simp
qed

lemma exact_product_delay: "spec_delay (5404319552844595 / 2 ^ 55) 30000 10 0 2 U = 1"
proof -
  have "\<lfloor>5404319552844595 / 2 ^ 55 * 10 + 1 / 2 :: rat\<rfloor> = 1"
    by (simp add: floor_eq_iff)
  then show ?thesis
    by (simp add: spec_delay_def spec_base_def)
qed

text \<open>
  C3. The delay is computed in double arithmetic, and the cap is applied last, by
  \<^verbatim>\<open>Math.min\<close>. What the claim says of the delay holds while the base delay is finite:
  attempt 0 gives the delay of attempt 1; with jitter 0, initial delay 1000 and factor 2
  (and a cap of at least 4000) attempts 1, 2, 3 give 1000, 2000, 4000 whatever the draw;
  for the default policy and a draw \<open>r\<close> in \<open>[0, 1)\<close> the delay of attempt \<open>k\<close> lies between
  \<open>base k\<close> and \<open>base k * (1 + jitter)\<close>, both clipped to the cap, and attempts 6 and 7 give
  exactly 30000. It fails once the base delay overflows: from attempt 1016 on,
  \<open>1000 * 2 ** (k - 1)\<close> is \<^verbatim>\<open>Infinity\<close>, the jitter \<^verbatim>\<open>Infinity * 0\<close> is \<^verbatim>\<open>NaN\<close> when the
  jitter fraction or the draw is 0, and \<^verbatim>\<open>Math.min(maxMs, NaN)\<close> is \<^verbatim>\<open>NaN\<close>: with
  jitter 0 and a cap of 30000, attempt 1100 gives \<^verbatim>\<open>NaN\<close> where the formula of the
  claim gives the cap, 30000; so does the default policy when the draw is 0. Besides,
  every operation rounds, so the formula is met in double arithmetic only: with the
  initial delay \<^verbatim>\<open>0.15\<close>, the factor 10 and jitter 0, attempt 2 gives 2, where the formula
  in exact arithmetic gives 1.
\<close>

theorem computeBackoff_is_NaN_once_base_overflows:
  "computeBackoff p 0 u = computeBackoff p 1 u
   \<and> (4000 \<le> m \<longrightarrow>
        computeBackoff \<lparr>initialMs = Finite 1000, maxMs = Finite m, factor = Finite 2,
                        jitter = Finite 0\<rparr> 1 (Finite r) = Finite 1000
        \<and> computeBackoff \<lparr>initialMs = Finite 1000, maxMs = Finite m, factor = Finite 2,
                          jitter = Finite 0\<rparr> 2 (Finite r) = Finite 2000
        \<and> computeBackoff \<lparr>initialMs = Finite 1000, maxMs = Finite m, factor = Finite 2,
                          jitter = Finite 0\<rparr> 3 (Finite r) = Finite 4000)
   \<and> (0 \<le> r \<and> r < 1 \<and> (k \<le> 1015 \<or> 0 < r) \<longrightarrow>
        (\<exists>d. computeBackoff DEFAULT_RECONNECT_POLICY k (Finite r) = Finite d
              \<and> min 30000 (spec_base 1000 2 k) \<le> d
              \<and> d \<le> min 30000 (spec_base 1000 2 k * (1 + 25 / 100))))
   \<and> (0 \<le> r \<and> r < 1 \<longrightarrow>
        computeBackoff DEFAULT_RECONNECT_POLICY 6 (Finite r) = Finite 30000
        \<and> computeBackoff DEFAULT_RECONNECT_POLICY 7 (Finite r) = Finite 30000)
   \<and> (1016 \<le> k \<longrightarrow>
        computeBackoff \<lparr>initialMs = Finite 1000, maxMs = mx, factor = Finite 2,
                        jitter = Finite 0\<rparr> k u = NaN
        \<and> computeBackoff DEFAULT_RECONNECT_POLICY k (Finite 0) = NaN)
   \<and> computeBackoff \<lparr>initialMs = Finite 1000, maxMs = Finite 30000, factor = Finite 2,
                      jitter = Finite 0\<rparr> 1100 u = NaN
   \<and> (0 \<le> U \<longrightarrow> spec_delay 1000 30000 2 0 1100 U = 30000)
   \<and> round_to_double (15 / 100) = Finite (5404319552844595 / 2 ^ 55)
   \<and> computeBackoff \<lparr>initialMs = Finite (5404319552844595 / 2 ^ 55), maxMs = Finite 30000,
                      factor = Finite 10, jitter = Finite 0\<rparr> 2 (Finite r) = Finite 2
   \<and> spec_delay (5404319552844595 / 2 ^ 55) 30000 10 0 2 U = 1"
proof -
  have zero: "computeBackoff p 0 u = computeBackoff p 1 u"
    by (simp add: computeBackoff_def)
  have vals: "4000 \<le> m \<longrightarrow>
        computeBackoff \<lparr>initialMs = Finite 1000, maxMs = Finite m, factor = Finite 2,
                        jitter = Finite 0\<rparr> 1 (Finite r) = Finite 1000
        \<and> computeBackoff \<lparr>initialMs = Finite 1000, maxMs = Finite m, factor = Finite 2,
                          jitter = Finite 0\<rparr> 2 (Finite r) = Finite 2000
        \<and> computeBackoff \<lparr>initialMs = Finite 1000, maxMs = Finite m, factor = Finite 2,
                          jitter = Finite 0\<rparr> 3 (Finite r) = Finite 4000"
    using no_jitter_values[of m r] by blast
  have bounds: "0 \<le> r \<and> r < 1 \<and> (k \<le> 1015 \<or> 0 < r) \<longrightarrow>
        (\<exists>d. computeBackoff DEFAULT_RECONNECT_POLICY k (Finite r) = Finite d
              \<and> min 30000 (spec_base 1000 2 k) \<le> d
              \<and> d \<le> min 30000 (spec_base 1000 2 k * (1 + 25 / 100)))"
    using default_bounds[of r k] by blast
  have caps: "0 \<le> r \<and> r < 1 \<longrightarrow>
        computeBackoff DEFAULT_RECONNECT_POLICY 6 (Finite r) = Finite 30000
        \<and> computeBackoff DEFAULT_RECONNECT_POLICY 7 (Finite r) = Finite 30000"
    using default_capped[of r 6] default_capped[of r 7] by simp
  have nan: "1016 \<le> k \<longrightarrow>
        computeBackoff \<lparr>initialMs = Finite 1000, maxMs = mx, factor = Finite 2,
                        jitter = Finite 0\<rparr> k u = NaN
        \<and> computeBackoff DEFAULT_RECONNECT_POLICY k (Finite 0) = NaN"
    using no_jitter_NaN[of k mx u] default_NaN[of k] by blast
  have failing: "computeBackoff \<lparr>initialMs = Finite 1000, maxMs = Finite 30000,
                                 factor = Finite 2, jitter = Finite 0\<rparr> 1100 u = NaN"
    by (rule no_jitter_NaN) simp
  have spec: "0 \<le> U \<longrightarrow> spec_delay 1000 30000 2 0 1100 U = 30000"
    using spec_delay_capped[of 0 U 1100] by simp
  show ?thesis
    by (intro conjI zero vals bounds caps nan failing spec literal_015 rounded_product_delay
          exact_product_delay)
qed

theorem computeBackoff_is_NaN_once_base_overflows_witness:
  "(4000::rat) \<le> 30000 \<and> (0::rat) \<le> 1 / 2 \<and> (1 / 2 :: rat) < 1 \<and> (1016::int) \<le> 1100
   \<and> computeBackoff \<lparr>initialMs = Finite 1000, maxMs = Finite 30000, factor = Finite 2,
                      jitter = Finite 0\<rparr> 3 (Finite (1 / 2)) = Finite 4000
   \<and> computeBackoff DEFAULT_RECONNECT_POLICY 7 (Finite (1 / 2)) = Finite 30000
   \<and> computeBackoff DEFAULT_RECONNECT_POLICY 1100 (Finite 0) = NaN
   \<and> spec_delay 1000 30000 2 0 1100 0 = 30000"
  using computeBackoff_is_NaN_once_base_overflows[of DEFAULT_RECONNECT_POLICY "Finite 0" 30000
      "1 / 2" 1100 "Finite 30000" 0]
  by simp

section \<open>The connection client\<close>

lemmas client_defs =
  start_def stop_def updatePricing_def connect_def scheduleReconnect_def on_open_def
  on_close_def on_error_def on_message_def handleMessage_def on_relay_settled_def
  on_relay_fulfilled_def on_relay_rejected_def on_timer_def setStatus_def sendMessage_def
  socket_close_def set_readyState_def

lemma restart_close_step:
  assumes "\<not> closed c"
  shows "step parse (WsClose s 1012 u) c =
           (c\<lparr>sockets := (sockets c)[s := CLOSED], ws := None, status := reconnecting,
              reconnectAttempt := 1, reconnectTimer := Some (nextTimer c),
              timers := timers c @ [nextTimer c], nextTimer := nextTimer c + 1\<rparr>,
            [StatusChange reconnecting (pluginId c) (requestCount c),
             SetTimeout (nextTimer c) (computeBackoff (policy c) 1 u), ConsoleLog])"
  using assms by (simp add: client_defs Let_def)

lemma step_requestCount:
  "requestCount (fst (step parse ev c)) =
     requestCount c + (if ev = RelaySettled Fulfilled then 1 else 0)"
  by (cases ev)
     (auto simp: client_defs Let_def split: option.splits ServerMessage.splits promise.splits prod.splits)

lemma fst_run_Cons:
  "fst (run parse (ev # evs) c) = fst (run parse evs (fst (step parse ev c)))"
  by (simp add: Let_def split: prod.splits)

lemma snd_run_Cons:
  "snd (run parse (ev # evs) c) =
     snd (step parse ev c) @ snd (run parse evs (fst (step parse ev c)))"
  by (simp add: Let_def split: prod.splits)

lemma run_requestCount:
  "requestCount (fst (run parse evs c)) = requestCount c + fulfilled_count evs"
proof (induction evs arbitrary: c)
  case Nil
  show ?case by (simp add: fulfilled_count_def)
next
  case (Cons ev evs)
  show ?case
    unfolding fst_run_Cons Cons.IH step_requestCount
    by (simp add: fulfilled_count_def)
qed

lemma discard:
  assumes "validated parse raw = None"
  shows "handleMessage parse raw c = (c, [])"
  using assms by (auto simp: handleMessage_def validated_def split: option.splits)

lemma strict_keys_extra:
  assumes "(k, v) \<in> set kvs" and "k \<notin> set shape"
  shows "\<not> strict_keys shape kvs"
  using assms by (force simp: strict_keys_def list_all_iff)

lemma unknown_type:
  assumes "obj_get kvs ''type'' = Some (JStr t)" "t \<notin> set known_types"
  shows "ServerMessageSchema (JObj kvs) = None"
  using assms by (simp add: ServerMessageSchema_def known_types_def)

lemma no_type:
  assumes "\<forall>t. obj_get kvs ''type'' \<noteq> Some (JStr t)"
  shows "ServerMessageSchema (JObj kvs) = None"
  using assms by (auto simp: ServerMessageSchema_def split: option.splits json.splits)

lemma not_object:
  assumes "\<forall>kvs. j \<noteq> JObj kvs"
  shows "ServerMessageSchema j = None"
  using assms by (auto simp: ServerMessageSchema_def split: json.splits)

lemmas schema_defs = ServerRequestMessageSchema_def ServerPingMessageSchema_def
  ServerAuthOkMessageSchema_def ServerAuthErrorMessageSchema_def
  ServerJwtRefreshMessageSchema_def ServerPriceUpdateAckMessageSchema_def

lemma extra_field:
  assumes "obj_get kvs ''type'' = Some (JStr t)" "(k, v) \<in> set kvs" "k \<notin> set (shape_of t)"
  shows "ServerMessageSchema (JObj kvs) = None"
proof -
  have strict: "\<not> strict_keys (shape_of t) kvs"
    using assms(2,3) by (rule strict_keys_extra)
  consider "t = ''request''" | "t = ''ping''" | "t = ''auth_ok''" | "t = ''auth_error''"
    | "t = ''jwt_refresh''" | "t = ''price_update_ack''" | "t \<notin> set known_types"
    by (auto simp: known_types_def)
  then show ?thesis
  proof cases
    case 1
    with strict assms(1) show ?thesis
      by (simp add: ServerMessageSchema_def ServerRequestMessageSchema_def shape_of_def)
  next
    case 2
    with strict assms(1) show ?thesis
      by (simp add: ServerMessageSchema_def ServerPingMessageSchema_def shape_of_def)
  next
    case 3
    with strict assms(1) show ?thesis
      by (simp add: ServerMessageSchema_def ServerAuthOkMessageSchema_def shape_of_def)
  next
    case 4
    with strict assms(1) show ?thesis
      by (simp add: ServerMessageSchema_def ServerAuthErrorMessageSchema_def shape_of_def)
  next
    case 5
    with strict assms(1) show ?thesis
      by (simp add: ServerMessageSchema_def ServerJwtRefreshMessageSchema_def shape_of_def)
  next
    case 6
    with strict assms(1) show ?thesis
      by (simp add: ServerMessageSchema_def ServerPriceUpdateAckMessageSchema_def shape_of_def)
  next
    case 7
    with assms(1) show ?thesis
      by (rule unknown_type)
  qed
qed

lemma wrong_protocol:
  assumes "obj_get kvs ''type'' = Some (JStr ''auth_ok'')"
    and "obj_get kvs ''protocol'' \<noteq> Some (JNum SIXERR_PROTOCOL_VERSION)"
  shows "ServerMessageSchema (JObj kvs) = None"
  using assms
  by (auto simp: ServerMessageSchema_def ServerAuthOkMessageSchema_def z_literal_num_def
           split: option.splits json.splits)


lemma ping_not_safe_integer:
  assumes "obj_get kvs ''type'' = Some (JStr ''ping'')"
    and "obj_get kvs ''ts'' = Some (JNum n)"
    and "of_int \<lfloor>n\<rfloor> \<noteq> n \<or> n < - MAX_SAFE_INTEGER \<or> MAX_SAFE_INTEGER < n"
  shows "ServerMessageSchema (JObj kvs) = None"
  using assms
  by (auto simp: ServerMessageSchema_def ServerPingMessageSchema_def z_number_int_def)

lemma step_stays_closed:
  assumes "closed c" and "ev \<noteq> Start"
  shows "closed (fst (step parse ev c))"
  using assms
  by (cases ev)
     (auto simp: client_defs Let_def split: option.splits ServerMessage.splits promise.splits prod.splits)

lemma step_closed_no_reconnect:
  assumes "closed c" and "ev \<noteq> Start" and "e \<in> set (snd (step parse ev c))"
  shows "\<not> is_reconnect_effect e"
  using assms
  by (cases ev)
     (auto simp: client_defs Let_def split: option.splits ServerMessage.splits promise.splits prod.splits if_splits)

lemma step_closed_status:
  assumes "closed c" and "ev \<noteq> Start"
    and "status c \<noteq> connecting \<and> status c \<noteq> reconnecting"
  shows "status (fst (step parse ev c)) \<noteq> connecting
         \<and> status (fst (step parse ev c)) \<noteq> reconnecting"
  using assms
  by (cases ev)
     (auto simp: client_defs Let_def split: option.splits ServerMessage.splits promise.splits prod.splits)

lemma step_closed_disconnected:
  assumes "closed c" and "ev \<noteq> Start" and "\<not> is_open_event ev"
    and "\<not> is_auth_ok_event parse ev" and "status c = disconnected"
  shows "status (fst (step parse ev c)) = disconnected"
  using assms
  by (cases ev)
     (auto simp: client_defs Let_def is_auth_ok_def validated_def
           split: option.splits ServerMessage.splits promise.splits prod.splits)

lemma run_stays_closed:
  assumes "closed c" and "Start \<notin> set evs"
  shows "closed (fst (run parse evs c))"
  using assms
proof (induction evs arbitrary: c)
  case Nil
  then show ?case by simp
next
  case (Cons ev evs)
  from Cons.prems have "closed (fst (step parse ev c))"
    by (intro step_stays_closed) auto
  with Cons show ?case
    unfolding fst_run_Cons by simp
qed

lemma run_closed_no_reconnect:
  assumes "closed c" and "Start \<notin> set evs" and "e \<in> set (snd (run parse evs c))"
  shows "\<not> is_reconnect_effect e"
  using assms
proof (induction evs arbitrary: c)
  case Nil
  then show ?case by simp
next
  case (Cons ev evs)
  have ev: "ev \<noteq> Start" and evs: "Start \<notin> set evs"
    using Cons.prems(2) by auto
  from Cons.prems(3) consider "e \<in> set (snd (step parse ev c))"
    | "e \<in> set (snd (run parse evs (fst (step parse ev c))))"
    unfolding snd_run_Cons by auto
  then show ?case
  proof cases
    case 1
    with Cons.prems(1) ev show ?thesis
      by (rule step_closed_no_reconnect)
  next
    case 2
    have "closed (fst (step parse ev c))"
      using Cons.prems(1) ev by (rule step_stays_closed)
    from Cons.IH[OF this evs 2] show ?thesis .
  qed
qed

lemma run_closed_status:
  assumes "closed c" and "Start \<notin> set evs"
    and "status c \<noteq> connecting \<and> status c \<noteq> reconnecting"
  shows "status (fst (run parse evs c)) \<noteq> connecting
         \<and> status (fst (run parse evs c)) \<noteq> reconnecting"
  using assms
proof (induction evs arbitrary: c)
  case Nil
  then show ?case by simp
next
  case (Cons ev evs)
  have ev: "ev \<noteq> Start" and evs: "Start \<notin> set evs"
    using Cons.prems(2) by auto
  have "closed (fst (step parse ev c))"
    using Cons.prems(1) ev by (rule step_stays_closed)
  moreover note evs
  moreover have "status (fst (step parse ev c)) \<noteq> connecting
      \<and> status (fst (step parse ev c)) \<noteq> reconnecting"
    using Cons.prems(1) ev Cons.prems(3) by (rule step_closed_status)
  ultimately show ?case
    unfolding fst_run_Cons by (rule Cons.IH)
qed

lemma run_closed_disconnected:
  assumes "closed c" and "Start \<notin> set evs"
    and "\<forall>ev \<in> set evs. \<not> is_open_event ev \<and> \<not> is_auth_ok_event parse ev"
    and "status c = disconnected"
  shows "status (fst (run parse evs c)) = disconnected"
  using assms
proof (induction evs arbitrary: c)
  case Nil
  then show ?case by simp
next
  case (Cons ev evs)
  have ev: "ev \<noteq> Start" and evs: "Start \<notin> set evs"
    using Cons.prems(2) by auto
  have "closed (fst (step parse ev c))"
    using Cons.prems(1) ev by (rule step_stays_closed)
  moreover note evs
  moreover have "\<forall>ev \<in> set evs. \<not> is_open_event ev \<and> \<not> is_auth_ok_event parse ev"
    using Cons.prems(3) by simp
  moreover have "status (fst (step parse ev c)) = disconnected"
    using Cons.prems(1) ev _ _ Cons.prems(4)
    by (rule step_closed_disconnected) (use Cons.prems(3) in simp_all)
  ultimately show ?case
    unfolding fst_run_Cons by (rule Cons.IH)
qed

lemma auth_error_effect:
  assumes "is_auth_error parse raw"
  shows "status (fst (handleMessage parse raw c)) = disconnected"
    and "closed (fst (handleMessage parse raw c))"
    and "ws (fst (handleMessage parse raw c)) = None"
    and "\<forall>e \<in> set (snd (handleMessage parse raw c)). \<not> is_reconnect_effect e"
  using assms
  by (auto simp: client_defs Let_def is_auth_error_def validated_def
           split: option.splits ServerMessage.splits prod.splits)

lemma step_stays_open:
  assumes "\<not> closed c" and "ev \<noteq> Stop" and "\<not> is_auth_error_event parse ev"
  shows "\<not> closed (fst (step parse ev c))"
  using assms
  by (cases ev)
     (auto simp: client_defs Let_def is_auth_error_def validated_def
           split: option.splits ServerMessage.splits promise.splits prod.splits)

lemma run_stays_open:
  assumes "\<not> closed c" and "Stop \<notin> set evs" and "\<forall>ev \<in> set evs. \<not> is_auth_error_event parse ev"
  shows "\<not> closed (fst (run parse evs c))"
  using assms
proof (induction evs arbitrary: c)
  case Nil
  then show ?case by simp
next
  case (Cons ev evs)
  have "\<not> closed (fst (step parse ev c))"
    using Cons.prems by (intro step_stays_open) auto
  with Cons show ?case
    unfolding fst_run_Cons by simp
qed

lemma start_opens: "\<not> closed (fst (start c))"
  by (simp add: client_defs Let_def)

lemma close_when_open:
  assumes "\<not> closed c"
  shows "status (fst (step parse (WsClose s code u) c)) = reconnecting"
    and "snd (step parse (WsClose s code u) c) =
           [StatusChange reconnecting (pluginId c) (requestCount c),
            SetTimeout (nextTimer c)
              (computeBackoff (policy c) (if code = 1012 then 1 else reconnectAttempt c + 1) u),
            ConsoleLog]"
    and "reconnectTimer (fst (step parse (WsClose s code u) c)) = Some (nextTimer c)"
    and "nextTimer c \<in> set (timers (fst (step parse (WsClose s code u) c)))"
  using assms by (simp_all add: client_defs Let_def)

lemma close_when_closed:
  assumes "closed c"
  shows "step parse (WsClose s code u) c =
           (c\<lparr>sockets := (sockets c)[s := CLOSED], ws := None,
              reconnectAttempt := (if code = 1012 then 0 else reconnectAttempt c),
              status := disconnected\<rparr>,
            [StatusChange disconnected (pluginId c) (requestCount c)])"
  using assms by (simp add: client_defs Let_def)


lemmas schema_eval = ServerMessageSchema_def schema_defs strict_keys_def z_string_def
  z_string_min1_def z_number_int_def z_literal_num_def obj_get_def SIXERR_PROTOCOL_VERSION_def
  MAX_SAFE_INTEGER_def

lemmas example_defs = example_config_def example_frames_def example_parse_def
  new_PluginClient_def

lemma example_connected_eq:
  "example_connected =
     \<lparr>ws = Some 0, status = connected, reconnectAttempt = 0, closed = False, requestCount = 0,
      pluginId = Some ''p-1'', reconnectTimer = None, policy = DEFAULT_RECONNECT_POLICY,
      config = example_config, sockets = [OPEN], timers = [], nextTimer = 0\<rparr>"
  unfolding example_connected_def
  by (simp add: client_defs readyState_def schema_eval example_defs Let_def)

text \<open>
  C2, as the code has it. After a valid \<^verbatim>\<open>auth_error\<close> frame the status is disconnected and
  the client is closed. From then on, through every sequence of events without a call of
  \<^verbatim>\<open>start()\<close>, the client stays closed, sets no timer, creates no socket and never enters
  connecting or reconnecting. The status itself stays disconnected as long as no socket
  reports that it opened and no valid \<^verbatim>\<open>auth_ok\<close> frame arrives: the listeners for these
  two do not look at the closed flag.
\<close>

theorem auth_error_is_terminal:
  assumes "is_auth_error parse raw" and "Start \<notin> set evs"
  shows "status (fst (handleMessage parse raw c)) = disconnected
         \<and> closed (fst (handleMessage parse raw c))
         \<and> (\<forall>e \<in> set (snd (handleMessage parse raw c)). \<not> is_reconnect_effect e)
         \<and> closed (fst (run parse evs (fst (handleMessage parse raw c))))
         \<and> (\<forall>e \<in> set (snd (run parse evs (fst (handleMessage parse raw c)))).
               \<not> is_reconnect_effect e)
         \<and> status (fst (run parse evs (fst (handleMessage parse raw c)))) \<noteq> connecting
         \<and> status (fst (run parse evs (fst (handleMessage parse raw c)))) \<noteq> reconnecting
         \<and> ((\<forall>ev \<in> set evs. \<not> is_open_event ev \<and> \<not> is_auth_ok_event parse ev) \<longrightarrow>
              status (fst (run parse evs (fst (handleMessage parse raw c)))) = disconnected)"
proof -
  let ?c1 = "fst (handleMessage parse raw c)"
  note ae = auth_error_effect[OF assms(1), of c]
  have st: "status ?c1 \<noteq> connecting \<and> status ?c1 \<noteq> reconnecting"
    using ae(1) by simp
  show ?thesis
    using ae(1,2,4) run_stays_closed[OF ae(2) assms(2), of parse]
      run_closed_no_reconnect[OF ae(2) assms(2), of _ parse]
      run_closed_status[OF ae(2) assms(2) st, of parse]
      run_closed_disconnected[OF ae(2) assms(2) _ ae(1), of parse]
    by blast
qed

theorem auth_error_is_terminal_witness:
  "is_auth_error example_parse ''AUTH_ERROR''
   \<and> Start \<notin> set [WsClose 0 1000 (Finite 0), TimerFired 0, WsMessage 0 ''UNKNOWN_TYPE'']
   \<and> status (fst (run example_parse
                     [WsClose 0 1000 (Finite 0), TimerFired 0, WsMessage 0 ''UNKNOWN_TYPE'']
                     (fst (handleMessage example_parse ''AUTH_ERROR'' example_connected))))
       = disconnected"
proof -
  have a: "is_auth_error example_parse ''AUTH_ERROR''"
    by (simp add: is_auth_error_def validated_def example_defs schema_eval)
  have b: "Start \<notin> set [WsClose 0 1000 (Finite 0), TimerFired 0, WsMessage 0 ''UNKNOWN_TYPE'']"
    by simp
  have c: "\<forall>ev \<in> set [WsClose 0 1000 (Finite 0), TimerFired 0, WsMessage 0 ''UNKNOWN_TYPE''].
             \<not> is_open_event ev \<and> \<not> is_auth_ok_event example_parse ev"
    by (simp add: is_auth_ok_def validated_def example_defs schema_eval)
  from auth_error_is_terminal[OF a b, of example_connected] c a b show ?thesis
    by blast
qed

text \<open>
  C2 as stated fails: the client of the example receives a valid \<^verbatim>\<open>auth_error\<close> frame and
  is disconnected; a valid \<^verbatim>\<open>auth_ok\<close> frame delivered next by the same socket, with no
  call of \<^verbatim>\<open>start()\<close> in between, sets the status to connected.
\<close>

theorem auth_error_then_auth_ok_counterexample:
  "is_auth_error example_parse ''AUTH_ERROR''
   \<and> status (fst (run example_parse [Start, WsOpen 0, WsMessage 0 ''AUTH_ERROR'']
                     (new_PluginClient example_config None))) = disconnected
   \<and> status (fst (run example_parse
                     [Start, WsOpen 0, WsMessage 0 ''AUTH_ERROR'', WsMessage 0 ''AUTH_OK'']
                     (new_PluginClient example_config None))) = connected"
  by (simp add: client_defs readyState_def schema_eval example_defs Let_def is_auth_error_def
        validated_def)

text \<open>
  C4. A frame that \<^verbatim>\<open>JSON.parse\<close> rejects, or whose value the server message schema
  rejects, leaves the whole client as it was (status, plugin id, attempt counter, socket)
  and has no effect at all: nothing is sent, closed or scheduled. The schema rejects every
  value that is not an object, every object whose \<^verbatim>\<open>type\<close> is not one of the six literals,
  every object with a key outside the shape of its type, every \<^verbatim>\<open>auth_ok\<close> whose
  \<^verbatim>\<open>protocol\<close> is not the number 2, and every \<^verbatim>\<open>ping\<close> whose \<^verbatim>\<open>ts\<close> is a number that
  is not an integer of the safe range (of magnitude at most \<open>2 ^ 53 - 1\<close>).
\<close>

theorem invalid_frames_are_discarded:
  "((parse raw = None \<or> (\<exists>j. parse raw = Some j \<and> ServerMessageSchema j = None)) \<longrightarrow>
      handleMessage parse raw c = (c, []) \<and> step parse (WsMessage s raw) c = (c, []))
   \<and> ((\<forall>kvs'. j' \<noteq> JObj kvs') \<longrightarrow> ServerMessageSchema j' = None)
   \<and> ((\<forall>t'. obj_get kvs ''type'' \<noteq> Some (JStr t')) \<longrightarrow> ServerMessageSchema (JObj kvs) = None)
   \<and> (obj_get kvs ''type'' = Some (JStr t) \<and> t \<notin> set known_types \<longrightarrow>
        ServerMessageSchema (JObj kvs) = None)
   \<and> (obj_get kvs ''type'' = Some (JStr t) \<and> (k, v) \<in> set kvs \<and> k \<notin> set (shape_of t) \<longrightarrow>
        ServerMessageSchema (JObj kvs) = None)
   \<and> (obj_get kvs ''type'' = Some (JStr ''auth_ok'')
        \<and> obj_get kvs ''protocol'' \<noteq> Some (JNum 2) \<longrightarrow>
        ServerMessageSchema (JObj kvs) = None)
   \<and> SIXERR_PROTOCOL_VERSION = 2
   \<and> (obj_get kvs ''type'' = Some (JStr ''ping'') \<and> obj_get kvs ''ts'' = Some (JNum n)
        \<and> (of_int \<lfloor>n\<rfloor> \<noteq> n \<or> n < - (2 ^ 53 - 1) \<or> 2 ^ 53 - 1 < n) \<longrightarrow>
        ServerMessageSchema (JObj kvs) = None)"
proof -
  have "validated parse raw = None"
    if "parse raw = None \<or> (\<exists>j. parse raw = Some j \<and> ServerMessageSchema j = None)"
    using that by (auto simp: validated_def)
  then have drop: "(parse raw = None \<or> (\<exists>j. parse raw = Some j \<and> ServerMessageSchema j = None)) \<longrightarrow>
      handleMessage parse raw c = (c, []) \<and> step parse (WsMessage s raw) c = (c, [])"
    by (auto simp: on_message_def dest!: discard)
  have version: "SIXERR_PROTOCOL_VERSION = 2"
    by (simp add: SIXERR_PROTOCOL_VERSION_def)
  have safe: "MAX_SAFE_INTEGER = 2 ^ 53 - 1"
    by (simp add: MAX_SAFE_INTEGER_def)
  show ?thesis
    using drop version not_object[of j'] no_type[of kvs] unknown_type[of kvs t]
      extra_field[of kvs t k v] wrong_protocol[of kvs] ping_not_safe_integer[of kvs n]
    by (simp only: version safe) blast
qed

theorem invalid_frames_are_discarded_witness:
  "handleMessage example_parse ''not json at all'' example_connected = (example_connected, [])
   \<and> handleMessage example_parse ''UNKNOWN_TYPE'' example_connected = (example_connected, [])
   \<and> handleMessage example_parse ''PING_EXTRA'' example_connected = (example_connected, [])
   \<and> handleMessage example_parse ''AUTH_OK_V1'' example_connected = (example_connected, [])
   \<and> handleMessage example_parse ''PING_UNSAFE'' example_connected = (example_connected, [])"
proof -
  let ?unsafe = "[(''type'', JStr ''ping''), (''ts'', JNum 9007199254740992)]"
  let ?unknown = "[(''type'', JStr ''shutdown'')]"
  let ?extra = "[(''type'', JStr ''ping''), (''ts'', JNum 7), (''seq'', JNum 1)]"
  let ?v1 = "[(''type'', JStr ''auth_ok''), (''pluginId'', JStr ''p-1''), (''protocol'', JNum 1)]"
  have p0: "example_parse ''not json at all'' = None"
    and p1: "example_parse ''UNKNOWN_TYPE'' = Some (JObj ?unknown)"
    and p2: "example_parse ''PING_EXTRA'' = Some (JObj ?extra)"
    and p3: "example_parse ''AUTH_OK_V1'' = Some (JObj ?v1)"
    and p4: "example_parse ''PING_UNSAFE'' = Some (JObj ?unsafe)"
    by (simp_all add: example_defs)
  have s1: "ServerMessageSchema (JObj ?unknown) = None"
    using invalid_frames_are_discarded[of example_parse "''x''" example_connected 0 JNull
        ?unknown "''shutdown''" "''type''" JNull]
    by (simp add: obj_get_def known_types_def)
  have s2: "ServerMessageSchema (JObj ?extra) = None"
    using invalid_frames_are_discarded[of example_parse "''x''" example_connected 0 JNull
        ?extra "''ping''" "''seq''" "JNum 1"]
    by (simp add: obj_get_def shape_of_def)
  have s3: "ServerMessageSchema (JObj ?v1) = None"
    using invalid_frames_are_discarded[of example_parse "''x''" example_connected 0 JNull
        ?v1 "''auth_ok''" "''type''" JNull]
    by (simp add: obj_get_def)
  have s4: "ServerMessageSchema (JObj ?unsafe) = None"
    using invalid_frames_are_discarded[of example_parse "''x''" example_connected 0 JNull
        ?unsafe "''ping''" "''type''" JNull 9007199254740992]
    by (simp add: obj_get_def)
  show ?thesis
    using invalid_frames_are_discarded[of example_parse "''not json at all''" example_connected 0]
      invalid_frames_are_discarded[of example_parse "''UNKNOWN_TYPE''" example_connected 0]
      invalid_frames_are_discarded[of example_parse "''PING_EXTRA''" example_connected 0]
      invalid_frames_are_discarded[of example_parse "''AUTH_OK_V1''" example_connected 0]
      invalid_frames_are_discarded[of example_parse "''PING_UNSAFE''" example_connected 0]
      p0 p1 p2 p3 p4 s1 s2 s3 s4
    by simp
qed

text \<open>
  C6, as the code has it. A client that was started and since then neither stopped nor
  sent a valid \<^verbatim>\<open>auth_error\<close> is not closed; on such a client every close event of a
  socket, whatever its close code (the code 1000 of a clean shutdown included), sets the
  status to reconnecting and sets the reconnect timer. On a closed client a close event
  sets the status to disconnected and sets no timer. An error event of a socket only logs.
\<close>

theorem close_event_reconnects_unless_closed:
  assumes "Stop \<notin> set evs" and "\<forall>ev \<in> set evs. \<not> is_auth_error_event parse ev"
  shows "\<not> closed (fst (run parse (Start # evs) c0))
         \<and> status (fst (step parse (WsClose s code u) (fst (run parse (Start # evs) c0))))
             = reconnecting
         \<and> (\<exists>t d. snd (step parse (WsClose s code u) (fst (run parse (Start # evs) c0)))
                    = [StatusChange reconnecting
                         (pluginId (fst (run parse (Start # evs) c0)))
                         (requestCount (fst (run parse (Start # evs) c0))),
                       SetTimeout t d, ConsoleLog]
                  \<and> t \<in> set (timers (fst (step parse (WsClose s code u)
                                                (fst (run parse (Start # evs) c0))))))
         \<and> (closed c \<longrightarrow>
                status (fst (step parse (WsClose s code u) c)) = disconnected
                \<and> snd (step parse (WsClose s code u) c)
                    = [StatusChange disconnected (pluginId c) (requestCount c)]
                \<and> timers (fst (step parse (WsClose s code u) c)) = timers c)
         \<and> step parse (WsError s) c = (c, [ConsoleError])"
proof -
  let ?c = "fst (run parse (Start # evs) c0)"
  have "\<not> closed (fst (step parse Start c0))"
    by (simp add: start_opens)
  then have opened: "\<not> closed ?c"
    unfolding fst_run_Cons using assms by (rule run_stays_open)
  have err: "step parse (WsError s) c = (c, [ConsoleError])"
    by (simp add: on_error_def)
  have shut: "closed c \<longrightarrow>
      status (fst (step parse (WsClose s code u) c)) = disconnected
      \<and> snd (step parse (WsClose s code u) c)
          = [StatusChange disconnected (pluginId c) (requestCount c)]
      \<and> timers (fst (step parse (WsClose s code u) c)) = timers c"
    using close_when_closed[of c parse s code u] by simp
  show ?thesis
    using opened close_when_open[OF opened, of parse s code u] err shut
    by blast
qed

theorem close_event_reconnects_unless_closed_witness:
  "Stop \<notin> set [WsOpen 0, WsMessage 0 ''AUTH_OK'']
   \<and> \<not> is_auth_error_event example_parse (WsOpen 0)
   \<and> \<not> is_auth_error_event example_parse (WsMessage 0 ''AUTH_OK'')
   \<and> status (fst (step example_parse (WsClose 0 1006 (Finite 0)) example_connected)) = reconnecting
   \<and> status (fst (step example_parse (WsClose 0 1000 (Finite 0)) example_connected)) = reconnecting"
proof -
  have a: "Stop \<notin> set [WsOpen 0, WsMessage 0 ''AUTH_OK'']"
    by simp
  have b: "\<forall>ev \<in> set [WsOpen 0, WsMessage 0 ''AUTH_OK'']. \<not> is_auth_error_event example_parse ev"
    by (simp add: is_auth_error_def validated_def example_defs schema_eval)
  have b': "\<not> is_auth_error_event example_parse (WsOpen 0)
      \<and> \<not> is_auth_error_event example_parse (WsMessage 0 ''AUTH_OK'')"
    using b by simp
  show ?thesis
    using a b'
      close_event_reconnects_unless_closed[OF a b, of "new_PluginClient example_config None" 0 1006 "Finite 0"]
      close_event_reconnects_unless_closed[OF a b, of "new_PluginClient example_config None" 0 1000 "Finite 0"]
    unfolding example_connected_def
    by blast
qed

text \<open>
  C6 as stated fails in the direction "only if": the connected client of the example is
  neither stopped nor refused, its socket closes with the clean-shutdown code 1000, and
  the status becomes reconnecting with a timer of 1000 ms set.
\<close>

theorem clean_close_reconnects_counterexample:
  "\<not> closed example_connected \<and> status example_connected = connected
   \<and> status (fst (step example_parse (WsClose 0 1000 (Finite 0)) example_connected)) = reconnecting
   \<and> snd (step example_parse (WsClose 0 1000 (Finite 0)) example_connected) =
       [StatusChange reconnecting (Some ''p-1'') 0, SetTimeout 0 (Finite 1000), ConsoleLog]"
  unfolding example_connected_eq
  by (simp add: client_defs Let_def default_first_delay)

text \<open>
  C7. On a client that is not closed, a close event with the code 1012 sets the attempt
  counter to 0 before \<^verbatim>\<open>scheduleReconnect\<close> increments it, so that the timer is set with
  the delay \<^verbatim>\<open>computeBackoff(policy, 1)\<close> and the counter is 1 afterwards, whatever the
  counter was before.
\<close>

theorem restart_close_uses_first_attempt_delay:
  assumes "\<not> closed c"
  shows "snd (step parse (WsClose s 1012 u) c) =
           [StatusChange reconnecting (pluginId c) (requestCount c),
            SetTimeout (nextTimer c) (computeBackoff (policy c) 1 u), ConsoleLog]
         \<and> reconnectAttempt (fst (step parse (WsClose s 1012 u) c)) = 1
         \<and> status (fst (step parse (WsClose s 1012 u) c)) = reconnecting
         \<and> reconnectTimer (fst (step parse (WsClose s 1012 u) c)) = Some (nextTimer c)"
  using restart_close_step[OF assms, of parse s u] by simp

theorem restart_close_uses_first_attempt_delay_witness:
  "\<not> closed (example_connected\<lparr>reconnectAttempt := 5\<rparr>)
   \<and> snd (step example_parse (WsClose 0 1012 (Finite 0)) (example_connected\<lparr>reconnectAttempt := 5\<rparr>)) =
       [StatusChange reconnecting (Some ''p-1'') 0, SetTimeout 0 (Finite 1000), ConsoleLog]
   \<and> reconnectAttempt
         (fst (step example_parse (WsClose 0 1012 (Finite 0)) (example_connected\<lparr>reconnectAttempt := 5\<rparr>)))
       = 1"
proof -
  have a: "\<not> closed (example_connected\<lparr>reconnectAttempt := 5\<rparr>)"
    by (simp add: example_connected_eq)
  have d: "computeBackoff DEFAULT_RECONNECT_POLICY 1 (Finite 0) = Finite 1000"
    by (rule default_first_delay)
  show ?thesis
    using a d restart_close_uses_first_attempt_delay[OF a, of example_parse 0 "Finite 0"]
    by (simp add: example_connected_eq)
qed

section \<open>The request relay\<close>

lemma process_part_event:
  "process_part parse cb s part =
     (case part_event parse part of Some e \<Rightarrow> onEvent cb e s | None \<Rightarrow> s)"
  by (simp add: process_part_def part_event_def Let_def split: option.splits)

lemma foldl_process_part:
  "foldl (process_part parse cb) s parts =
     foldl (\<lambda>s e. onEvent cb e s) s (List.map_filter (part_event parse) parts)"
  by (induction parts arbitrary: s)
     (simp_all add: process_part_event map_filter_simps split: option.splits)

lemma on_data_events:
  "on_data parse cb (buffer, s) chunk =
     (last (split [NL, NL] (buffer @ chunk)),
      foldl (\<lambda>s e. onEvent cb e s) s (chunk_events parse buffer chunk))"
  by (simp add: on_data_def Let_def foldl_process_part chunk_events_def)

lemma snd_foldl_on_data:
  "snd (foldl (on_data parse cb) (buffer, s) chunks) =
     foldl (\<lambda>s e. onEvent cb e s) s (all_events parse buffer chunks)"
proof (induction chunks arbitrary: buffer s)
  case Nil
  show ?case by simp
next
  case (Cons chunk chunks)
  show ?case
    by (simp add: on_data_events Cons.IH)
qed

lemma relay_callbacks_simps:
  "onError (relay_callbacks i) = relay_onError i"
  "onDone (relay_callbacks i) = relay_onDone i"
  "onEvent (relay_callbacks i) = relay_onEvent i"
  by (simp_all add: relay_callbacks_def)

lemma foldl_snoc: "foldl (\<lambda>evs e. evs @ [e]) acc xs = acc @ xs"
  by (induction xs arbitrary: acc) simp_all

lemma decoded_events_eq: "decoded_events parse chunks = all_events parse [] chunks"
  unfolding decoded_events_def
  by (simp add: snd_foldl_on_data recorder_def foldl_snoc)

lemma last_usage_Nil: "last_usage d [] = d"
  by (simp add: last_usage_def List.map_filter_def)

lemma last_usage_snoc:
  "last_usage d (evs @ [e]) =
     (case completed_usage e of Some u \<Rightarrow> u | None \<Rightarrow> last_usage d evs)"
  by (simp add: last_usage_def List.map_filter_def split: option.splits)

lemma foldl_relay_onEvent:
  "foldl (\<lambda>s e. relay_onEvent requestId e s) s evs =
     \<lparr>usage = last_usage (usage s) evs,
      sent = sent s @ map (stream_event_message requestId) evs\<rparr>"
proof (induction evs rule: rev_induct)
  case Nil
  show ?case by (simp add: last_usage_Nil)
next
  case (snoc e evs)
  have "foldl (\<lambda>s e. relay_onEvent requestId e s) s (evs @ [e]) =
      relay_onEvent requestId e (foldl (\<lambda>s e. relay_onEvent requestId e s) s evs)"
    by simp
  also have "\<dots> = relay_onEvent requestId e
      \<lparr>usage = last_usage (usage s) evs,
       sent = sent s @ map (stream_event_message requestId) evs\<rparr>"
    by (simp only: snoc.IH)
  also have "\<dots> = \<lparr>usage = last_usage (usage s) (evs @ [e]),
       sent = sent s @ map (stream_event_message requestId) (evs @ [e])\<rparr>"
    by (simp add: relay_onEvent_def last_usage_snoc Let_def split: option.splits)
  finally show ?case .
qed

lemma stream_body_state:
  "snd (foldl (on_data parse (relay_callbacks requestId)) ([], \<lparr>usage = zero_usage, sent = []\<rparr>) chunks) =
     \<lparr>usage = final_usage (decoded_events parse chunks),
      sent = map (stream_event_message requestId) (decoded_events parse chunks)\<rparr>"
  by (simp add: snd_foldl_on_data relay_callbacks_simps foldl_relay_onEvent decoded_events_eq
        final_usage_def)

lemma terminal_simps:
  "is_terminal i (response_message i b)"
  "is_terminal i (stream_end_message i u)"
  "is_terminal i (plugin_error_message i m)"
  "\<not> is_terminal i (stream_event_message i e)"
  by (simp_all add: is_terminal_def msg_type_def response_message_def stream_end_message_def
        plugin_error_message_def stream_event_message_def obj_get_def)

lemma msg_type_simps:
  "msg_type (response_message i b) = Some (JStr ''response'')"
  "msg_type (stream_end_message i u) = Some (JStr ''stream_end'')"
  "msg_type (plugin_error_message i m) = Some (JStr ''error'')"
  "msg_type (stream_event_message i e) = Some (JStr ''stream_event'')"
  by (simp_all add: msg_type_def response_message_def stream_end_message_def
        plugin_error_message_def stream_event_message_def obj_get_def)

lemma foldl_relay_onError:
  "foldl (\<lambda>s' err. s'\<lparr>sent := sent s' @ [plugin_error_message i (err_message err)]\<rparr>) s later
     = s\<lparr>sent := sent s @ error_messages i later\<rparr>"
  by (induction later arbitrary: s) (simp_all add: error_messages_def)

lemma relay_unary:
  assumes "\<not> isStreaming (forward_body body cfg)"
  shows "relay_messages parse stringify i body cfg gw =
     (case forwardToOpenClaw parse stringify cfg
             (JObj (obj_set (forward_body body cfg) ''stream'' (JBool False))) (unary gw) of
        Inr response \<Rightarrow> [response_message i response]
      | Inl err \<Rightarrow>
          [plugin_error_message i
             (if err_message err \<noteq> [] then err_message err else error_to_string err)])"
  using assms
  by (simp add: relay_messages_def handleIncomingRequest_def Let_def split: sum.splits)

lemma relay_unary_request_error:
  assumes "\<not> isStreaming (forward_body body cfg)"
    and "unary_call body cfg gw = UnaryRequestError err"
  shows "relay_messages parse stringify i body cfg gw =
     [plugin_error_message i
        (if err_message err \<noteq> [] then err_message err else error_to_string err)]"
  using assms(2) unfolding relay_unary[OF assms(1)] unary_call_def
  by (simp add: forwardToOpenClaw_def)

lemma relay_unary_invalid_json:
  assumes "\<not> isStreaming (forward_body body cfg)"
    and "unary_call body cfg gw = UnaryResponse st raw" and "parse raw = None"
  shows "relay_messages parse stringify i body cfg gw =
     [plugin_error_message i
        (''OpenClaw Gateway returned invalid JSON (status '' @ show_status st @ ''): ''
         @ take 200 raw)]"
  using assms(2,3) unfolding relay_unary[OF assms(1)] unary_call_def
  by (simp add: forwardToOpenClaw_def)

lemma relay_unary_error_status:
  assumes "\<not> isStreaming (forward_body body cfg)"
    and "unary_call body cfg gw = UnaryResponse (Some n) raw" and "parse raw = Some j"
    and "400 \<le> n"
  shows "relay_messages parse stringify i body cfg gw =
     [plugin_error_message i
        (''OpenClaw Gateway error (status '' @ show_nat n @ ''): '' @ stringify j)]"
  using assms(2,3,4) unfolding relay_unary[OF assms(1)] unary_call_def
  by (simp add: forwardToOpenClaw_def is_error_status_def)

lemma relay_unary_success:
  assumes "\<not> isStreaming (forward_body body cfg)"
    and "unary_call body cfg gw = UnaryResponse st raw" and "parse raw = Some j"
    and "st = None \<or> (\<exists>n. st = Some n \<and> n < 400)"
  shows "relay_messages parse stringify i body cfg gw = [response_message i j]"
  using assms(2,3,4) unfolding relay_unary[OF assms(1)] unary_call_def
  by (auto simp: forwardToOpenClaw_def is_error_status_def)

lemma relay_stream_request_error:
  assumes "isStreaming (forward_body body cfg)"
    and "stream_call body cfg gw = StreamRequestError err"
  shows "relay_messages parse stringify i body cfg gw = [plugin_error_message i (err_message err)]"
  using assms
  by (simp add: relay_messages_def handleIncomingRequest_def Let_def streamFromOpenClaw_def
        stream_call_def relay_callbacks_simps relay_onError_def)

lemma relay_stream_http_error:
  assumes "isStreaming (forward_body body cfg)"
    and "stream_call body cfg gw = StreamResponse st chunks fin later"
    and "is_error_status st"
  shows "relay_messages parse stringify i body cfg gw =
     plugin_error_message i
        (case fin of
           StreamEnd \<Rightarrow> ''OpenClaw Gateway error (status '' @ show_status st @ ''): ''
                         @ take 500 (concat chunks)
         | StreamFailure err \<Rightarrow> err_message err)
     # error_messages i later"
  using assms
  by (cases fin)
     (simp_all add: relay_messages_def handleIncomingRequest_def Let_def streamFromOpenClaw_def
        stream_call_def relay_callbacks_simps foldl_relay_onError relay_onError_def)

lemma relay_stream_body:
  assumes "isStreaming (forward_body body cfg)"
    and "stream_call body cfg gw = StreamResponse st chunks fin later"
    and "\<not> is_error_status st"
  shows "relay_messages parse stringify i body cfg gw =
     map (stream_event_message i) (decoded_events parse chunks)
     @ (case fin of
          StreamEnd \<Rightarrow> stream_end_message i (final_usage (decoded_events parse chunks))
        | StreamFailure err \<Rightarrow> plugin_error_message i (err_message err))
     # error_messages i later"
  using assms
  by (cases fin)
     (simp_all add: relay_messages_def handleIncomingRequest_def Let_def streamFromOpenClaw_def
        stream_call_def relay_callbacks_simps foldl_relay_onError relay_onError_def
        relay_onDone_def stream_body_state)

lemma error_status_iff:
  "is_error_status st \<longleftrightarrow> (\<exists>n. st = Some n \<and> 400 \<le> n)"
  "\<not> is_error_status st \<longleftrightarrow> st = None \<or> (\<exists>n. st = Some n \<and> n < 400)"
  by (cases st; auto simp: is_error_status_def)+

lemma later_errors_simps:
  "\<not> isStreaming (forward_body body cfg) \<Longrightarrow> later_errors body cfg gw = []"
  "isStreaming (forward_body body cfg) \<Longrightarrow> stream_call body cfg gw = StreamRequestError err
     \<Longrightarrow> later_errors body cfg gw = []"
  "isStreaming (forward_body body cfg)
     \<Longrightarrow> stream_call body cfg gw = StreamResponse st chunks fin later
     \<Longrightarrow> later_errors body cfg gw = later"
  by (simp_all add: later_errors_def)

lemma shapeI:
  assumes "msgs = map (stream_event_message i) evs @ t # error_messages i later"
    and "(\<exists>b. t = response_message i b) \<or> (\<exists>u. t = stream_end_message i u)
         \<or> (\<exists>m. t = plugin_error_message i m)"
  shows "\<exists>evs t. msgs = map (stream_event_message i) evs @ t # error_messages i later
     \<and> ((\<exists>b. t = response_message i b) \<or> (\<exists>u. t = stream_end_message i u)
          \<or> (\<exists>m. t = plugin_error_message i m))"
  using assms by (intro exI[of _ evs] exI[of _ t] conjI)

lemma shapeI_response:
  assumes "msgs = map (stream_event_message i) evs @ response_message i b # error_messages i later"
  shows "\<exists>evs t. msgs = map (stream_event_message i) evs @ t # error_messages i later
     \<and> ((\<exists>b. t = response_message i b) \<or> (\<exists>u. t = stream_end_message i u)
          \<or> (\<exists>m. t = plugin_error_message i m))"
  using assms by (intro shapeI[where evs = evs and t = "response_message i b"] disjI1 exI[of _ b] refl)

lemma shapeI_end:
  assumes "msgs = map (stream_event_message i) evs @ stream_end_message i u # error_messages i later"
  shows "\<exists>evs t. msgs = map (stream_event_message i) evs @ t # error_messages i later
     \<and> ((\<exists>b. t = response_message i b) \<or> (\<exists>u. t = stream_end_message i u)
          \<or> (\<exists>m. t = plugin_error_message i m))"
  using assms
  by (intro shapeI[where evs = evs and t = "stream_end_message i u"] disjI2 disjI1 exI[of _ u] refl)

lemma shapeI_error:
  assumes "msgs = map (stream_event_message i) evs @ plugin_error_message i m # error_messages i later"
  shows "\<exists>evs t. msgs = map (stream_event_message i) evs @ t # error_messages i later
     \<and> ((\<exists>b. t = response_message i b) \<or> (\<exists>u. t = stream_end_message i u)
          \<or> (\<exists>m. t = plugin_error_message i m))"
  using assms
  by (intro shapeI[where evs = evs and t = "plugin_error_message i m"] disjI2 exI[of _ m] refl)

lemma error_messages_Nil: "error_messages i [] = []"
  by (simp add: error_messages_def)

lemma relay_shape:
  "\<exists>evs t. relay_messages parse stringify i body cfg gw
       = map (stream_event_message i) evs @ t # error_messages i (later_errors body cfg gw)
     \<and> ((\<exists>b. t = response_message i b) \<or> (\<exists>u. t = stream_end_message i u)
          \<or> (\<exists>m. t = plugin_error_message i m))"
proof (cases "isStreaming (forward_body body cfg)")
  case unary: False
  note none = later_errors_simps(1)[OF unary, of gw]
  show ?thesis
  proof (cases "forwardToOpenClaw parse stringify cfg
             (JObj (obj_set (forward_body body cfg) ''stream'' (JBool False))) (unary gw)")
    case (Inl err)
    have "relay_messages parse stringify i body cfg gw =
        map (stream_event_message i) []
        @ plugin_error_message i
             (if err_message err \<noteq> [] then err_message err else error_to_string err)
        # error_messages i (later_errors body cfg gw)"
      by (simp add: relay_unary[OF unary] Inl none error_messages_Nil)
    then show ?thesis by (rule shapeI_error)
  next
    case (Inr response)
    have "relay_messages parse stringify i body cfg gw =
        map (stream_event_message i) [] @ response_message i response
        # error_messages i (later_errors body cfg gw)"
      by (simp add: relay_unary[OF unary] Inr none error_messages_Nil)
    then show ?thesis by (rule shapeI_response)
  qed
next
  case stream: True
  show ?thesis
  proof (cases "stream_call body cfg gw")
    case (StreamRequestError err)
    note none = later_errors_simps(2)[OF stream StreamRequestError]
    have "relay_messages parse stringify i body cfg gw =
        map (stream_event_message i) [] @ plugin_error_message i (err_message err)
        # error_messages i (later_errors body cfg gw)"
      by (simp add: relay_stream_request_error[OF stream StreamRequestError] none
            error_messages_Nil)
    then show ?thesis by (rule shapeI_error)
  next
    case (StreamResponse st chunks fin later)
    note lat = later_errors_simps(3)[OF stream StreamResponse]
    show ?thesis
    proof (cases "is_error_status st")
      case bad: True
      have "relay_messages parse stringify i body cfg gw =
          map (stream_event_message i) []
          @ plugin_error_message i
               (case fin of
                  StreamEnd \<Rightarrow> ''OpenClaw Gateway error (status '' @ show_status st @ ''): ''
                                @ take 500 (concat chunks)
                | StreamFailure err \<Rightarrow> err_message err)
          # error_messages i (later_errors body cfg gw)"
        by (simp add: relay_stream_http_error[OF stream StreamResponse bad] lat)
      then show ?thesis by (rule shapeI_error)
    next
      case ok: False
      note eq = relay_stream_body[OF stream StreamResponse ok, of parse stringify i]
      show ?thesis
      proof (cases fin)
        case StreamEnd
        have "relay_messages parse stringify i body cfg gw =
            map (stream_event_message i) (decoded_events parse chunks)
            @ stream_end_message i (final_usage (decoded_events parse chunks))
            # error_messages i (later_errors body cfg gw)"
          unfolding eq by (simp add: StreamEnd lat)
        then show ?thesis by (rule shapeI_end)
      next
        case (StreamFailure err)
        have "relay_messages parse stringify i body cfg gw =
            map (stream_event_message i) (decoded_events parse chunks)
            @ plugin_error_message i (err_message err)
            # error_messages i (later_errors body cfg gw)"
          unfolding eq by (simp add: StreamFailure lat)
        then show ?thesis by (rule shapeI_error)
      qed
    qed
  qed
qed

lemma filter_terminal_events:
  "filter (is_terminal i) (map (stream_event_message i) evs) = []"
  by (induction evs) (simp_all add: terminal_simps)

lemma filter_terminal_errors:
  "filter (is_terminal i) (error_messages i later) = error_messages i later"
  by (induction later) (simp_all add: error_messages_def terminal_simps)

lemma length_error_messages: "length (error_messages i later) = length later"
  by (simp add: error_messages_def)

lemma terminal_count:
  assumes "msgs = map (stream_event_message i) evs @ t # error_messages i later"
    and "(\<exists>b. t = response_message i b) \<or> (\<exists>u. t = stream_end_message i u)
         \<or> (\<exists>m. t = plugin_error_message i m)"
  shows "length (filter (is_terminal i) msgs) = 1 + length later"
proof -
  have terminal: "is_terminal i t"
    using assms(2) by (auto simp: terminal_simps)
  then show ?thesis
    by (simp add: assms(1) filter_terminal_events filter_terminal_errors length_error_messages)
qed

lemma shape_facts:
  assumes "msgs = map (stream_event_message i) evs @ [t]"
    and "(\<exists>b. t = response_message i b) \<or> (\<exists>u. t = stream_end_message i u)
         \<or> (\<exists>m. t = plugin_error_message i m)"
  shows "is_terminal i (last msgs)"
    and "\<forall>m \<in> set (butlast msgs). msg_type m = Some (JStr ''stream_event'')"
    and "\<not> (\<exists>m1 \<in> set msgs. \<exists>m2 \<in> set msgs.
              msg_type m1 = Some (JStr ''stream_end'') \<and> msg_type m2 = Some (JStr ''error''))"
proof -
  have terminal: "is_terminal i t"
    using assms(2) by (auto simp: terminal_simps)
  show "is_terminal i (last msgs)"
    using terminal by (simp add: assms(1))
  have events: "msg_type m = Some (JStr ''stream_event'')"
    if "m \<in> set (map (stream_event_message i) evs)" for m
  proof -
    from that obtain e where "m = stream_event_message i e"
      by auto
    then show ?thesis
      by (simp add: msg_type_simps)
  qed
  then show "\<forall>m \<in> set (butlast msgs). msg_type m = Some (JStr ''stream_event'')"
    by (simp add: assms(1))
  have only_t: "m = t" if "m \<in> set msgs" and "msg_type m \<noteq> Some (JStr ''stream_event'')" for m
  proof -
    from that(1) have "m \<in> set (map (stream_event_message i) evs) \<or> m = t"
      unfolding assms(1) by auto
    with that(2) events show ?thesis
      by blast
  qed
  show "\<not> (\<exists>m1 \<in> set msgs. \<exists>m2 \<in> set msgs.
              msg_type m1 = Some (JStr ''stream_end'') \<and> msg_type m2 = Some (JStr ''error''))"
  proof
    assume "\<exists>m1 \<in> set msgs. \<exists>m2 \<in> set msgs.
              msg_type m1 = Some (JStr ''stream_end'') \<and> msg_type m2 = Some (JStr ''error'')"
    then obtain m1 m2 where m1: "m1 \<in> set msgs" "msg_type m1 = Some (JStr ''stream_end'')"
      and m2: "m2 \<in> set msgs" "msg_type m2 = Some (JStr ''error'')"
      by blast
    have "m1 = t"
      using m1 by (intro only_t) simp_all
    moreover have "m2 = t"
      using m2 by (intro only_t) simp_all
    ultimately show False
      using m1(2) m2(2) by simp
  qed
qed

lemma final_usage_none:
  assumes "\<forall>e \<in> set evs. completed_usage e = None"
  shows "final_usage evs = zero_usage"
proof -
  have "List.map_filter completed_usage evs = []"
    using assms by (induction evs) (simp_all add: List.map_filter_def)
  then show ?thesis
    by (simp add: final_usage_def last_usage_def)
qed

lemma final_usage_last:
  assumes "completed_usage e = Some u" and "\<forall>e' \<in> set evs'. completed_usage e' = None"
  shows "final_usage (evs @ e # evs') = u"
proof -
  have "List.map_filter completed_usage evs' = []"
    using assms(2) by (induction evs') (simp_all add: List.map_filter_def)
  then have "List.map_filter completed_usage (evs @ e # evs')
      = List.map_filter completed_usage evs @ [u]"
    using assms(1) by (simp add: List.map_filter_def)
  then show ?thesis
    by (simp add: final_usage_def last_usage_def)
qed

lemma example_decoded:
  "decoded_events example_sse_parse example_chunks = [example_delta, example_completed]"
  by code_simp

lemma example_final_usage: "final_usage [example_delta, example_completed] = example_usage"
  by code_simp

text \<open>
  C1. What \<^verbatim>\<open>handleIncomingRequest\<close> hands to \<^verbatim>\<open>sendMessage\<close> for a request, by what the
  gateway does. Without streaming: an error message with the code \<^verbatim>\<open>plugin_error\<close> when
  the request fails, when the body of the response is not JSON, and when the status is
  400 or more; the response message otherwise. With streaming: the error message when
  the request fails before a response and when the status is 400 or more; otherwise one
  \<^verbatim>\<open>stream_event\<close> for each decoded event, in the order decoded, followed by
  \<^verbatim>\<open>stream_end\<close> if the body ended and by the error message if it failed; the usage of
  \<^verbatim>\<open>stream_end\<close> is that of the last \<^verbatim>\<open>response.completed\<close> event carrying one, and the
  zero counters if there is none. After that, one more error message follows for every
  error event that the listeners hear later: the number of terminal messages for the id
  is one plus the number of those events. It is exactly one (the last message, all before
  it being \<^verbatim>\<open>stream_event\<close>s, and \<^verbatim>\<open>stream_end\<close> and \<^verbatim>\<open>error\<close> not both occurring) when
  there is no such event. It is not when the request times out in the middle of the
  body: the request emits \<^verbatim>\<open>error\<close>, the aborted response emits \<^verbatim>\<open>error\<close> too, and two
  error messages are sent for the one id.
\<close>

theorem relay_sends_an_error_for_every_error_event:
  "(\<not> isStreaming (forward_body body cfg) \<longrightarrow>
      (\<forall>err. unary_call body cfg gw = UnaryRequestError err \<longrightarrow>
           relay_messages parse stringify i body cfg gw
             = [plugin_error_message i
                  (if err_message err \<noteq> [] then err_message err else error_to_string err)])
      \<and> (\<forall>st raw. unary_call body cfg gw = UnaryResponse st raw \<and> parse raw = None \<longrightarrow>
             relay_messages parse stringify i body cfg gw
               = [plugin_error_message i
                    (''OpenClaw Gateway returned invalid JSON (status '' @ show_status st
                     @ ''): '' @ take 200 raw)])
      \<and> (\<forall>n raw j. unary_call body cfg gw = UnaryResponse (Some n) raw \<and> parse raw = Some j
             \<and> 400 \<le> n \<longrightarrow>
             relay_messages parse stringify i body cfg gw
               = [plugin_error_message i
                    (''OpenClaw Gateway error (status '' @ show_nat n @ ''): ''
                     @ stringify j)])
      \<and> (\<forall>st raw j. unary_call body cfg gw = UnaryResponse st raw \<and> parse raw = Some j
             \<and> (st = None \<or> (\<exists>n. st = Some n \<and> n < 400)) \<longrightarrow>
             relay_messages parse stringify i body cfg gw = [response_message i j]))
   \<and> (isStreaming (forward_body body cfg) \<longrightarrow>
      (\<forall>err. stream_call body cfg gw = StreamRequestError err \<longrightarrow>
           relay_messages parse stringify i body cfg gw
             = [plugin_error_message i (err_message err)])
      \<and> (\<forall>n chunks later.
             stream_call body cfg gw = StreamResponse (Some n) chunks StreamEnd later
             \<and> 400 \<le> n \<longrightarrow>
             relay_messages parse stringify i body cfg gw
               = plugin_error_message i
                   (''OpenClaw Gateway error (status '' @ show_nat n @ ''): ''
                    @ take 500 (concat chunks))
                 # error_messages i later)
      \<and> (\<forall>n chunks err later.
             stream_call body cfg gw = StreamResponse (Some n) chunks (StreamFailure err) later
             \<and> 400 \<le> n \<longrightarrow>
             relay_messages parse stringify i body cfg gw
               = plugin_error_message i (err_message err) # error_messages i later)
      \<and> (\<forall>st chunks later.
             stream_call body cfg gw = StreamResponse st chunks StreamEnd later
             \<and> (st = None \<or> (\<exists>n. st = Some n \<and> n < 400)) \<longrightarrow>
             relay_messages parse stringify i body cfg gw
               = map (stream_event_message i) (decoded_events parse chunks)
                 @ stream_end_message i (final_usage (decoded_events parse chunks))
                 # error_messages i later)
      \<and> (\<forall>st chunks err later.
             stream_call body cfg gw = StreamResponse st chunks (StreamFailure err) later
             \<and> (st = None \<or> (\<exists>n. st = Some n \<and> n < 400)) \<longrightarrow>
             relay_messages parse stringify i body cfg gw
               = map (stream_event_message i) (decoded_events parse chunks)
                 @ plugin_error_message i (err_message err)
                 # error_messages i later))
   \<and> length (filter (is_terminal i) (relay_messages parse stringify i body cfg gw))
       = 1 + length (later_errors body cfg gw)
   \<and> (later_errors body cfg gw = [] \<longrightarrow>
        is_terminal i (last (relay_messages parse stringify i body cfg gw))
        \<and> (\<forall>m \<in> set (butlast (relay_messages parse stringify i body cfg gw)).
              msg_type m = Some (JStr ''stream_event''))
        \<and> \<not> (\<exists>m1 \<in> set (relay_messages parse stringify i body cfg gw).
               \<exists>m2 \<in> set (relay_messages parse stringify i body cfg gw).
                 msg_type m1 = Some (JStr ''stream_end'')
                 \<and> msg_type m2 = Some (JStr ''error'')))
   \<and> ((\<forall>e \<in> set evs. completed_usage e = None) \<longrightarrow> final_usage evs = zero_usage)
   \<and> (completed_usage ev = Some u \<and> (\<forall>e \<in> set evs'. completed_usage e = None) \<longrightarrow>
        final_usage (evs @ ev # evs') = u)
   \<and> relay_messages example_sse_parse example_stringify ''req-1'' example_stream_body
         (openClawConfig example_config) example_timeout_gateway
       = [stream_event_message ''req-1'' example_delta,
          stream_event_message ''req-1'' example_completed,
          plugin_error_message ''req-1'' ''OpenClaw Gateway streaming request timed out'',
          plugin_error_message ''req-1'' ''aborted'']
   \<and> length (filter (is_terminal ''req-1'')
         (relay_messages example_sse_parse example_stringify ''req-1'' example_stream_body
            (openClawConfig example_config) example_timeout_gateway)) = 2"
proof -
  let ?msgs = "relay_messages parse stringify i body cfg gw"
  have unary_part: "\<not> isStreaming (forward_body body cfg) \<longrightarrow>
      (\<forall>err. unary_call body cfg gw = UnaryRequestError err \<longrightarrow>
           ?msgs = [plugin_error_message i
                      (if err_message err \<noteq> [] then err_message err else error_to_string err)])
      \<and> (\<forall>st raw. unary_call body cfg gw = UnaryResponse st raw \<and> parse raw = None \<longrightarrow>
             ?msgs = [plugin_error_message i
                        (''OpenClaw Gateway returned invalid JSON (status '' @ show_status st
                         @ ''): '' @ take 200 raw)])
      \<and> (\<forall>n raw j. unary_call body cfg gw = UnaryResponse (Some n) raw \<and> parse raw = Some j
             \<and> 400 \<le> n \<longrightarrow>
             ?msgs = [plugin_error_message i
                        (''OpenClaw Gateway error (status '' @ show_nat n @ ''): ''
                         @ stringify j)])
      \<and> (\<forall>st raw j. unary_call body cfg gw = UnaryResponse st raw \<and> parse raw = Some j
             \<and> (st = None \<or> (\<exists>n. st = Some n \<and> n < 400)) \<longrightarrow>
             ?msgs = [response_message i j])"
  proof (intro impI conjI allI)
    assume u: "\<not> isStreaming (forward_body body cfg)"
    show "?msgs = [plugin_error_message i
                      (if err_message err \<noteq> [] then err_message err else error_to_string err)]"
      if "unary_call body cfg gw = UnaryRequestError err" for err
      using that by (rule relay_unary_request_error[OF u])
    show "?msgs = [plugin_error_message i
                        (''OpenClaw Gateway returned invalid JSON (status '' @ show_status st
                         @ ''): '' @ take 200 raw)]"
      if "unary_call body cfg gw = UnaryResponse st raw \<and> parse raw = None" for st raw
      using that relay_unary_invalid_json[OF u] by blast
    show "?msgs = [plugin_error_message i
                        (''OpenClaw Gateway error (status '' @ show_nat n @ ''): ''
                         @ stringify j)]"
      if "unary_call body cfg gw = UnaryResponse (Some n) raw \<and> parse raw = Some j \<and> 400 \<le> n"
      for n raw j
      using that relay_unary_error_status[OF u] by blast
    show "?msgs = [response_message i j]"
      if "unary_call body cfg gw = UnaryResponse st raw \<and> parse raw = Some j
          \<and> (st = None \<or> (\<exists>n. st = Some n \<and> n < 400))" for st raw j
      using that relay_unary_success[OF u, of gw st raw parse j] by blast
  qed
  have stream_part: "isStreaming (forward_body body cfg) \<longrightarrow>
      (\<forall>err. stream_call body cfg gw = StreamRequestError err \<longrightarrow>
           ?msgs = [plugin_error_message i (err_message err)])
      \<and> (\<forall>n chunks later.
             stream_call body cfg gw = StreamResponse (Some n) chunks StreamEnd later
             \<and> 400 \<le> n \<longrightarrow>
             ?msgs = plugin_error_message i
                       (''OpenClaw Gateway error (status '' @ show_nat n @ ''): ''
                        @ take 500 (concat chunks))
                     # error_messages i later)
      \<and> (\<forall>n chunks err later.
             stream_call body cfg gw = StreamResponse (Some n) chunks (StreamFailure err) later
             \<and> 400 \<le> n \<longrightarrow>
             ?msgs = plugin_error_message i (err_message err) # error_messages i later)
      \<and> (\<forall>st chunks later.
             stream_call body cfg gw = StreamResponse st chunks StreamEnd later
             \<and> (st = None \<or> (\<exists>n. st = Some n \<and> n < 400)) \<longrightarrow>
             ?msgs = map (stream_event_message i) (decoded_events parse chunks)
                     @ stream_end_message i (final_usage (decoded_events parse chunks))
                     # error_messages i later)
      \<and> (\<forall>st chunks err later.
             stream_call body cfg gw = StreamResponse st chunks (StreamFailure err) later
             \<and> (st = None \<or> (\<exists>n. st = Some n \<and> n < 400)) \<longrightarrow>
             ?msgs = map (stream_event_message i) (decoded_events parse chunks)
                     @ plugin_error_message i (err_message err)
                     # error_messages i later)"
  proof (intro impI conjI allI)
    assume s: "isStreaming (forward_body body cfg)"
    show "?msgs = [plugin_error_message i (err_message err)]"
      if "stream_call body cfg gw = StreamRequestError err" for err
      using that by (rule relay_stream_request_error[OF s])
    show "?msgs = plugin_error_message i
                       (''OpenClaw Gateway error (status '' @ show_nat n @ ''): ''
                        @ take 500 (concat chunks))
                     # error_messages i later"
      if "stream_call body cfg gw = StreamResponse (Some n) chunks StreamEnd later \<and> 400 \<le> n"
      for n chunks later
    proof -
      from that have bad: "is_error_status (Some n)"
        by (simp add: is_error_status_def)
      from that relay_stream_http_error[OF s _ bad, of gw chunks StreamEnd later parse stringify i]
      show ?thesis
        by simp
    qed
    show "?msgs = plugin_error_message i (err_message err) # error_messages i later"
      if "stream_call body cfg gw = StreamResponse (Some n) chunks (StreamFailure err) later
          \<and> 400 \<le> n" for n chunks err later
    proof -
      from that have bad: "is_error_status (Some n)"
        by (simp add: is_error_status_def)
      from that
        relay_stream_http_error[OF s _ bad, of gw chunks "StreamFailure err" later parse stringify i]
      show ?thesis
        by simp
    qed
    show "?msgs = map (stream_event_message i) (decoded_events parse chunks)
                     @ stream_end_message i (final_usage (decoded_events parse chunks))
                     # error_messages i later"
      if "stream_call body cfg gw = StreamResponse st chunks StreamEnd later
          \<and> (st = None \<or> (\<exists>n. st = Some n \<and> n < 400))" for st chunks later
    proof -
      from that have ok: "\<not> is_error_status st"
        by (simp add: error_status_iff(2))
      from that relay_stream_body[OF s _ ok, of gw chunks StreamEnd later parse stringify i]
      show ?thesis
        by simp
    qed
    show "?msgs = map (stream_event_message i) (decoded_events parse chunks)
                     @ plugin_error_message i (err_message err)
                     # error_messages i later"
      if "stream_call body cfg gw = StreamResponse st chunks (StreamFailure err) later
          \<and> (st = None \<or> (\<exists>n. st = Some n \<and> n < 400))" for st chunks err later
    proof -
      from that have ok: "\<not> is_error_status st"
        by (simp add: error_status_iff(2))
      from that
        relay_stream_body[OF s _ ok, of gw chunks "StreamFailure err" later parse stringify i]
      show ?thesis
        by simp
    qed
  qed
  obtain es t where shape: "?msgs = map (stream_event_message i) es
        @ t # error_messages i (later_errors body cfg gw)"
    and t: "(\<exists>b. t = response_message i b) \<or> (\<exists>u. t = stream_end_message i u)
          \<or> (\<exists>m. t = plugin_error_message i m)"
    using relay_shape[of parse stringify i body cfg gw] by blast
  note count = terminal_count[OF shape t]
  have single: "later_errors body cfg gw = [] \<longrightarrow>
        is_terminal i (last ?msgs)
        \<and> (\<forall>m \<in> set (butlast ?msgs). msg_type m = Some (JStr ''stream_event''))
        \<and> \<not> (\<exists>m1 \<in> set ?msgs. \<exists>m2 \<in> set ?msgs.
                 msg_type m1 = Some (JStr ''stream_end'')
                 \<and> msg_type m2 = Some (JStr ''error''))"
  proof
    assume "later_errors body cfg gw = []"
    with shape have "?msgs = map (stream_event_message i) es @ [t]"
      by (simp add: error_messages_Nil)
    from shape_facts[OF this t] show "is_terminal i (last ?msgs)
        \<and> (\<forall>m \<in> set (butlast ?msgs). msg_type m = Some (JStr ''stream_event''))
        \<and> \<not> (\<exists>m1 \<in> set ?msgs. \<exists>m2 \<in> set ?msgs.
                 msg_type m1 = Some (JStr ''stream_end'')
                 \<and> msg_type m2 = Some (JStr ''error''))"
      by (intro conjI)
  qed
  have u0: "(\<forall>e \<in> set evs. completed_usage e = None) \<longrightarrow> final_usage evs = zero_usage"
    by (simp add: final_usage_none)
  have u1: "completed_usage ev = Some u \<and> (\<forall>e \<in> set evs'. completed_usage e = None) \<longrightarrow>
      final_usage (evs @ ev # evs') = u"
    by (simp add: final_usage_last)
  let ?cfg = "openClawConfig example_config"
  let ?timeout = "JsError ''Error'' ''OpenClaw Gateway streaming request timed out''"
  have a: "isStreaming (forward_body example_stream_body ?cfg)"
    by code_simp
  have b: "stream_call example_stream_body ?cfg example_timeout_gateway
           = StreamResponse (Some 200) example_chunks (StreamFailure ?timeout)
               [JsError ''Error'' ''aborted'']"
    by (simp add: stream_call_def example_timeout_gateway_def)
  have c: "\<not> is_error_status (Some 200)"
    by (simp add: is_error_status_def)
  have twice: "relay_messages example_sse_parse example_stringify ''req-1'' example_stream_body
         ?cfg example_timeout_gateway
       = [stream_event_message ''req-1'' example_delta,
          stream_event_message ''req-1'' example_completed,
          plugin_error_message ''req-1'' ''OpenClaw Gateway streaming request timed out'',
          plugin_error_message ''req-1'' ''aborted'']"
    unfolding relay_stream_body[OF a b c]
    by (simp add: example_decoded error_messages_def)
  have two: "length (filter (is_terminal ''req-1'')
         (relay_messages example_sse_parse example_stringify ''req-1'' example_stream_body
            ?cfg example_timeout_gateway)) = 2"
    unfolding twice by (simp add: terminal_simps)
  show ?thesis
    by (intro unary_part stream_part count single u0 u1 twice two conjI)
qed

theorem relay_sends_an_error_for_every_error_event_witness:
  "isStreaming (forward_body example_stream_body (openClawConfig example_config))
   \<and> stream_call example_stream_body (openClawConfig example_config) (example_gateway StreamEnd)
       = StreamResponse (Some 200) example_chunks StreamEnd []
   \<and> (200::nat) < 400
   \<and> later_errors example_stream_body (openClawConfig example_config)
         (example_gateway StreamEnd) = []
   \<and> relay_messages example_sse_parse example_stringify ''req-1'' example_stream_body
         (openClawConfig example_config) (example_gateway StreamEnd)
       = [stream_event_message ''req-1'' example_delta,
          stream_event_message ''req-1'' example_completed,
          stream_end_message ''req-1'' example_usage]
   \<and> length (filter (is_terminal ''req-1'')
         (relay_messages example_sse_parse example_stringify ''req-1'' example_stream_body
            (openClawConfig example_config) (example_gateway StreamEnd))) = 1
   \<and> later_errors example_stream_body (openClawConfig example_config) example_timeout_gateway
       = [JsError ''Error'' ''aborted'']
   \<and> length (filter (is_terminal ''req-1'')
         (relay_messages example_sse_parse example_stringify ''req-1'' example_stream_body
            (openClawConfig example_config) example_timeout_gateway)) = 2"
proof -
  let ?cfg = "openClawConfig example_config"
  have a: "isStreaming (forward_body example_stream_body ?cfg)"
    by code_simp
  have b: "stream_call example_stream_body ?cfg (example_gateway StreamEnd)
           = StreamResponse (Some 200) example_chunks StreamEnd []"
    by (simp add: stream_call_def example_gateway_def)
  have l: "later_errors example_stream_body ?cfg (example_gateway StreamEnd) = []"
    using a b by (simp add: later_errors_def)
  have l2: "later_errors example_stream_body ?cfg example_timeout_gateway
      = [JsError ''Error'' ''aborted'']"
    using a by (simp add: later_errors_def stream_call_def example_timeout_gateway_def)
  note inst = relay_sends_an_error_for_every_error_event[of example_stream_body ?cfg
      "example_gateway StreamEnd" example_sse_parse example_stringify "''req-1''"]
  have ok: "Some (200::nat) = None \<or> (\<exists>n. Some (200::nat) = Some n \<and> n < 400)"
    by simp
  from inst a b ok
  have ended: "relay_messages example_sse_parse example_stringify ''req-1'' example_stream_body
         ?cfg (example_gateway StreamEnd)
       = map (stream_event_message ''req-1'') (decoded_events example_sse_parse example_chunks)
         @ stream_end_message ''req-1''
              (final_usage (decoded_events example_sse_parse example_chunks))
         # error_messages ''req-1'' []"
    by blast
  from inst have "length (filter (is_terminal ''req-1'')
         (relay_messages example_sse_parse example_stringify ''req-1'' example_stream_body
            ?cfg (example_gateway StreamEnd)))
       = 1 + length (later_errors example_stream_body ?cfg (example_gateway StreamEnd))"
    by blast
  then have one: "length (filter (is_terminal ''req-1'')
         (relay_messages example_sse_parse example_stringify ''req-1'' example_stream_body
            ?cfg (example_gateway StreamEnd))) = 1"
    by (simp add: l)
  from inst have two: "length (filter (is_terminal ''req-1'')
         (relay_messages example_sse_parse example_stringify ''req-1'' example_stream_body
            ?cfg example_timeout_gateway)) = 2"
    by blast
  show ?thesis
    using a b l l2 one two ended
    by (simp add: example_decoded example_final_usage error_messages_Nil)
qed

text \<open>
  C10. The promise of \<^verbatim>\<open>handleIncomingRequest\<close> is fulfilled whatever the gateway does, an
  error message as terminal outcome included; when it settles, the continuation adds
  exactly one to the request counter and calls the status callback with the new count.
  Through every sequence of events the counter grows by the number of relay promises
  fulfilled in it, so it never decreases.
\<close>

theorem every_completed_relay_is_counted:
  "snd (handleIncomingRequest parse stringify i body cfg gw) = Fulfilled
   \<and> step parse' (RelaySettled (snd (handleIncomingRequest parse stringify i body cfg gw))) c
       = (c\<lparr>requestCount := requestCount c + 1\<rparr>,
          [StatusChange connected (pluginId c) (requestCount c + 1)])
   \<and> getRequestCount
         (fst (step parse' (RelaySettled (snd (handleIncomingRequest parse stringify i body cfg gw))) c))
       = getRequestCount c + 1
   \<and> getRequestCount (fst (run parse' evs c)) = getRequestCount c + fulfilled_count evs
   \<and> getRequestCount c \<le> getRequestCount (fst (run parse' evs c))"
proof -
  have fulfilled: "snd (handleIncomingRequest parse stringify i body cfg gw) = Fulfilled"
    by (simp add: handleIncomingRequest_def Let_def split: sum.splits)
  have settle: "step parse' (RelaySettled Fulfilled) c
      = (c\<lparr>requestCount := requestCount c + 1\<rparr>,
         [StatusChange connected (pluginId c) (requestCount c + 1)])"
    by (simp add: on_relay_settled_def on_relay_fulfilled_def Let_def)
  have total: "getRequestCount (fst (run parse' evs c)) = getRequestCount c + fulfilled_count evs"
    by (simp add: getRequestCount_def run_requestCount)
  show ?thesis
    unfolding fulfilled settle total by (simp add: getRequestCount_def)
qed

theorem every_completed_relay_is_counted_witness:
  "relay_messages example_sse_parse example_stringify ''req-2'' example_unary_body
     (openClawConfig example_config) (example_gateway StreamEnd)
     = [plugin_error_message ''req-2'' ''connect ECONNREFUSED'']
   \<and> getRequestCount
         (fst (step example_parse
                 (RelaySettled
                    (snd (handleIncomingRequest example_sse_parse example_stringify ''req-2''
                            example_unary_body (openClawConfig example_config)
                            (example_gateway StreamEnd))))
                 example_connected))
       = 1"
proof -
  have msgs: "relay_messages example_sse_parse example_stringify ''req-2'' example_unary_body
     (openClawConfig example_config) (example_gateway StreamEnd)
     = [plugin_error_message ''req-2'' ''connect ECONNREFUSED'']"
    by code_simp
  have zero: "getRequestCount example_connected = 0"
    by (simp add: getRequestCount_def example_connected_eq)
  have "getRequestCount
         (fst (step example_parse
                 (RelaySettled
                    (snd (handleIncomingRequest example_sse_parse example_stringify ''req-2''
                            example_unary_body (openClawConfig example_config)
                            (example_gateway StreamEnd))))
                 example_connected))
       = getRequestCount example_connected + 1"
    using every_completed_relay_is_counted[of example_sse_parse example_stringify "''req-2''"
        example_unary_body "openClawConfig example_config" "example_gateway StreamEnd"
        example_parse example_connected "[]"]
    by blast
  with msgs zero show ?thesis
    by simp
qed

section \<open>The payment authorizer and the marketplace client\<close>

lemmas number_defs = parseChainId_def js_Number_def unsigned_decimal_def exponent_part_def
  signed_integer_def non_decimal_literal_def radix_value_def digit_in_def scale10_def
  is_digit_def trim_def is_space_def split_def Let_def js_BigInt_of_string_def
  js_BigInt_of_number_def

lemma digit_facts:
  assumes "is_digit c"
  shows "digit_in 10 c = Some (of_char c - 48)"
    and "\<not> is_space c"
    and "c \<noteq> CHR '':''" and "c \<noteq> CHR ''+''" and "c \<noteq> CHR ''-''" and "c \<noteq> CHR ''I''"
    and "c \<noteq> CHR ''x''" and "c \<noteq> CHR ''X''" and "c \<noteq> CHR ''o''" and "c \<noteq> CHR ''O''"
    and "c \<noteq> CHR ''b''" and "c \<noteq> CHR ''B''"
  using assms by (auto simp: is_digit_def digit_in_def is_space_def)

lemma radix_acc_digits:
  assumes "list_all is_digit ds"
  shows "radix_acc 10 acc ds = Some (foldl (\<lambda>a c. 10 * a + (of_char c - 48)) acc ds)"
  using assms by (induction ds arbitrary: acc) (simp_all add: digit_facts(1))

lemma radix_value_digits:
  assumes "all_digits ds"
  shows "radix_value 10 ds = Some (digits_value ds)"
  using assms by (simp add: all_digits_def radix_value_def digits_value_def radix_acc_digits)

lemma dropWhile_id: "xs = [] \<or> \<not> P (hd xs) \<Longrightarrow> dropWhile P xs = xs"
  by (cases xs) auto

lemma trim_digits:
  assumes "all_digits ds"
  shows "trim ds = ds"
proof -
  from assms have ne: "ds \<noteq> []" and all: "list_all is_digit ds"
    by (simp_all add: all_digits_def)
  have "is_digit (hd ds)" and "is_digit (last ds)"
    using ne all by (simp_all add: list_all_iff)
  then have "\<not> is_space (hd ds)" and "\<not> is_space (hd (rev ds))"
    using ne by (simp_all add: digit_facts(2) hd_rev)
  then show ?thesis
    by (simp add: trim_def dropWhile_id)
qed

lemma non_decimal_digits:
  assumes "all_digits ds"
  shows "non_decimal_literal ds = None"
proof (cases ds)
  case Nil
  then show ?thesis by (simp add: non_decimal_literal_def)
next
  case (Cons c0 r)
  show ?thesis
  proof (cases r)
    case Nil
    with Cons show ?thesis by (simp add: non_decimal_literal_def)
  next
    case (Cons c1 r')
    with assms \<open>ds = c0 # r\<close> have "is_digit c1"
      by (simp add: all_digits_def)
    note d = digit_facts[OF this]
    show ?thesis
      using \<open>ds = c0 # r\<close> Cons d by (simp add: non_decimal_literal_def)
  qed
qed

lemma unsigned_decimal_digits:
  assumes "all_digits ds"
  shows "unsigned_decimal ds = round_to_double (of_nat (digits_value ds))"
proof -
  from assms have ne: "ds \<noteq> []" and all: "list_all is_digit ds"
    by (simp_all add: all_digits_def)
  have "is_digit (hd ds)"
    using ne all by (cases ds) simp_all
  then have "hd ds \<noteq> CHR ''I''"
    by (rule digit_facts)
  then have inf: "ds \<noteq> ''Infinity''"
    by auto
  have tw: "takeWhile is_digit ds = ds" and dw: "dropWhile is_digit ds = []"
    using all by (simp_all add: list_all_iff)
  show ?thesis
    using inf ne radix_value_digits[OF assms]
    by (simp add: unsigned_decimal_def tw dw Let_def exponent_part_def scale10_def)
qed

lemma js_Number_digits:
  assumes "all_digits ds"
  shows "js_Number ds = round_to_double (of_nat (digits_value ds))"
proof -
  from assms have ne: "ds \<noteq> []" and all: "list_all is_digit ds"
    by (simp_all add: all_digits_def)
  have "is_digit (hd ds)"
    using ne all by (cases ds) simp_all
  note d = digit_facts[OF this]
  show ?thesis
    using ne d(4,5)
    by (simp add: js_Number_def trim_digits[OF assms] non_decimal_digits[OF assms]
          unsigned_decimal_digits[OF assms])
qed

lemma split_acc_no_sep:
  assumes "c \<notin> set s"
  shows "split_acc [c] acc s = [rev acc @ s]"
  using assms by (induction s arbitrary: acc) simp_all

lemma split_acc_nonempty: "split_acc sep acc s \<noteq> []"
  by (induction s arbitrary: acc) simp_all

lemma split_acc_last:
  assumes "c \<notin> set ds"
  shows "last (split_acc [c] acc (pre @ c # ds)) = ds"
proof (induction pre arbitrary: acc)
  case Nil
  show ?case
    using assms by (simp add: split_acc_no_sep)
next
  case (Cons x pre)
  show ?case
  proof (cases "x = c")
    case True
    have "split_acc [c] [] (pre @ c # ds) \<noteq> []"
      by (rule split_acc_nonempty)
    with True Cons.IH[of "[]"] show ?thesis
      by simp
  next
    case False
    with Cons.IH[of "x # acc"] show ?thesis
      by simp
  qed
qed

lemma digits_no_colon:
  assumes "all_digits ds"
  shows "CHR '':'' \<notin> set ds"
proof
  assume "CHR '':'' \<in> set ds"
  with assms have "is_digit (CHR '':'')"
    by (simp add: all_digits_def list_all_iff)
  then show False
    by (simp add: is_digit_def)
qed

lemma parseChainId_digits:
  assumes "all_digits ds"
  shows "parseChainId ds = Inr (round_to_double (of_nat (digits_value ds)))"
    and "parseChainId (pre @ '':'' @ ds) = Inr (round_to_double (of_nat (digits_value ds)))"
proof -
  note nc = digits_no_colon[OF assms]
  have "last (split '':'' ds) = ds"
    using nc by (simp add: split_def split_acc_no_sep)
  then show "parseChainId ds = Inr (round_to_double (of_nat (digits_value ds)))"
    by (simp add: parseChainId_def js_Number_digits[OF assms] round_to_double_not_NaN)
  have "last (split '':'' (pre @ '':'' @ ds)) = ds"
    using split_acc_last[OF nc, of "[]" pre] by (simp add: split_def)
  then show "parseChainId (pre @ '':'' @ ds)
      = Inr (round_to_double (of_nat (digits_value ds)))"
    by (simp add: parseChainId_def js_Number_digits[OF assms] round_to_double_not_NaN)
qed

lemma round_to_double_of_nat:
  assumes "n \<le> 2 ^ 53"
  shows "round_to_double (of_nat n) = Finite (of_nat n)"
proof -
  have "\<bar>int n\<bar> \<le> 2 ^ 53"
    using assms by (simp add: of_nat_le_iff[of n "2 ^ 53", where ?'a = int, simplified])
  from round_to_double_of_int[OF this] show ?thesis
    by simp
qed

lemma parseChainId_exact:
  assumes "all_digits ds" and "digits_value ds \<le> 2 ^ 53"
  shows "parseChainId ds = Inr (Finite (of_nat (digits_value ds)))"
    and "parseChainId (pre @ '':'' @ ds) = Inr (Finite (of_nat (digits_value ds)))"
  using parseChainId_digits[OF assms(1)] round_to_double_of_nat[OF assms(2)]
  by simp_all

lemma parseChainId_NaN:
  "parseChainId net = (if js_Number (last (split '':'' net)) = NaN
     then Inl (JsError ''Error'' (''Cannot parse chain ID from network: '' @ net))
     else Inr (js_Number (last (split '':'' net))))"
  by (simp add: parseChainId_def Let_def)

lemma digits_value_8453: "digits_value ''8453'' = 8453"
  by (simp add: digits_value_def)

lemma digits_value_unsafe: "digits_value ''9007199254740993'' = 9007199254740993"
  by (simp add: digits_value_def)

lemma round_to_double_unsafe: "round_to_double 9007199254740993 = Finite 9007199254740992"
proof -
  have fl: "\<lfloor>9007199254740993 / 2 :: rat\<rfloor> = 4503599627370496"
    by (simp add: floor_eq_iff)
  have "round_to_double 9007199254740993
      = Finite (of_int 4503599627370496 * 2 powi max (53 - 52) (- 1074))"
  proof (rule round_to_double_eval[where e = 53])
    show "round_half_even (9007199254740993 / 2 powi max (53 - 52) (- 1074)) = 4503599627370496"
      by (simp add: round_half_even_def Let_def fl)
  qed simp_all
  then show ?thesis
    by simp
qed

text \<open>
  C8. \<^verbatim>\<open>parseChainId\<close> returns \<^verbatim>\<open>Number\<close> of the last segment and throws exactly when that
  is \<^verbatim>\<open>NaN\<close>. For a network that is a run of decimal digits, alone or after a colon, it
  returns the double nearest to the number the digits denote, which is that number when
  it is at most \<open>2 ^ 53\<close>; beyond, it need not be: the digits \<^verbatim>\<open>9007199254740993\<close> give
  9007199254740992. The second half of the claim does not hold: \<^verbatim>\<open>Number\<close> accepts
  strings that are not integers. An empty last segment yields 0 and the segment \<^verbatim>\<open>1.5\<close>
  yields 1.5, where the claim demands a failure; a last segment of letters does fail.
\<close>

theorem parseChainId_follows_Number:
  "(all_digits ds \<longrightarrow>
      parseChainId ds = Inr (round_to_double (of_nat (digits_value ds)))
      \<and> parseChainId (pre @ '':'' @ ds) = Inr (round_to_double (of_nat (digits_value ds))))
   \<and> (all_digits ds \<and> digits_value ds \<le> 2 ^ 53 \<longrightarrow>
      parseChainId ds = Inr (Finite (of_nat (digits_value ds)))
      \<and> parseChainId (pre @ '':'' @ ds) = Inr (Finite (of_nat (digits_value ds))))
   \<and> parseChainId net =
       (if js_Number (last (split '':'' net)) = NaN
        then Inl (JsError ''Error'' (''Cannot parse chain ID from network: '' @ net))
        else Inr (js_Number (last (split '':'' net))))
   \<and> parseChainId ''eip155:'' = Inr (Finite 0)
   \<and> parseChainId ''eip155:1.5'' = Inr (Finite (3 / 2))
   \<and> parseChainId ''eip155:base''
       = Inl (JsError ''Error'' ''Cannot parse chain ID from network: eip155:base'')
   \<and> parseChainId ''9007199254740993'' = Inr (Finite 9007199254740992)"
proof -
  have half: "round_to_double (3 / 2) = Finite (3 / 2)"
    by (rule round_to_double_representable[where m = 3 and q' = "- 1"]) simp_all
  have e0: "parseChainId ''eip155:'' = Inr (Finite 0)"
    by (simp add: number_defs)
  have e1: "parseChainId ''eip155:1.5'' = Inr (Finite (3 / 2))"
    by (simp add: number_defs half)
  have e2: "parseChainId ''eip155:base''
      = Inl (JsError ''Error'' ''Cannot parse chain ID from network: eip155:base'')"
    by (simp add: number_defs)
  have "all_digits ''9007199254740993''"
    by (simp add: all_digits_def is_digit_def)
  from parseChainId_digits(1)[OF this]
  have e3: "parseChainId ''9007199254740993'' = Inr (Finite 9007199254740992)"
    by (simp add: digits_value_unsafe round_to_double_unsafe)
  show ?thesis
    using parseChainId_digits(1)[of ds] parseChainId_digits(2)[of ds pre]
      parseChainId_exact(1)[of ds] parseChainId_exact(2)[of ds pre]
      parseChainId_NaN[of net] e0 e1 e2 e3
    by blast
qed

theorem parseChainId_follows_Number_witness:
  "all_digits ''8453'' \<and> digits_value ''8453'' \<le> 2 ^ 53
   \<and> parseChainId ''8453'' = Inr (Finite 8453)
   \<and> parseChainId ''eip155:8453'' = Inr (Finite 8453)"
proof -
  have a: "all_digits ''8453''"
    by (simp add: all_digits_def is_digit_def)
  have b: "digits_value ''8453'' \<le> 2 ^ 53"
    by (simp add: digits_value_8453)
  from a b parseChainId_follows_Number[of "''8453''" "''eip155''"]
  have "parseChainId ''8453'' = Inr (Finite (of_nat (digits_value ''8453'')))
      \<and> parseChainId (''eip155'' @ '':'' @ ''8453'')
          = Inr (Finite (of_nat (digits_value ''8453'')))"
    by blast
  with a b show ?thesis
    by (simp add: digits_value_8453)
qed

lemma post_sign_ok:
  assumes "fetch pf (first_request url body) = Inr firstRes"
    and "res_status firstRes = 402"
    and "payment_json pf (res_body firstRes) = Some paymentBody"
    and "accepts paymentBody = Some offers"
    and "find (\<lambda>a. scheme a = ''permit2'') offers = Some requirements"
    and "sign_for pf cfg requirements maxAmountOverride = Inr xPayment"
  shows "postWith402Handling pf cfg url body maxAmountOverride =
           ([first_request url body, retry_request url body xPayment],
            fetch pf (retry_request url body xPayment))"
  using assms
  by (simp add: postWith402Handling_def Let_def first_request_def retry_request_def
        sign_for_def chosen_amount_def)

lemma post_sign_fails:
  assumes "fetch pf (first_request url body) = Inr firstRes"
    and "res_status firstRes = 402"
    and "payment_json pf (res_body firstRes) = Some paymentBody"
    and "accepts paymentBody = Some offers"
    and "find (\<lambda>a. scheme a = ''permit2'') offers = Some requirements"
    and "sign_for pf cfg requirements maxAmountOverride = Inl err"
  shows "postWith402Handling pf cfg url body maxAmountOverride =
           ([first_request url body], Inl err)"
  using assms
  by (simp add: postWith402Handling_def Let_def first_request_def retry_request_def
        sign_for_def chosen_amount_def)

lemma post_at_most_two:
  "length (fst (postWith402Handling pf cfg url body maxAmountOverride)) \<le> 2"
  by (simp add: postWith402Handling_def Let_def split: sum.splits option.splits)

lemma retry_request_eq:
  "retry_request url body x =
     (first_request url body)\<lparr>req_headers := req_headers (first_request url body) @ [(''X-PAYMENT'', x)]\<rparr>"
  by (simp add: retry_request_def first_request_def)

lemmas payment_example_defs = example_platform_def example_client_config_def
  example_signer_def example_requirements_def example_402_def example_stringify_def
  first_request_def retry_request_def sign_for_def chosen_amount_def

lemma example_sign_ok:
  "sign_for (example_platform ''eip155:8453'') example_client_config
     (example_requirements ''eip155:8453'') None = Inr ''{}''"
  by (simp add: payment_example_defs signPermit2Payment_def number_defs round_to_double_not_NaN)

lemma example_sign_fails:
  "sign_for (example_platform ''eip155:base'') example_client_config
     (example_requirements ''eip155:base'') None
     = Inl (JsError ''Error'' ''Cannot parse chain ID from network: eip155:base'')"
  by (simp add: payment_example_defs signPermit2Payment_def number_defs round_to_double_not_NaN)

text \<open>
  C5, as the code has it. When the first call returns 402 and its body offers the permit2
  scheme: if the payment is signed, exactly one retry is issued, to the same URL and with
  the same method and body, its headers being the original ones followed by the one header
  \<^verbatim>\<open>X-PAYMENT\<close> that carries the encoded authorization, and whatever that retry yields is
  the outcome (a response with the status 402 included: it is returned, not raised, and
  nothing is called again); if signing fails, no retry is issued and the failure is the
  outcome. In every case at most two calls are made.
\<close>

theorem payment_is_retried_at_most_once:
  assumes "fetch pf (first_request url body) = Inr firstRes"
    and "res_status firstRes = 402"
    and "payment_json pf (res_body firstRes) = Some paymentBody"
    and "accepts paymentBody = Some offers"
    and "find (\<lambda>a. scheme a = ''permit2'') offers = Some requirements"
  shows "(\<forall>x. sign_for pf cfg requirements maxAmountOverride = Inr x \<longrightarrow>
            postWith402Handling pf cfg url body maxAmountOverride
              = ([first_request url body, retry_request url body x],
                 fetch pf (retry_request url body x))
            \<and> req_body (retry_request url body x) = body
            \<and> req_body (first_request url body) = body
            \<and> req_url (retry_request url body x) = req_url (first_request url body)
            \<and> req_method (retry_request url body x) = req_method (first_request url body)
            \<and> req_headers (retry_request url body x)
                = req_headers (first_request url body) @ [(''X-PAYMENT'', x)])
         \<and> (\<forall>err. sign_for pf cfg requirements maxAmountOverride = Inl err \<longrightarrow>
                postWith402Handling pf cfg url body maxAmountOverride
                  = ([first_request url body], Inl err))
         \<and> length (fst (postWith402Handling pf' cfg' url' body' maxAmountOverride')) \<le> 2"
proof -
  have shape: "req_body (retry_request url body x) = body
      \<and> req_body (first_request url body) = body
      \<and> req_url (retry_request url body x) = req_url (first_request url body)
      \<and> req_method (retry_request url body x) = req_method (first_request url body)
      \<and> req_headers (retry_request url body x)
          = req_headers (first_request url body) @ [(''X-PAYMENT'', x)]" for x
    by (simp add: retry_request_def first_request_def)
  show ?thesis
    using post_sign_ok[OF assms] post_sign_fails[OF assms] shape
      post_at_most_two[of pf' cfg' url' body' maxAmountOverride']
    by blast
qed

theorem payment_is_retried_at_most_once_witness:
  "fetch (example_platform ''eip155:8453'')
     (first_request ''https://sixerr.ai/v1/responses'' ''BODY'') = Inr example_402
   \<and> res_status example_402 = 402
   \<and> sign_for (example_platform ''eip155:8453'') example_client_config
         (example_requirements ''eip155:8453'') None = Inr ''{}''
   \<and> postWith402Handling (example_platform ''eip155:8453'') example_client_config
         ''https://sixerr.ai/v1/responses'' ''BODY'' None
       = ([first_request ''https://sixerr.ai/v1/responses'' ''BODY'',
           retry_request ''https://sixerr.ai/v1/responses'' ''BODY'' ''{}''],
          Inr example_402)"
proof -
  let ?pf = "example_platform ''eip155:8453''"
  have f: "fetch ?pf r = Inr example_402" for r
    by (simp add: example_platform_def)
  have s: "res_status example_402 = 402"
    by (simp add: example_402_def)
  have j: "payment_json ?pf (res_body example_402)
      = Some \<lparr>x402Version = 1, error_text = ''Payment required'',
               accepts = Some [example_requirements ''eip155:8453'']\<rparr>"
    by (simp add: example_platform_def example_402_def)
  have a: "accepts \<lparr>x402Version = 1, error_text = ''Payment required'',
               accepts = Some [example_requirements ''eip155:8453'']\<rparr>
      = Some [example_requirements ''eip155:8453'']"
    by simp
  have fd: "find (\<lambda>a. scheme a = ''permit2'') [example_requirements ''eip155:8453'']
      = Some (example_requirements ''eip155:8453'')"
    by (simp add: example_requirements_def)
  show ?thesis
    using payment_is_retried_at_most_once[OF f s j a fd, of example_client_config None]
      example_sign_ok f s
    by simp
qed

text \<open>
  C5 as stated fails twice. The server of the example answers 402 and offers the permit2
  scheme. On the network \<^verbatim>\<open>eip155:base\<close> signing fails and no retry is issued at all. On
  the network \<^verbatim>\<open>eip155:8453\<close> the retry is issued and answered with 402 again: that
  response is the value returned, not an error.
\<close>

theorem second_402_is_returned_counterexample:
  "postWith402Handling (example_platform ''eip155:base'') example_client_config
     ''https://sixerr.ai/v1/responses'' ''BODY'' None
   = ([first_request ''https://sixerr.ai/v1/responses'' ''BODY''],
      Inl (JsError ''Error'' ''Cannot parse chain ID from network: eip155:base''))
   \<and> postWith402Handling (example_platform ''eip155:8453'') example_client_config
     ''https://sixerr.ai/v1/responses'' ''BODY'' None
   = ([first_request ''https://sixerr.ai/v1/responses'' ''BODY'',
       retry_request ''https://sixerr.ai/v1/responses'' ''BODY'' ''{}''],
      Inr example_402)
   \<and> res_status example_402 = 402"
proof -
  have f: "fetch (example_platform net) r = Inr example_402" for net r
    by (simp add: example_platform_def)
  have j: "payment_json (example_platform net) (res_body example_402)
      = Some \<lparr>x402Version = 1, error_text = ''Payment required'',
               accepts = Some [example_requirements net]\<rparr>" for net
    by (simp add: example_platform_def example_402_def)
  have s: "res_status example_402 = 402"
    by (simp add: example_402_def)
  have fd: "find (\<lambda>a. scheme a = ''permit2'') [example_requirements net]
      = Some (example_requirements net)" for net
    by (simp add: example_requirements_def)
  show ?thesis
    using post_sign_fails[OF f s j _ fd example_sign_fails]
      post_sign_ok[OF f s j _ fd example_sign_ok]
    by (simp add: f s)
qed

section \<open>The signing proxy\<close>

lemma responsesMatch_iff:
  "responsesMatch url \<noteq> None \<longleftrightarrow>
     url = ''/v1/responses''
     \<or> (\<exists>seg. url = ''/v1/responses/'' @ seg \<and> seg \<noteq> [] \<and> CHR ''/'' \<notin> set seg
              \<and> CHR ''?'' \<notin> set seg)"
proof
  assume "responsesMatch url \<noteq> None"
  then consider "url = ''/v1/responses''"
    | "prefix ''/v1/responses/'' url" "drop (length ''/v1/responses/'') url \<noteq> []"
      "list_all (\<lambda>c. c \<noteq> CHR ''/'' \<and> c \<noteq> CHR ''?'') (drop (length ''/v1/responses/'') url)"
    by (auto simp: responsesMatch_def Let_def split: if_splits)
  then show "url = ''/v1/responses''
     \<or> (\<exists>seg. url = ''/v1/responses/'' @ seg \<and> seg \<noteq> [] \<and> CHR ''/'' \<notin> set seg
              \<and> CHR ''?'' \<notin> set seg)"
  proof cases
    case 1
    then show ?thesis by simp
  next
    case 2
    from 2(1) obtain seg where u: "url = ''/v1/responses/'' @ seg"
      by (auto simp: prefix_def)
    with 2(2,3) have "seg \<noteq> [] \<and> CHR ''/'' \<notin> set seg \<and> CHR ''?'' \<notin> set seg"
      by (auto simp: list_all_iff)
    with u show ?thesis by blast
  qed
next
  assume "url = ''/v1/responses''
     \<or> (\<exists>seg. url = ''/v1/responses/'' @ seg \<and> seg \<noteq> [] \<and> CHR ''/'' \<notin> set seg
              \<and> CHR ''?'' \<notin> set seg)"
  then show "responsesMatch url \<noteq> None"
  proof
    assume "url = ''/v1/responses''"
    then show ?thesis by (simp add: responsesMatch_def)
  next
    assume "\<exists>seg. url = ''/v1/responses/'' @ seg \<and> seg \<noteq> [] \<and> CHR ''/'' \<notin> set seg
              \<and> CHR ''?'' \<notin> set seg"
    then obtain seg where "url = ''/v1/responses/'' @ seg" "seg \<noteq> []"
      "CHR ''/'' \<notin> set seg" "CHR ''?'' \<notin> set seg"
      by blast
    then show ?thesis
      by (auto simp: responsesMatch_def Let_def list_all_iff)
  qed
qed

lemma proxy_not_found:
  assumes "\<not> (request_method req = ''GET'' \<and> request_url req = ''/v1/providers'')"
    and "\<not> (request_method req = ''POST'' \<and> responsesMatch (request_url req) \<noteq> None)"
  shows "handleRequest parse stringify client req =
           ([], Inr (json_reply stringify 404 (JObj [(''error'', JStr ''Not found'')])))"
  using assms by (auto simp: handleRequest_def Let_def)

lemma proxy_bad_body:
  assumes "request_method req = ''POST''" and "responsesMatch (request_url req) = Some agent"
    and "px_body req = Inl err \<or> (\<exists>t. px_body req = Inr t \<and> parse t = None)"
  shows "handleRequest parse stringify client req =
           ([], Inr (json_reply stringify 400 (JObj [(''error'', JStr ''Invalid JSON body'')])))"
  using assms by (auto simp: handleRequest_def handleResponses_def Let_def)

lemma proxy_upstream_failure:
  assumes "request_method req = ''POST''" and "responsesMatch (request_url req) = Some agent"
    and "px_body req = Inr t" and "parse t = Some rawBody"
    and "client_respondRaw client rawBody agent = Inl err"
  shows "handleRequest parse stringify client req =
           ([CallRespondRaw rawBody agent],
            Inr (json_reply stringify 502 (JObj [(''error'', JStr (err_message err))])))"
  using assms by (auto simp: handleRequest_def handleResponses_def Let_def)

lemma proxy_providers_failure:
  assumes "request_method req = ''GET''" and "request_url req = ''/v1/providers''"
    and "client_listProviders client = Inl err"
  shows "handleRequest parse stringify client req =
           ([CallListProviders],
            Inr (json_reply stringify 502 (JObj [(''error'', JStr (err_message err))])))"
  using assms by (simp add: handleRequest_def Let_def)

text \<open>
  C9. A request that is neither \<^verbatim>\<open>GET /v1/providers\<close> nor a \<^verbatim>\<open>POST\<close> to \<^verbatim>\<open>/v1/responses\<close>
  (alone, or followed by one non-empty segment without slash and question mark) gets the
  status 404 and no call is made to the marketplace. A \<^verbatim>\<open>POST\<close> to a matching path
  whose body cannot be read or is not JSON gets the status 400, again without any call. A
  call of the marketplace that fails gets the status 502, and the body carries the message
  of the failure.
\<close>

theorem proxy_error_results:
  "(\<not> (request_method req = ''GET'' \<and> request_url req = ''/v1/providers'')
    \<and> \<not> (request_method req = ''POST'' \<and> responsesMatch (request_url req) \<noteq> None) \<longrightarrow>
      handleRequest parse stringify client req
        = ([], Inr (json_reply stringify 404 (JObj [(''error'', JStr ''Not found'')]))))
   \<and> (responsesMatch url \<noteq> None \<longleftrightarrow>
        url = ''/v1/responses''
        \<or> (\<exists>seg. url = ''/v1/responses/'' @ seg \<and> seg \<noteq> [] \<and> CHR ''/'' \<notin> set seg
                 \<and> CHR ''?'' \<notin> set seg))
   \<and> (request_method req = ''POST'' \<and> responsesMatch (request_url req) = Some agent
        \<and> (px_body req = Inl err \<or> (\<exists>t. px_body req = Inr t \<and> parse t = None)) \<longrightarrow>
        handleRequest parse stringify client req
          = ([], Inr (json_reply stringify 400 (JObj [(''error'', JStr ''Invalid JSON body'')]))))
   \<and> (request_method req = ''POST'' \<and> responsesMatch (request_url req) = Some agent
        \<and> px_body req = Inr bodyText \<and> parse bodyText = Some rawBody
        \<and> client_respondRaw client rawBody agent = Inl err' \<longrightarrow>
        handleRequest parse stringify client req
          = ([CallRespondRaw rawBody agent],
             Inr (json_reply stringify 502 (JObj [(''error'', JStr (err_message err'))]))))
   \<and> (request_method req = ''GET'' \<and> request_url req = ''/v1/providers''
        \<and> client_listProviders client = Inl err' \<longrightarrow>
        handleRequest parse stringify client req
          = ([CallListProviders],
             Inr (json_reply stringify 502 (JObj [(''error'', JStr (err_message err'))]))))
   \<and> out_status (json_reply stringify code j) = code
   \<and> out_body (json_reply stringify code j) = BodyText (stringify j)"
proof -
  have reply: "out_status (json_reply stringify code j) = code
      \<and> out_body (json_reply stringify code j) = BodyText (stringify j)"
    by (simp add: json_reply_def)
  show ?thesis
    using proxy_not_found[of req parse stringify client] responsesMatch_iff[of url]
      proxy_bad_body[of req agent err parse stringify client]
      proxy_upstream_failure[of req agent bodyText parse rawBody client err' stringify]
      proxy_providers_failure[of req client err' parse stringify] reply
    by blast
qed

theorem proxy_error_results_witness:
  "handleRequest example_body_parse example_stringify failing_client
     \<lparr>px_url = Some ''/v1/providers/all'', px_method = Some ''GET'', px_body = Inr []\<rparr>
     = ([], Inr (json_reply example_stringify 404 (JObj [(''error'', JStr ''Not found'')])))
   \<and> handleRequest example_body_parse example_stringify failing_client
       \<lparr>px_url = Some ''/v1/responses/agent-7'', px_method = Some ''POST'',
        px_body = Inr ''{oops''\<rparr>
     = ([], Inr (json_reply example_stringify 400 (JObj [(''error'', JStr ''Invalid JSON body'')])))
   \<and> handleRequest example_body_parse example_stringify failing_client
       \<lparr>px_url = Some ''/v1/responses/agent-7'', px_method = Some ''POST'',
        px_body = Inr ''BODY''\<rparr>
     = ([CallRespondRaw (JObj [(''input'', JStr ''Hello'')]) (Some ''agent-7'')],
        Inr (json_reply example_stringify 502 (JObj [(''error'', JStr ''fetch failed'')])))"
proof -
  let ?r1 = "\<lparr>px_url = Some ''/v1/providers/all'', px_method = Some ''GET'', px_body = Inr []\<rparr>"
  let ?r2 = "\<lparr>px_url = Some ''/v1/responses/agent-7'', px_method = Some ''POST'',
              px_body = Inr ''{oops''\<rparr>"
  let ?r3 = "\<lparr>px_url = Some ''/v1/responses/agent-7'', px_method = Some ''POST'',
              px_body = Inr ''BODY''\<rparr>"
  have m: "responsesMatch ''/v1/responses/agent-7'' = Some (Some ''agent-7'')"
    by (simp add: responsesMatch_def)
  have p: "example_body_parse ''{oops'' = None"
    "example_body_parse ''BODY'' = Some (JObj [(''input'', JStr ''Hello'')])"
    by (simp_all add: example_body_parse_def)
  have c: "client_respondRaw failing_client b a = Inl (JsError ''TypeError'' ''fetch failed'')"
    for b a
    by (simp add: failing_client_def)
  have 1: "handleRequest example_body_parse example_stringify failing_client ?r1
      = ([], Inr (json_reply example_stringify 404 (JObj [(''error'', JStr ''Not found'')])))"
    using proxy_error_results[of ?r1 example_body_parse example_stringify failing_client]
    by (simp add: request_method_def request_url_def)
  have 2: "handleRequest example_body_parse example_stringify failing_client ?r2
      = ([], Inr (json_reply example_stringify 400 (JObj [(''error'', JStr ''Invalid JSON body'')])))"
    using proxy_error_results[of ?r2 example_body_parse example_stringify failing_client _
        "Some ''agent-7''"] m p
    by (simp add: request_method_def request_url_def)
  have 3: "handleRequest example_body_parse example_stringify failing_client ?r3
      = ([CallRespondRaw (JObj [(''input'', JStr ''Hello'')]) (Some ''agent-7'')],
         Inr (json_reply example_stringify 502 (JObj [(''error'', JStr ''fetch failed'')])))"
    using proxy_error_results[of ?r3 example_body_parse example_stringify failing_client _
        "Some ''agent-7''" _ "''BODY''" "JObj [(''input'', JStr ''Hello'')]"
        "JsError ''TypeError'' ''fetch failed''"] m p c
    by (simp add: request_method_def request_url_def)
  from 1 2 3 show ?thesis
    by simp
qed


end
